theory Spec2Isabelle
  imports Complex_Main
begin

chapter \<open>The model\<close>

section \<open>Floating-point values\<close>

text \<open>
  The C++ type \<^verbatim>\<open>float\<close> is modelled by \<open>cfloat\<close>: a finite value carries the real
  number it denotes, and the three kinds of non-finite value are constructors of their
  own. Arithmetic on finite values is exact (no rounding, no overflow, one unsigned
  zero), a literal such as \<^verbatim>\<open>0.05f\<close> denotes the decimal it is written as, and the
  special values follow IEEE 754: every comparison with NaN is false, NaN propagates
  through arithmetic.
\<close>

datatype cfloat = Fin real | PInf | NInf | NaN

fun isfinite :: "cfloat \<Rightarrow> bool" where
  "isfinite (Fin r) = True"
| "isfinite PInf = False"
| "isfinite NInf = False"
| "isfinite NaN = False"

fun isnan :: "cfloat \<Rightarrow> bool" where
  "isnan NaN = True"
| "isnan (Fin r) = False"
| "isnan PInf = False"
| "isnan NInf = False"

text \<open>\<open>rv\<close> reads the real number of a finite value (and 0 of a non-finite one; it is
  applied to values already known to be finite).\<close>

fun rv :: "cfloat \<Rightarrow> real" where
  "rv (Fin r) = r"
| "rv PInf = 0"
| "rv NInf = 0"
| "rv NaN = 0"

text \<open>\<open>flt a b\<close> is the C++ comparison \<^verbatim>\<open>a < b\<close>, \<open>fle a b\<close> is \<^verbatim>\<open>a <= b\<close>.\<close>

fun flt :: "cfloat \<Rightarrow> cfloat \<Rightarrow> bool" where
  "flt (Fin a) (Fin b) = (a < b)"
| "flt (Fin a) PInf = True"
| "flt NInf (Fin b) = True"
| "flt NInf PInf = True"
| "flt (Fin a) NInf = False"
| "flt (Fin a) NaN = False"
| "flt PInf b = False"
| "flt NInf NInf = False"
| "flt NInf NaN = False"
| "flt NaN b = False"

fun fle :: "cfloat \<Rightarrow> cfloat \<Rightarrow> bool" where
  "fle (Fin a) (Fin b) = (a \<le> b)"
| "fle (Fin a) PInf = True"
| "fle NInf (Fin b) = True"
| "fle NInf PInf = True"
| "fle NInf NInf = True"
| "fle PInf PInf = True"
| "fle (Fin a) NInf = False"
| "fle (Fin a) NaN = False"
| "fle PInf (Fin b) = False"
| "fle PInf NInf = False"
| "fle PInf NaN = False"
| "fle NInf NaN = False"
| "fle NaN b = False"

text \<open>\<^verbatim>\<open>std::max(a, b)\<close> is \<^verbatim>\<open>(a < b) ? b : a\<close>, \<^verbatim>\<open>std::min(a, b)\<close> is
  \<^verbatim>\<open>(b < a) ? b : a\<close>, and \<^verbatim>\<open>std::clamp(v, lo, hi)\<close> is
  \<^verbatim>\<open>(v < lo) ? lo : (hi < v) ? hi : v\<close>.\<close>

definition fmax :: "cfloat \<Rightarrow> cfloat \<Rightarrow> cfloat" where
  "fmax a b = (if flt a b then b else a)"

definition fmin :: "cfloat \<Rightarrow> cfloat \<Rightarrow> cfloat" where
  "fmin a b = (if flt b a then b else a)"

definition fclamp :: "cfloat \<Rightarrow> cfloat \<Rightarrow> cfloat \<Rightarrow> cfloat" where
  "fclamp v lo hi = (if flt v lo then lo else if flt hi v then hi else v)"

fun fneg :: "cfloat \<Rightarrow> cfloat" where
  "fneg (Fin a) = Fin (- a)"
| "fneg PInf = NInf"
| "fneg NInf = PInf"
| "fneg NaN = NaN"

fun fadd :: "cfloat \<Rightarrow> cfloat \<Rightarrow> cfloat" where
  "fadd (Fin a) (Fin b) = Fin (a + b)"
| "fadd NaN b = NaN"
| "fadd (Fin a) NaN = NaN"
| "fadd PInf NaN = NaN"
| "fadd NInf NaN = NaN"
| "fadd PInf NInf = NaN"
| "fadd NInf PInf = NaN"
| "fadd PInf (Fin b) = PInf"
| "fadd PInf PInf = PInf"
| "fadd (Fin a) PInf = PInf"
| "fadd NInf (Fin b) = NInf"
| "fadd NInf NInf = NInf"
| "fadd (Fin a) NInf = NInf"

definition fsub :: "cfloat \<Rightarrow> cfloat \<Rightarrow> cfloat" where
  "fsub a b = fadd a (fneg b)"

text \<open>The sign of an infinite product; a zero factor times an infinity is NaN.\<close>

definition inf_of_sign :: "bool \<Rightarrow> cfloat" where
  "inf_of_sign positive = (if positive then PInf else NInf)"

fun fmul :: "cfloat \<Rightarrow> cfloat \<Rightarrow> cfloat" where
  "fmul (Fin a) (Fin b) = Fin (a * b)"
| "fmul NaN b = NaN"
| "fmul (Fin a) NaN = NaN"
| "fmul PInf NaN = NaN"
| "fmul NInf NaN = NaN"
| "fmul PInf PInf = PInf"
| "fmul NInf NInf = PInf"
| "fmul PInf NInf = NInf"
| "fmul NInf PInf = NInf"
| "fmul (Fin a) PInf = (if a = 0 then NaN else inf_of_sign (0 < a))"
| "fmul (Fin a) NInf = (if a = 0 then NaN else inf_of_sign (a < 0))"
| "fmul PInf (Fin b) = (if b = 0 then NaN else inf_of_sign (0 < b))"
| "fmul NInf (Fin b) = (if b = 0 then NaN else inf_of_sign (b < 0))"

text \<open>Division: a finite value over zero is an infinity of the sign of the numerator
  (the zero is unsigned), zero over zero and infinity over infinity are NaN.\<close>

fun fdiv :: "cfloat \<Rightarrow> cfloat \<Rightarrow> cfloat" where
  "fdiv (Fin a) (Fin b) =
     (if b \<noteq> 0 then Fin (a / b) else if a = 0 then NaN else inf_of_sign (0 < a))"
| "fdiv NaN b = NaN"
| "fdiv (Fin a) NaN = NaN"
| "fdiv PInf NaN = NaN"
| "fdiv NInf NaN = NaN"
| "fdiv (Fin a) PInf = Fin 0"
| "fdiv (Fin a) NInf = Fin 0"
| "fdiv PInf PInf = NaN"
| "fdiv PInf NInf = NaN"
| "fdiv NInf PInf = NaN"
| "fdiv NInf NInf = NaN"
| "fdiv PInf (Fin b) = inf_of_sign (0 \<le> b)"
| "fdiv NInf (Fin b) = inf_of_sign (b < 0)"

fun fabs :: "cfloat \<Rightarrow> cfloat" where
  "fabs (Fin a) = Fin \<bar>a\<bar>"
| "fabs PInf = PInf"
| "fabs NInf = PInf"
| "fabs NaN = NaN"

fun fexp :: "cfloat \<Rightarrow> cfloat" where
  "fexp (Fin a) = Fin (exp a)"
| "fexp PInf = PInf"
| "fexp NInf = Fin 0"
| "fexp NaN = NaN"

section \<open>Core data: error codes, curve types, colour spaces, the parameter bundle\<close>

datatype ErrorCode =
  SUCCESS | SCHEMA_MISSING | RANGE_PIVOT | RANGE_KNEE | NAN_INF
  | DET_MISMATCH | HL_FLICKER | DCI_BOUND | GAMUT_OOG

datatype CurveType = PPR | RLOG

datatype ColorSpace = BT2020_PQ | P3_D65 | ACESG | REC709

record CphParams =
  curve :: CurveType
  pivot_pq :: cfloat
  gamma_s :: cfloat
  gamma_h :: cfloat
  shoulder_h :: cfloat
  black_lift :: cfloat
  highlight_detail :: cfloat
  sat_base :: cfloat
  sat_hi :: cfloat
  dci_compliance :: bool
  deterministic :: bool
  rlog_a :: cfloat
  rlog_b :: cfloat
  rlog_c :: cfloat
  rlog_t :: cfloat
  yknee :: cfloat
  alpha :: cfloat
  toe :: cfloat

text \<open>The default member initialisers of \<^verbatim>\<open>struct CphParams\<close>.\<close>

definition default_params :: CphParams where
  "default_params =
     \<lparr> curve = PPR, pivot_pq = Fin 0.18, gamma_s = Fin 1.25, gamma_h = Fin 1.10,
       shoulder_h = Fin 1.5, black_lift = Fin 0.002, highlight_detail = Fin 0.2,
       sat_base = Fin 1.0, sat_hi = Fin 0.95, dci_compliance = False,
       deterministic = False, rlog_a = Fin 8.0, rlog_b = Fin 1.0, rlog_c = Fin 1.5,
       rlog_t = Fin 0.55, yknee = Fin 0.97, alpha = Fin 0.6, toe = Fin 0.002 \<rparr>"

section \<open>NumericalProtection\<close>

text \<open>\<^verbatim>\<open>NumericalProtection::IsValid(float)\<close>:
  \<^verbatim>\<open>std::isfinite(value) && !std::isnan(value)\<close>.\<close>

definition NumericalProtection_IsValid :: "cfloat \<Rightarrow> bool" where
  "NumericalProtection_IsValid v = (isfinite v \<and> \<not> isnan v)"

definition FixInvalid :: "cfloat \<Rightarrow> cfloat \<Rightarrow> cfloat" where
  "FixInvalid v fallback_value = (if NumericalProtection_IsValid v then v else fallback_value)"

section \<open>CphParams: validity and clamping\<close>

text \<open>\<^verbatim>\<open>CphParams::IsValid()\<close>: every field a valid number, then every field inside its
  range.\<close>

definition out_of_range :: "cfloat \<Rightarrow> real \<Rightarrow> real \<Rightarrow> bool" where
  "out_of_range v lo hi = (flt v (Fin lo) \<or> flt (Fin hi) v)"

definition CphParams_IsValid :: "CphParams \<Rightarrow> bool" where
  "CphParams_IsValid P =
    (if \<not> NumericalProtection_IsValid (pivot_pq P) \<or>
        \<not> NumericalProtection_IsValid (gamma_s P) \<or>
        \<not> NumericalProtection_IsValid (gamma_h P) \<or>
        \<not> NumericalProtection_IsValid (shoulder_h P) \<or>
        \<not> NumericalProtection_IsValid (rlog_a P) \<or>
        \<not> NumericalProtection_IsValid (rlog_b P) \<or>
        \<not> NumericalProtection_IsValid (rlog_c P) \<or>
        \<not> NumericalProtection_IsValid (rlog_t P) \<or>
        \<not> NumericalProtection_IsValid (black_lift P) \<or>
        \<not> NumericalProtection_IsValid (highlight_detail P) \<or>
        \<not> NumericalProtection_IsValid (sat_base P) \<or>
        \<not> NumericalProtection_IsValid (sat_hi P) \<or>
        \<not> NumericalProtection_IsValid (yknee P) \<or>
        \<not> NumericalProtection_IsValid (alpha P) \<or>
        \<not> NumericalProtection_IsValid (toe P) then False
     else if out_of_range (pivot_pq P) 0.05 0.30 then False
     else if out_of_range (gamma_s P) 1.0 1.6 then False
     else if out_of_range (gamma_h P) 0.8 1.4 then False
     else if out_of_range (shoulder_h P) 0.5 3.0 then False
     else if out_of_range (rlog_a P) 1.0 16.0 then False
     else if out_of_range (rlog_b P) 0.8 1.2 then False
     else if out_of_range (rlog_c P) 0.5 3.0 then False
     else if out_of_range (rlog_t P) 0.4 0.7 then False
     else if out_of_range (black_lift P) 0.0 0.02 then False
     else if out_of_range (highlight_detail P) 0.0 1.0 then False
     else if out_of_range (sat_base P) 0.0 2.0 then False
     else if out_of_range (sat_hi P) 0.0 2.0 then False
     else if out_of_range (yknee P) 0.95 0.99 then False
     else if out_of_range (alpha P) 0.2 1.0 then False
     else if out_of_range (toe P) 0.0 0.01 then False
     else True)"

text \<open>\<^verbatim>\<open>CphParams::ClampToValidRange()\<close>: first every non-finite field is replaced by the
  midpoint of its range, then every field is clamped to its range.\<close>

definition fix_then_clamp :: "cfloat \<Rightarrow> real \<Rightarrow> real \<Rightarrow> real \<Rightarrow> cfloat" where
  "fix_then_clamp v mid lo hi = fclamp (FixInvalid v (Fin mid)) (Fin lo) (Fin hi)"

definition ClampToValidRange :: "CphParams \<Rightarrow> CphParams" where
  "ClampToValidRange P =
     P \<lparr> pivot_pq := fix_then_clamp (pivot_pq P) 0.175 0.05 0.30,
         gamma_s := fix_then_clamp (gamma_s P) 1.3 1.0 1.6,
         gamma_h := fix_then_clamp (gamma_h P) 1.1 0.8 1.4,
         shoulder_h := fix_then_clamp (shoulder_h P) 1.75 0.5 3.0,
         rlog_a := fix_then_clamp (rlog_a P) 8.5 1.0 16.0,
         rlog_b := fix_then_clamp (rlog_b P) 1.0 0.8 1.2,
         rlog_c := fix_then_clamp (rlog_c P) 1.75 0.5 3.0,
         rlog_t := fix_then_clamp (rlog_t P) 0.55 0.4 0.7,
         black_lift := fix_then_clamp (black_lift P) 0.01 0.0 0.02,
         highlight_detail := fix_then_clamp (highlight_detail P) 0.5 0.0 1.0,
         sat_base := fix_then_clamp (sat_base P) 1.0 0.0 2.0,
         sat_hi := fix_then_clamp (sat_hi P) 1.0 0.0 2.0,
         yknee := fix_then_clamp (yknee P) 0.97 0.95 0.99,
         alpha := fix_then_clamp (alpha P) 0.6 0.2 1.0,
         toe := fix_then_clamp (toe P) 0.005 0.0 0.01 \<rparr>"

section \<open>ErrorHandler\<close>

datatype FallbackStrategy = PARAMETER_CORRECTION | STANDARD_FALLBACK | HARD_FALLBACK

text \<open>An error report. The message text of the source is not ASCII and is left out, and
  so is the timestamp.\<close>

record ErrorReport =
  code :: ErrorCode
  field_name :: string
  invalid_value :: cfloat
  action_taken :: string
  clip_guid :: string
  timecode :: string

definition new_ErrorReport :: "ErrorCode \<Rightarrow> ErrorReport" where
  "new_ErrorReport c =
     \<lparr> code = c, field_name = [], invalid_value = Fin 0, action_taken = [],
       clip_guid = [], timecode = [] \<rparr>"

text \<open>The handler's state: the last report, the current strategy, and \<open>emitted\<close>, the
  sequence of reports handed to the error callback (which is called for every error, in
  order). The log throttler depends on the clock and is not part of the model.\<close>

record ErrorHandler =
  last_error :: ErrorReport
  current_strategy :: FallbackStrategy
  emitted :: "ErrorReport list"

definition new_ErrorHandler :: ErrorHandler where
  "new_ErrorHandler =
     \<lparr> last_error = new_ErrorReport SUCCESS, current_strategy = PARAMETER_CORRECTION,
       emitted = [] \<rparr>"

fun DetermineFallbackStrategy :: "ErrorCode \<Rightarrow> FallbackStrategy" where
  "DetermineFallbackStrategy RANGE_PIVOT = PARAMETER_CORRECTION"
| "DetermineFallbackStrategy RANGE_KNEE = PARAMETER_CORRECTION"
| "DetermineFallbackStrategy SCHEMA_MISSING = STANDARD_FALLBACK"
| "DetermineFallbackStrategy DCI_BOUND = STANDARD_FALLBACK"
| "DetermineFallbackStrategy GAMUT_OOG = STANDARD_FALLBACK"
| "DetermineFallbackStrategy DET_MISMATCH = STANDARD_FALLBACK"
| "DetermineFallbackStrategy HL_FLICKER = STANDARD_FALLBACK"
| "DetermineFallbackStrategy NAN_INF = HARD_FALLBACK"
| "DetermineFallbackStrategy SUCCESS = HARD_FALLBACK"

fun action_of_strategy :: "FallbackStrategy \<Rightarrow> string" where
  "action_of_strategy PARAMETER_CORRECTION = ''PARAM_CORRECT''"
| "action_of_strategy STANDARD_FALLBACK = ''FALLBACK2094''"
| "action_of_strategy HARD_FALLBACK = ''IDENTITY''"

text \<open>\<^verbatim>\<open>ErrorHandler::HandleError\<close> returns the strategy and the new state.\<close>

definition HandleError ::
  "ErrorHandler \<Rightarrow> ErrorCode \<Rightarrow> string \<Rightarrow> cfloat \<Rightarrow> string \<Rightarrow> string
     \<Rightarrow> FallbackStrategy \<times> ErrorHandler" where
  "HandleError H error_code fld v guid tc =
     (let strategy = DetermineFallbackStrategy error_code;
          error = \<lparr> code = error_code, field_name = fld, invalid_value = v,
                    action_taken = action_of_strategy strategy,
                    clip_guid = guid, timecode = tc \<rparr>
      in (strategy,
          H \<lparr> last_error := error, current_strategy := strategy,
              emitted := emitted H @ [error] \<rparr>))"

text \<open>\<^verbatim>\<open>ErrorHandler::CorrectParameter\<close>: clamp, and the midpoint if the clamped value
  is still not a valid number.\<close>

definition CorrectParameter :: "cfloat \<Rightarrow> real \<Rightarrow> real \<Rightarrow> cfloat" where
  "CorrectParameter param lo hi =
     (let param1 = fclamp param (Fin lo) (Fin hi)
      in if \<not> NumericalProtection_IsValid param1 then Fin ((lo + hi) * 0.5) else param1)"

text \<open>\<^verbatim>\<open>ErrorHandler::ValidateFloatRange\<close> returns whether the value was corrected, the
  (possibly corrected) value and the new handler state.\<close>

definition ValidateFloatRange ::
  "ErrorHandler \<Rightarrow> cfloat \<Rightarrow> real \<Rightarrow> real \<Rightarrow> string \<Rightarrow> bool \<times> cfloat \<times> ErrorHandler" where
  "ValidateFloatRange H v lo hi fld =
     (if \<not> NumericalProtection_IsValid v then
        (True, CorrectParameter v lo hi, snd (HandleError H NAN_INF fld v [] []))
      else if flt v (Fin lo) \<or> flt (Fin hi) v then
        (True, CorrectParameter v lo hi, snd (HandleError H RANGE_PIVOT fld v [] []))
      else (False, v, H))"

text \<open>One line \<^verbatim>\<open>corrected |= ValidateFloatRange(params.f, lo, hi, "f")\<close> of
  \<^verbatim>\<open>ValidateAndCorrectParams\<close>: \<open>get\<close> reads the field, \<open>upd\<close> writes it.\<close>

definition validate_field ::
  "(CphParams \<Rightarrow> cfloat) \<Rightarrow> ((cfloat \<Rightarrow> cfloat) \<Rightarrow> CphParams \<Rightarrow> CphParams)
     \<Rightarrow> real \<Rightarrow> real \<Rightarrow> string
     \<Rightarrow> bool \<times> CphParams \<times> ErrorHandler \<Rightarrow> bool \<times> CphParams \<times> ErrorHandler" where
  "validate_field get upd lo hi fld s =
     (case s of (corrected, P, H) \<Rightarrow>
        (case ValidateFloatRange H (get P) lo hi fld of (b, v, H') \<Rightarrow>
           (corrected \<or> b, upd (\<lambda>_. v) P, H')))"

definition ValidateAndCorrectParams ::
  "ErrorHandler \<Rightarrow> CphParams \<Rightarrow> bool \<times> CphParams \<times> ErrorHandler" where
  "ValidateAndCorrectParams H P =
     (validate_field toe toe_update 0.0 0.01 ''toe''
      (validate_field alpha alpha_update 0.2 1.0 ''alpha''
      (validate_field yknee yknee_update 0.95 0.99 ''yknee''
      (validate_field rlog_t rlog_t_update 0.4 0.7 ''rlog_t''
      (validate_field rlog_c rlog_c_update 0.5 3.0 ''rlog_c''
      (validate_field rlog_b rlog_b_update 0.8 1.2 ''rlog_b''
      (validate_field rlog_a rlog_a_update 1.0 16.0 ''rlog_a''
      (validate_field sat_hi sat_hi_update 0.0 2.0 ''sat_hi''
      (validate_field sat_base sat_base_update 0.0 2.0 ''sat_base''
      (validate_field highlight_detail highlight_detail_update 0.0 1.0 ''highlight_detail''
      (validate_field black_lift black_lift_update 0.0 0.02 ''black_lift''
      (validate_field shoulder_h shoulder_h_update 0.5 3.0 ''shoulder_h''
      (validate_field gamma_h gamma_h_update 0.8 1.4 ''gamma_h''
      (validate_field gamma_s gamma_s_update 1.0 1.6 ''gamma_s''
      (validate_field pivot_pq pivot_pq_update 0.05 0.30 ''pivot_pq''
        (False, P, H))))))))))))))))"

text \<open>What \<open>ValidateFloatRange\<close> leaves in the field: the value itself when it is a valid
  number inside the range, and \<open>CorrectParameter\<close> of it otherwise.\<close>

definition corrected_value :: "cfloat \<Rightarrow> real \<Rightarrow> real \<Rightarrow> cfloat" where
  "corrected_value v lo hi =
     (if \<not> NumericalProtection_IsValid v \<or> out_of_range v lo hi
      then CorrectParameter v lo hi else v)"

text \<open>The report that \<open>HandleError\<close> builds for the field \<^verbatim>\<open>pivot_pq\<close> holding -0.1.\<close>

definition range_pivot_report :: ErrorReport where
  "range_pivot_report =
     \<lparr> code = RANGE_PIVOT, field_name = ''pivot_pq'', invalid_value = Fin (- 0.1),
       action_taken = ''PARAM_CORRECT'', clip_guid = [], timecode = [] \<rparr>"

section \<open>ToneMapper\<close>

text \<open>
  The tone mapper holds a parameter bundle and a flag. \<open>ToneMapper_Initialize\<close> accepts
  a bundle only if it satisfies \<open>CphParams_IsValid\<close>, so in an initialised mapper every
  parameter is a finite number; the curve functions below, which the source calls only
  from \<open>ApplyToneMapping\<close> after the input has been checked and clamped, compute on the
  real values \<open>rv\<close> of the parameters and on a real argument.
\<close>

record ToneMapper =
  tm_params :: CphParams
  tm_initialized :: bool

definition new_ToneMapper :: ToneMapper where
  "new_ToneMapper = \<lparr> tm_params = default_params, tm_initialized = False \<rparr>"

definition ToneMapper_Initialize :: "ToneMapper \<Rightarrow> CphParams \<Rightarrow> bool \<times> ToneMapper" where
  "ToneMapper_Initialize T params =
     (if \<not> CphParams_IsValid params then (False, T)
      else (True, T \<lparr> tm_params := params, tm_initialized := True \<rparr>))"

text \<open>\<^verbatim>\<open>std::clamp\<close> on finite values.\<close>

definition clampr :: "real \<Rightarrow> real \<Rightarrow> real \<Rightarrow> real" where
  "clampr v lo hi = (if v < lo then lo else if hi < v then hi else v)"

definition SmoothStep :: "real \<Rightarrow> real \<Rightarrow> real \<Rightarrow> real" where
  "SmoothStep edge0 edge1 x =
     (if edge1 \<le> edge0 then 0
      else let t = clampr ((x - edge0) / (edge1 - edge0)) 0 1
           in t * t * (3 - 2 * t))"

definition Mix :: "real \<Rightarrow> real \<Rightarrow> real \<Rightarrow> real" where
  "Mix a b t = a + t * (b - a)"

definition PPRShadowSegment :: "CphParams \<Rightarrow> real \<Rightarrow> real" where
  "PPRShadowSegment P x =
     (let p = rv (pivot_pq P); gamma_s = rv (gamma_s P)
      in if x \<le> 0 then 0
         else if p \<le> 0 then x
         else if x \<ge> p then p
         else let normalized_x = x / p;
                  power_result = normalized_x powr gamma_s
              in power_result * p)"

definition PPRHighlightSegment :: "CphParams \<Rightarrow> real \<Rightarrow> real" where
  "PPRHighlightSegment P x =
     (let p = rv (pivot_pq P); gamma_h = rv (gamma_h P); h = rv (shoulder_h P)
      in if x \<le> p then p
         else let normalized_x0 = (x - p) / (1 - p)
              in if normalized_x0 \<le> 0 then p
                 else let normalized_x = (if normalized_x0 \<ge> 1 then 1 else normalized_x0);
                          denominator = 1 + h * normalized_x
                      in if denominator \<le> 0 then x
                         else let rational_part = normalized_x / denominator;
                                  highlight_result = rational_part powr gamma_h
                              in p + highlight_result * (1 - p))"

definition ApplyPPR :: "CphParams \<Rightarrow> real \<Rightarrow> real" where
  "ApplyPPR P x =
     (let p = rv (pivot_pq P);
          shadow_value = PPRShadowSegment P x;
          highlight_value = PPRHighlightSegment P x;
          blend_range = p * 0.1
      in if x \<le> p - blend_range then shadow_value
         else if x \<ge> p + blend_range then highlight_value
         else let blend_weight = SmoothStep (p - blend_range) (p + blend_range) x
              in Mix shadow_value highlight_value blend_weight)"

definition RLOGDarkSegment :: "CphParams \<Rightarrow> real \<Rightarrow> real" where
  "RLOGDarkSegment P x =
     (let a = rv (rlog_a P)
      in if x \<le> 0 then 0
         else if x \<ge> 1 then 1
         else let numerator = ln (1 + a * x);
                  denominator = ln (1 + a)
              in if denominator \<le> 0 then x else numerator / denominator)"

definition RLOGHighlightSegment :: "CphParams \<Rightarrow> real \<Rightarrow> real" where
  "RLOGHighlightSegment P x =
     (let b = rv (rlog_b P); c = rv (rlog_c P)
      in if x \<le> 0 then 0
         else if x \<ge> 1 then b / (1 + c)
         else let denominator = 1 + c * x
              in if denominator \<le> 0 then x else (b * x) / denominator)"

definition ApplyRLOG :: "CphParams \<Rightarrow> real \<Rightarrow> real" where
  "ApplyRLOG P x =
     (let t = rv (rlog_t P);
          blend_range = 0.05;
          dark_at_t = RLOGDarkSegment P t;
          highlight_raw_at_t = RLOGHighlightSegment P t;
          scale_factor = (if highlight_raw_at_t > 0 then dark_at_t / highlight_raw_at_t else 1);
          y1 = RLOGDarkSegment P x;
          y2 = RLOGHighlightSegment P x * scale_factor
      in if x < t - blend_range then y1
         else if x > t + blend_range then y2
         else let blend_weight = SmoothStep (t - blend_range) (t + blend_range) x
              in Mix y1 y2 blend_weight)"

definition ApplySoftKnee :: "CphParams \<Rightarrow> real \<Rightarrow> real" where
  "ApplySoftKnee P y =
     (let yknee = rv (yknee P); alpha = rv (alpha P)
      in if y \<le> yknee then y
         else let excess = y - yknee;
                  max_excess = 1 - yknee
              in if max_excess \<le> 0 then yknee
                 else let normalized_excess = excess / max_excess;
                          compressed_excess =
                            normalized_excess / (1 + alpha * normalized_excess)
                      in yknee + compressed_excess * max_excess)"

definition ApplyToeClamp :: "CphParams \<Rightarrow> real \<Rightarrow> real" where
  "ApplyToeClamp P y =
     (let toe = rv (toe P)
      in if toe \<le> 0 \<or> y \<le> 0 then y else max y toe)"

text \<open>\<^verbatim>\<open>ToneMapper::ApplyToneMapping\<close>: an uninitialised mapper returns its input, a
  non-finite input gives 0, and otherwise the input is clamped to [0,1], sent through
  the selected curve, the soft knee and the toe clamp, and clamped to [0,1] again.\<close>

definition ApplyToneMapping :: "ToneMapper \<Rightarrow> cfloat \<Rightarrow> cfloat" where
  "ApplyToneMapping T luminance =
     (if \<not> tm_initialized T then luminance
      else if \<not> NumericalProtection_IsValid luminance then Fin 0
      else let P = tm_params T;
               x = clampr (rv luminance) 0 1;
               y0 = (if curve P = PPR then ApplyPPR P x else ApplyRLOG P x);
               y1 = ApplySoftKnee P y0;
               y2 = ApplyToeClamp P y1
           in Fin (clampr y2 0 1))"

text \<open>\<^verbatim>\<open>ToneMapper::GenerateSamplePoints\<close>: \<open>sample_count\<close> uniform points
  \<open>i / (sample_count - 1)\<close>, then \<open>problem_points\<close> points around the pivot (PPR, offsets
  within 0.05) or around the splice threshold (RLOG, offsets within 0.1), clamped to
  [0,1]; the list is sorted and adjacent duplicates are removed. (With
  \<open>sample_count = 1\<close> the source divides zero by zero; the validator is called with 4096
  and 256.)\<close>

definition uniform_points :: "int \<Rightarrow> real list" where
  "uniform_points sample_count =
     map (\<lambda>i. real_of_int i / real_of_int (sample_count - 1)) [0 .. sample_count - 1]"

definition problem_point :: "real \<Rightarrow> real \<Rightarrow> int \<Rightarrow> int \<Rightarrow> real" where
  "problem_point centre width problem_points i =
     (let offset = (real_of_int i / real_of_int problem_points - 0.5) * width
      in clampr (centre + offset) 0 1)"

definition GenerateSamplePoints :: "CphParams \<Rightarrow> int \<Rightarrow> int \<Rightarrow> real list" where
  "GenerateSamplePoints P sample_count problem_points =
     (let points =
            uniform_points sample_count @
            (if curve P = PPR
             then map (problem_point (rv (pivot_pq P)) 0.1 problem_points) [0 .. problem_points - 1]
             else map (problem_point (rv (rlog_t P)) 0.2 problem_points) [0 .. problem_points - 1])
      in remdups_adj (sort points))"

text \<open>The loop of \<^verbatim>\<open>ValidateMonotonicity\<close>: it returns false at the first sample whose
  value is below the previous one.\<close>

fun monotonic_scan :: "ToneMapper \<Rightarrow> cfloat \<Rightarrow> real list \<Rightarrow> bool" where
  "monotonic_scan T prev_value [] = True"
| "monotonic_scan T prev_value (x # xs) =
     (let current_value = ApplyToneMapping T (Fin x)
      in if flt current_value prev_value then False
         else monotonic_scan T current_value xs)"

definition ValidateMonotonicity :: "ToneMapper \<Rightarrow> int \<Rightarrow> int \<Rightarrow> bool" where
  "ValidateMonotonicity T sample_count problem_points =
     (if \<not> tm_initialized T then False
      else monotonic_scan T (Fin (- 1))
             (GenerateSamplePoints (tm_params T) sample_count problem_points))"

text \<open>\<^verbatim>\<open>ComputeDerivative\<close> (a central difference) and \<^verbatim>\<open>ValidateC1Continuity\<close>
  (the largest jump between the derivatives at \<open>x - epsilon\<close> and \<open>x + epsilon\<close> over 48
  interior points of a grid of 50).\<close>

definition ComputeDerivative :: "ToneMapper \<Rightarrow> real \<Rightarrow> real \<Rightarrow> cfloat" where
  "ComputeDerivative T x epsilon =
     (let x_left = max 0 (x - epsilon);
          x_right = min 1 (x + epsilon);
          y_left = ApplyToneMapping T (Fin x_left);
          y_right = ApplyToneMapping T (Fin x_right);
          dx = x_right - x_left
      in if dx \<le> 0 then Fin 0 else fdiv (fsub y_right y_left) (Fin dx))"

definition derivative_jump_step :: "ToneMapper \<Rightarrow> real \<Rightarrow> cfloat \<Rightarrow> int \<Rightarrow> cfloat" where
  "derivative_jump_step T epsilon max_derivative_jump i =
     (let x = real_of_int i / real_of_int (50 - 1)
      in if x \<le> epsilon \<or> x \<ge> 1 - epsilon then max_derivative_jump
         else let left_derivative = ComputeDerivative T (x - epsilon) epsilon;
                  right_derivative = ComputeDerivative T (x + epsilon) epsilon;
                  derivative_gap = fabs (fsub right_derivative left_derivative)
              in fmax max_derivative_jump derivative_gap)"

definition ValidateC1Continuity :: "ToneMapper \<Rightarrow> real \<Rightarrow> real \<Rightarrow> bool" where
  "ValidateC1Continuity T epsilon threshold =
     (if \<not> tm_initialized T then False
      else fle (foldl (derivative_jump_step T epsilon) (Fin 0) [1 .. 50 - 2]) (Fin threshold))"

text \<open>The mapper initialised with the default bundle.\<close>

definition default_mapper :: ToneMapper where
  "default_mapper = snd (ToneMapper_Initialize new_ToneMapper default_params)"

section \<open>NumericalUtils\<close>

type_synonym rgb = "cfloat \<times> cfloat \<times> cfloat"

definition NumericalUtils_IsFinite :: "cfloat \<Rightarrow> bool" where
  "NumericalUtils_IsFinite v = isfinite v"

fun IsFiniteRGB :: "rgb \<Rightarrow> bool" where
  "IsFiniteRGB (r, g, b) =
     (NumericalUtils_IsFinite r \<and> NumericalUtils_IsFinite g \<and> NumericalUtils_IsFinite b)"

fun SaturateRGB :: "rgb \<Rightarrow> rgb" where
  "SaturateRGB (r, g, b) =
     (fclamp r (Fin 0) (Fin 1), fclamp g (Fin 0) (Fin 1), fclamp b (Fin 0) (Fin 1))"

text \<open>\<^verbatim>\<open>NumericalUtils::SmoothStep\<close> and \<^verbatim>\<open>NumericalUtils::Mix\<close> (which clamps its
  weight); they differ from the tone mapper's private versions.\<close>

definition NumericalUtils_SmoothStep :: "cfloat \<Rightarrow> cfloat \<Rightarrow> cfloat \<Rightarrow> cfloat" where
  "NumericalUtils_SmoothStep edge0 edge1 x =
     (if fle edge1 edge0 then (if fle edge1 x then Fin 1 else Fin 0)
      else let t = fclamp (fdiv (fsub x edge0) (fsub edge1 edge0)) (Fin 0) (Fin 1)
           in fmul (fmul t t) (fsub (Fin 3) (fmul (Fin 2) t)))"

definition NumericalUtils_Mix :: "cfloat \<Rightarrow> cfloat \<Rightarrow> cfloat \<Rightarrow> cfloat" where
  "NumericalUtils_Mix a b t0 =
     (let t = fclamp t0 (Fin 0) (Fin 1)
      in fadd (fmul a (fsub (Fin 1) t)) (fmul b t))"

definition IsInRange :: "cfloat \<Rightarrow> cfloat \<Rightarrow> cfloat \<Rightarrow> bool" where
  "IsInRange v min_val max_val = (fle min_val v \<and> fle v max_val)"

section \<open>ColorSpaceConverter: transfer functions and matrices\<close>

definition PQ_M1 :: real where "PQ_M1 = 0.1593017578125"
definition PQ_M2 :: real where "PQ_M2 = 78.84375"
definition PQ_C1 :: real where "PQ_C1 = 0.8359375"
definition PQ_C2 :: real where "PQ_C2 = 18.8515625"
definition PQ_C3 :: real where "PQ_C3 = 18.6875"

text \<open>Both transfer functions return 0 for a non-finite or non-positive argument and
  compute on the finite value otherwise (\<^verbatim>\<open>std::pow\<close> of a non-negative base is
  \<open>powr\<close>).\<close>

fun PQ_EOTF :: "cfloat \<Rightarrow> cfloat" where
  "PQ_EOTF (Fin pq_value) =
     (if pq_value \<le> 0 then Fin 0
      else if pq_value \<ge> 1 then Fin 10000
      else let pq_pow = pq_value powr (1 / PQ_M2);
               numerator = max 0 (pq_pow - PQ_C1);
               denominator = PQ_C2 - PQ_C3 * pq_pow
           in if denominator \<le> 0 then Fin 10000
              else Fin ((numerator / denominator) powr (1 / PQ_M1) * 10000))"
| "PQ_EOTF PInf = Fin 0"
| "PQ_EOTF NInf = Fin 0"
| "PQ_EOTF NaN = Fin 0"

fun PQ_OETF :: "cfloat \<Rightarrow> cfloat" where
  "PQ_OETF (Fin linear_value) =
     (if linear_value \<le> 0 then Fin 0
      else let normalized = linear_value / 10000
           in if normalized \<ge> 1 then Fin 1
              else let pow_m1 = normalized powr PQ_M1;
                       numerator = PQ_C1 + PQ_C2 * pow_m1;
                       denominator = 1 + PQ_C3 * pow_m1
                   in if denominator \<le> 0 then Fin 1
                      else Fin ((numerator / denominator) powr PQ_M2))"
| "PQ_OETF PInf = Fin 0"
| "PQ_OETF NInf = Fin 0"
| "PQ_OETF NaN = Fin 0"

fun PQ_EOTF_RGB :: "rgb \<Rightarrow> rgb" where
  "PQ_EOTF_RGB (r, g, b) = (PQ_EOTF r, PQ_EOTF g, PQ_EOTF b)"

fun PQ_OETF_RGB :: "rgb \<Rightarrow> rgb" where
  "PQ_OETF_RGB (r, g, b) = (PQ_OETF r, PQ_OETF g, PQ_OETF b)"

type_synonym matrix3x3 = "(real \<times> real \<times> real) \<times> (real \<times> real \<times> real) \<times> (real \<times> real \<times> real)"

fun MultiplyMatrix3x3 :: "matrix3x3 \<Rightarrow> rgb \<Rightarrow> rgb" where
  "MultiplyMatrix3x3 ((m0, m1, m2), (m3, m4, m5), (m6, m7, m8)) (i0, i1, i2) =
     (fadd (fadd (fmul (Fin m0) i0) (fmul (Fin m1) i1)) (fmul (Fin m2) i2),
      fadd (fadd (fmul (Fin m3) i0) (fmul (Fin m4) i1)) (fmul (Fin m5) i2),
      fadd (fadd (fmul (Fin m6) i0) (fmul (Fin m7) i1)) (fmul (Fin m8) i2))"

text \<open>The matrices between BT.2020, P3-D65 and ACEScg are identity matrices in the
  source's header.\<close>

definition identity_matrix :: matrix3x3 where
  "identity_matrix = ((1, 0, 0), (0, 1, 0), (0, 0, 1))"

definition BT2020_to_P3D65 :: "rgb \<Rightarrow> rgb" where
  "BT2020_to_P3D65 v = MultiplyMatrix3x3 identity_matrix v"

definition P3D65_to_BT2020 :: "rgb \<Rightarrow> rgb" where
  "P3D65_to_BT2020 v = MultiplyMatrix3x3 identity_matrix v"

definition BT2020_to_ACEScg :: "rgb \<Rightarrow> rgb" where
  "BT2020_to_ACEScg v = MultiplyMatrix3x3 identity_matrix v"

definition ACEScg_to_BT2020 :: "rgb \<Rightarrow> rgb" where
  "ACEScg_to_BT2020 v = MultiplyMatrix3x3 identity_matrix v"

definition RGB_TO_LMS_MATRIX :: matrix3x3 where
  "RGB_TO_LMS_MATRIX =
     ((0.4122214708, 0.5363325363, 0.0514459929),
      (0.2119034982, 0.6806995451, 0.1073969566),
      (0.0883024619, 0.2817188376, 0.6299787005))"

definition LMS_TO_RGB_MATRIX :: matrix3x3 where
  "LMS_TO_RGB_MATRIX =
     ((4.0767416621, - 3.3077115913, 0.2309699292),
      (- 1.2684380046, 2.6097574011, - 0.3413193965),
      (- 0.0041960863, - 0.7034186147, 1.7076147010))"

definition LMS_TO_OKLAB_MATRIX :: matrix3x3 where
  "LMS_TO_OKLAB_MATRIX =
     ((0.2104542553, 0.7936177850, - 0.0040720468),
      (1.9779984951, - 2.4285922050, 0.4505937099),
      (0.0259040371, 0.7827717662, - 0.8086757660))"

definition OKLAB_TO_LMS_MATRIX :: matrix3x3 where
  "OKLAB_TO_LMS_MATRIX =
     ((0.99999999845051981432, 0.39633779217376785678, 0.21580375806075880339),
      (1.0000000088817607767, - 0.1055613423236563494, - 0.063854174771705903402),
      (1.0000000546724109177, - 0.089484182094965759684, - 1.2914855378640917399))"

section \<open>ColorSpaceConverter: gamut tests\<close>

definition in_box :: "cfloat \<Rightarrow> real \<Rightarrow> real \<Rightarrow> bool" where
  "in_box v lo hi = (fle (Fin lo) v \<and> fle v (Fin hi))"

fun IsInGamut :: "rgb \<Rightarrow> ColorSpace \<Rightarrow> bool" where
  "IsInGamut (r, g, b) ACESG = (in_box r (- 0.5) 2 \<and> in_box g (- 0.5) 2 \<and> in_box b (- 0.5) 2)"
| "IsInGamut (r, g, b) cs = (in_box r 0 1 \<and> in_box g 0 1 \<and> in_box b 0 1)"

fun ClampToGamut :: "rgb \<Rightarrow> ColorSpace \<Rightarrow> rgb" where
  "ClampToGamut (r, g, b) ACESG =
     (fclamp r (Fin (- 0.5)) (Fin 2), fclamp g (Fin (- 0.5)) (Fin 2),
      fclamp b (Fin (- 0.5)) (Fin 2))"
| "ClampToGamut (r, g, b) cs =
     (fclamp r (Fin 0) (Fin 1), fclamp g (Fin 0) (Fin 1), fclamp b (Fin 0) (Fin 1))"

section \<open>ColorSpaceConverter: OKLab\<close>

fun CubeRoot :: "cfloat \<Rightarrow> cfloat" where
  "CubeRoot (Fin x) = (if x \<ge> 0 then Fin (x powr (1 / 3)) else Fin (- ((- x) powr (1 / 3))))"
| "CubeRoot PInf = PInf"
| "CubeRoot NInf = NInf"
| "CubeRoot NaN = NaN"

definition CubePower :: "cfloat \<Rightarrow> cfloat" where
  "CubePower x = fmul (fmul x x) x"

definition RGB_to_OKLab :: "rgb \<Rightarrow> rgb" where
  "RGB_to_OKLab v =
     (if \<not> IsFiniteRGB v then (Fin 0, Fin 0, Fin 0)
      else case MultiplyMatrix3x3 RGB_TO_LMS_MATRIX v of (l, m, s) \<Rightarrow>
        let lms_prime = (CubeRoot (fmax (Fin 0) l), CubeRoot (fmax (Fin 0) m),
                         CubeRoot (fmax (Fin 0) s));
            oklab = MultiplyMatrix3x3 LMS_TO_OKLAB_MATRIX lms_prime
        in if \<not> IsFiniteRGB oklab then (Fin 0, Fin 0, Fin 0) else oklab)"

definition OKLab_to_RGB :: "rgb \<Rightarrow> rgb" where
  "OKLab_to_RGB oklab =
     (if \<not> IsFiniteRGB oklab then (Fin 0, Fin 0, Fin 0)
      else case MultiplyMatrix3x3 OKLAB_TO_LMS_MATRIX oklab of (l', m', s') \<Rightarrow>
        let lms = (CubePower l', CubePower m', CubePower s');
            v = MultiplyMatrix3x3 LMS_TO_RGB_MATRIX lms
        in if \<not> IsFiniteRGB v then (Fin 0, Fin 0, Fin 0) else v)"

section \<open>ColorSpaceConverter: saturation\<close>

definition ApplyBaseSaturation :: "rgb \<Rightarrow> cfloat \<Rightarrow> rgb" where
  "ApplyBaseSaturation oklab saturation0 =
     (if \<not> IsFiniteRGB oklab \<or> \<not> NumericalUtils_IsFinite saturation0 then oklab
      else case oklab of (L, a, b) \<Rightarrow>
        let saturation = fclamp saturation0 (Fin 0) (Fin 2)
        in (L, fmul a saturation, fmul b saturation))"

definition ApplyHighlightSaturation :: "rgb \<Rightarrow> cfloat \<Rightarrow> cfloat \<Rightarrow> rgb" where
  "ApplyHighlightSaturation oklab saturation0 weight0 =
     (if \<not> IsFiniteRGB oklab \<or> \<not> NumericalUtils_IsFinite saturation0 \<or>
         \<not> NumericalUtils_IsFinite weight0 then oklab
      else case oklab of (L, a, b) \<Rightarrow>
        let saturation = fclamp saturation0 (Fin 0) (Fin 2);
            weight = fclamp weight0 (Fin 0) (Fin 1);
            target_a = fmul a saturation;
            target_b = fmul b saturation
        in (L, NumericalUtils_Mix a target_a weight, NumericalUtils_Mix b target_b weight))"

text \<open>\<^verbatim>\<open>ColorSpaceConverter::ApplySaturation(rgb, sat_base, sat_hi, pivot_pq,
  x_luminance)\<close>. It has no parameter for the DCI compliance mode.\<close>

definition ApplySaturation :: "rgb \<Rightarrow> cfloat \<Rightarrow> cfloat \<Rightarrow> cfloat \<Rightarrow> cfloat \<Rightarrow> rgb" where
  "ApplySaturation v sat_base0 sat_hi0 pivot_pq0 x_luminance0 =
     (if \<not> IsFiniteRGB v \<or> \<not> NumericalUtils_IsFinite sat_base0 \<or>
         \<not> NumericalUtils_IsFinite sat_hi0 \<or> \<not> NumericalUtils_IsFinite pivot_pq0 \<or>
         \<not> NumericalUtils_IsFinite x_luminance0 then v
      else let sat_base1 = fclamp sat_base0 (Fin 0) (Fin 2);
               sat_hi1 = fclamp sat_hi0 (Fin 0) (Fin 2);
               pivot_pq1 = fclamp pivot_pq0 (Fin 0.05) (Fin 0.30);
               x_luminance = fclamp x_luminance0 (Fin 0) (Fin 1);
               oklab0 = RGB_to_OKLab v;
               oklab1 = ApplyBaseSaturation oklab0 sat_base1;
               w_hi = NumericalUtils_SmoothStep pivot_pq1 (Fin 1) x_luminance;
               oklab2 = ApplyHighlightSaturation oklab1 sat_hi1 w_hi;
               v' = OKLab_to_RGB oklab2
           in if \<not> IsFiniteRGB v' then (Fin 0, Fin 0, Fin 0) else v')"

section \<open>ColorSpaceConverter: the two-stage gamut processor\<close>

text \<open>\<^verbatim>\<open>std::max({a, b, c})\<close> scans from the left.\<close>

fun max3 :: "rgb \<Rightarrow> cfloat" where
  "max3 (r, g, b) = fmax (fmax r g) b"

fun scale_rgb :: "rgb \<Rightarrow> cfloat \<Rightarrow> rgb" where
  "scale_rgb (r, g, b) s = (fmul r s, fmul g s, fmul b s)"

fun floor_rgb :: "cfloat \<Rightarrow> rgb \<Rightarrow> rgb" where
  "floor_rgb lo (r, g, b) = (fmax lo r, fmax lo g, fmax lo b)"

definition LinearGamutCompression :: "rgb \<Rightarrow> ColorSpace \<Rightarrow> rgb" where
  "LinearGamutCompression v target_cs =
     (if \<not> IsFiniteRGB v then v
      else case target_cs of
        ACESG \<Rightarrow>
          (let max_val = max3 v;
               v1 = (if flt (Fin 2) max_val then scale_rgb v (fdiv (Fin 2) max_val) else v)
           in floor_rgb (Fin (- 0.5)) v1)
      | _ \<Rightarrow>
          (let max_val = max3 v;
               v1 = (if flt (Fin 1) max_val then scale_rgb v (fdiv (Fin 1) max_val) else v)
           in floor_rgb (Fin 0) v1))"

text \<open>The loop of \<^verbatim>\<open>PerceptualGamutClamp\<close>: at most \<open>n\<close> rounds; a round converts the
  OKLab value back to RGB and returns it (\<open>Inl\<close>) if it is in gamut, and otherwise
  multiplies the chroma channels by 0.9. \<open>Inr\<close> carries the OKLab value left after the
  last round.\<close>

fun reduce_chroma :: "rgb \<Rightarrow> rgb" where
  "reduce_chroma (L, a, b) = (L, fmul a (Fin 0.9), fmul b (Fin 0.9))"

fun perceptual_rounds :: "nat \<Rightarrow> rgb \<Rightarrow> ColorSpace \<Rightarrow> rgb + rgb" where
  "perceptual_rounds 0 oklab target_cs = Inr oklab"
| "perceptual_rounds (Suc n) oklab target_cs =
     (let test_rgb = OKLab_to_RGB oklab
      in if IsInGamut test_rgb target_cs then Inl test_rgb
         else perceptual_rounds n (reduce_chroma oklab) target_cs)"

definition PerceptualGamutClamp :: "rgb \<Rightarrow> ColorSpace \<Rightarrow> rgb" where
  "PerceptualGamutClamp v target_cs =
     (if \<not> IsFiniteRGB v then v
      else case perceptual_rounds 10 (RGB_to_OKLab v) target_cs of
        Inl test_rgb \<Rightarrow> test_rgb
      | Inr oklab \<Rightarrow> ClampToGamut (OKLab_to_RGB oklab) target_cs)"

text \<open>\<^verbatim>\<open>ApplyGamutProcessing\<close> returns its flag and the processed pixel.\<close>

definition ApplyGamutProcessing :: "rgb \<Rightarrow> ColorSpace \<Rightarrow> bool \<Rightarrow> bool \<times> rgb" where
  "ApplyGamutProcessing v target_cs dci =
     (if \<not> IsFiniteRGB v then (False, v)
      else let was_out_of_gamut = \<not> IsInGamut v target_cs;
               v1 = LinearGamutCompression v target_cs;
               v2 = (if dci \<or> \<not> IsInGamut v1 target_cs
                     then PerceptualGamutClamp v1 target_cs else v1)
           in if \<not> IsFiniteRGB v2 then (False, (Fin 0, Fin 0, Fin 0))
              else (was_out_of_gamut, ClampToGamut v2 target_cs))"

section \<open>ColorSpaceConverter: the working domain, pixel by pixel\<close>

definition ToWorkingDomain_pixel :: "ColorSpace \<Rightarrow> rgb \<Rightarrow> rgb" where
  "ToWorkingDomain_pixel input_cs src_pixel =
     (if \<not> IsFiniteRGB src_pixel then (Fin 0, Fin 0, Fin 0)
      else let dst_pixel =
                 (case input_cs of
                    BT2020_PQ \<Rightarrow> src_pixel
                  | P3_D65 \<Rightarrow> PQ_OETF_RGB (P3D65_to_BT2020 src_pixel)
                  | ACESG \<Rightarrow> PQ_OETF_RGB (ACEScg_to_BT2020 src_pixel)
                  | REC709 \<Rightarrow> src_pixel)
           in if \<not> IsFiniteRGB dst_pixel then (Fin 0, Fin 0, Fin 0)
              else SaturateRGB dst_pixel)"

definition FromWorkingDomain_pixel :: "ColorSpace \<Rightarrow> rgb \<Rightarrow> rgb" where
  "FromWorkingDomain_pixel target_cs src_pixel =
     (if \<not> IsFiniteRGB src_pixel then (Fin 0, Fin 0, Fin 0)
      else let dst_pixel =
                 (case target_cs of
                    BT2020_PQ \<Rightarrow> src_pixel
                  | P3_D65 \<Rightarrow> BT2020_to_P3D65 (PQ_EOTF_RGB src_pixel)
                  | ACESG \<Rightarrow> BT2020_to_ACEScg (PQ_EOTF_RGB src_pixel)
                  | REC709 \<Rightarrow> src_pixel)
           in if \<not> IsFiniteRGB dst_pixel then (Fin 0, Fin 0, Fin 0)
              else ClampToGamut dst_pixel target_cs)"

text \<open>The gamut box of a colour space, as the claim words it.\<close>

definition box_lo :: "ColorSpace \<Rightarrow> real" where
  "box_lo cs = (if cs = ACESG then - 0.5 else 0)"

definition box_hi :: "ColorSpace \<Rightarrow> real" where
  "box_hi cs = (if cs = ACESG then 2 else 1)"

section \<open>Image\<close>

text \<open>
  An image is its dimensions, its samples in row-major order (the sample of channel \<open>c\<close>
  of the pixel \<open>(x, y)\<close> is at index \<open>(y * width + x) * channels + c\<close>) and its colour
  space. The source reads and writes the first three channels of every pixel, so the
  model is meant for images with at least three channels.
\<close>

record Image =
  width :: int
  height :: int
  channels :: int
  data :: "cfloat list"
  color_space :: ColorSpace

definition new_Image :: "int \<Rightarrow> int \<Rightarrow> int \<Rightarrow> Image" where
  "new_Image w h c =
     \<lparr> width = w, height = h, channels = c, data = replicate (nat (w * h * c)) (Fin 0),
       color_space = BT2020_PQ \<rparr>"

text \<open>\<^verbatim>\<open>Image::GetPixel(x, y)\<close>: the null pointer outside the image, and otherwise the
  offset of the pixel's first sample.\<close>

definition GetPixel :: "Image \<Rightarrow> int \<Rightarrow> int \<Rightarrow> nat option" where
  "GetPixel img x y =
     (if x < 0 \<or> x \<ge> width img \<or> y < 0 \<or> y \<ge> height img then None
      else Some (nat ((y * width img + x) * channels img)))"

definition Image_IsValid :: "Image \<Rightarrow> bool" where
  "Image_IsValid img =
     (if width img \<le> 0 \<or> height img \<le> 0 \<or> channels img \<le> 0 then False
      else if length (data img) \<noteq> nat (width img * height img * channels img) then False
      else list_all isfinite (data img))"

text \<open>\<open>sample img x y c\<close> is \<^verbatim>\<open>img.GetPixel(x, y)[c]\<close> and \<open>rgb_at img x y\<close> the first
  three samples of the pixel, for a pixel inside the image.\<close>

definition sample :: "Image \<Rightarrow> int \<Rightarrow> int \<Rightarrow> nat \<Rightarrow> cfloat" where
  "sample img x y c = data img ! (nat ((y * width img + x) * channels img) + c)"

definition rgb_at :: "Image \<Rightarrow> int \<Rightarrow> int \<Rightarrow> rgb" where
  "rgb_at img x y = (sample img x y 0, sample img x y 1, sample img x y 2)"

text \<open>The MaxRGB luminance \<^verbatim>\<open>std::max(pixel[0], std::max(pixel[1], pixel[2]))\<close>.\<close>

fun MaxRGB :: "rgb \<Rightarrow> cfloat" where
  "MaxRGB (r, g, b) = fmax r (fmax g b)"

fun nth3 :: "rgb \<Rightarrow> nat \<Rightarrow> cfloat" where
  "nth3 (r, g, b) c = (if c = 0 then r else if c = 1 then g else b)"

text \<open>
  The loops of the source that fill an image visit every pixel \<open>(x, y)\<close> with
  \<open>0 \<le> x < width\<close> and \<open>0 \<le> y < height\<close> once and write samples of that pixel only, from
  values that do not depend on the image being written. \<open>tabulate_image\<close> builds the
  result of such a pair of loops: the sample \<open>c\<close> of the pixel \<open>(x, y)\<close> is \<open>f x y c\<close>. An
  image one of whose dimensions is not positive has no pixel to visit and keeps the zeros
  of its constructor.
\<close>

definition tabulate_image ::
  "int \<Rightarrow> int \<Rightarrow> int \<Rightarrow> ColorSpace \<Rightarrow> (int \<Rightarrow> int \<Rightarrow> nat \<Rightarrow> cfloat) \<Rightarrow> Image" where
  "tabulate_image w h c cs f =
     \<lparr> width = w, height = h, channels = c,
       data = map (\<lambda>i. if w \<le> 0 \<or> h \<le> 0 \<or> c \<le> 0 then Fin 0
                       else f (int ((i div nat c) mod nat w)) (int ((i div nat c) div nat w))
                              (i mod nat c))
                  [0 ..< nat (w * h * c)],
       color_space = cs \<rparr>"

text \<open>A loop that rewrites the first three samples of every pixel of an image in place
  and leaves further channels alone.\<close>

definition map_pixels :: "(rgb \<Rightarrow> rgb) \<Rightarrow> Image \<Rightarrow> Image" where
  "map_pixels g img =
     tabulate_image (width img) (height img) (channels img) (color_space img)
       (\<lambda>x y c. if c < 3 then nth3 (g (rgb_at img x y)) c else sample img x y c)"

text \<open>\<^verbatim>\<open>ToWorkingDomain\<close> and \<^verbatim>\<open>FromWorkingDomain\<close> write the first three samples of
  every pixel of a fresh image.\<close>

definition ToWorkingDomain :: "Image \<Rightarrow> Image" where
  "ToWorkingDomain input =
     tabulate_image (width input) (height input) (channels input) BT2020_PQ
       (\<lambda>x y c. if c < 3
                 then nth3 (ToWorkingDomain_pixel (color_space input) (rgb_at input x y)) c
                 else Fin 0)"

definition FromWorkingDomain :: "Image \<Rightarrow> ColorSpace \<Rightarrow> Image" where
  "FromWorkingDomain input target_cs =
     tabulate_image (width input) (height input) (channels input) target_cs
       (\<lambda>x y c. if c < 3
                 then nth3 (FromWorkingDomain_pixel target_cs (rgb_at input x y)) c
                 else Fin 0)"

section \<open>HighlightDetailProcessor\<close>

text \<open>The processor's parameters and its flag; the state of the motion protection
  (previous frame, motion history), which \<open>ProcessFrame\<close> does not use, is left out.\<close>

record HighlightDetailProcessor =
  hd_params :: CphParams
  hd_initialized :: bool

definition new_HighlightDetailProcessor :: HighlightDetailProcessor where
  "new_HighlightDetailProcessor = \<lparr> hd_params = default_params, hd_initialized = False \<rparr>"

definition HighlightDetailProcessor_Initialize ::
  "HighlightDetailProcessor \<Rightarrow> CphParams \<Rightarrow> bool \<times> HighlightDetailProcessor" where
  "HighlightDetailProcessor_Initialize D params =
     (let D1 = D \<lparr> hd_params := ClampToValidRange params \<rparr>
      in if \<not> CphParams_IsValid (hd_params D1) then (False, D1)
         else (True, D1 \<lparr> hd_initialized := True \<rparr>))"

text \<open>\<^verbatim>\<open>HighlightDetailUtils::ComputeHighlightMask\<close>: a one-channel image.\<close>

definition mask_value :: "cfloat \<Rightarrow> rgb \<Rightarrow> cfloat" where
  "mask_value pivot_threshold pixel =
     (let luminance = MaxRGB pixel
      in if flt pivot_threshold luminance
         then let mask_strength =
                    fdiv (fsub luminance pivot_threshold) (fsub (Fin 1) pivot_threshold)
              in fclamp mask_strength (Fin 0) (Fin 1)
         else Fin 0)"

definition ComputeHighlightMask :: "Image \<Rightarrow> cfloat \<Rightarrow> Image" where
  "ComputeHighlightMask img pivot_threshold =
     tabulate_image (width img) (height img) 1 (color_space img)
       (\<lambda>x y c. mask_value pivot_threshold (rgb_at img x y))"

text \<open>\<^verbatim>\<open>ComputeGaussianKernel\<close>: \<open>2 * radius + 1\<close> weights \<open>exp (-(x * x) / (2 * sigma *
  sigma))\<close>, divided by their total.\<close>

definition ComputeGaussianKernel :: "int \<Rightarrow> cfloat \<Rightarrow> cfloat list" where
  "ComputeGaussianKernel radius sigma =
     (let n = 2 * radius + 1;
          raw = map (\<lambda>i. let x = i - radius
                          in fexp (fdiv (Fin (real_of_int (- (x * x))))
                                        (fmul (fmul (Fin 2) sigma) sigma)))
                    [0 .. n - 1];
          total = foldl fadd (Fin 0) raw
      in map (\<lambda>k. fdiv k total) raw)"

text \<open>The innermost loop of the blur: the total over \<open>k\<close> of the source sample \<open>src k\<close>
  times the weight \<open>k\<close>.\<close>

definition convolve :: "cfloat list \<Rightarrow> (int \<Rightarrow> cfloat) \<Rightarrow> cfloat" where
  "convolve weights src =
     foldl (\<lambda>total k. fadd total (fmul (src (int k)) (weights ! k))) (Fin 0) [0 ..< length weights]"

definition clampi :: "int \<Rightarrow> int \<Rightarrow> int \<Rightarrow> int" where
  "clampi v lo hi = (if v < lo then lo else if hi < v then hi else v)"

definition ApplyGaussianBlur :: "Image \<Rightarrow> int \<Rightarrow> cfloat \<Rightarrow> Image" where
  "ApplyGaussianBlur input radius sigma =
     (let weights = ComputeGaussianKernel radius sigma;
          temp = tabulate_image (width input) (height input) (channels input) BT2020_PQ
                   (\<lambda>x y c. convolve weights
                      (\<lambda>k. sample input (clampi (x + k - radius) 0 (width input - 1)) y c))
      in tabulate_image (width input) (height input) (channels input) (color_space input)
           (\<lambda>x y c. convolve weights
              (\<lambda>k. sample temp x (clampi (y + k - radius) 0 (height input - 1)) c)))"

definition ComputeUnsharpMask :: "Image \<Rightarrow> Image \<Rightarrow> cfloat \<Rightarrow> cfloat \<Rightarrow> Image" where
  "ComputeUnsharpMask original blurred amount threshold =
     tabulate_image (width original) (height original) (channels original)
       (color_space original)
       (\<lambda>x y c. let diff = fsub (sample original x y c) (sample blurred x y c)
                 in if flt threshold (fabs diff) then fmul diff amount else Fin 0)"

text \<open>\<^verbatim>\<open>ApplyUSM\<close>: mask, blur (radius 2, sigma 1), detail layer (threshold 0.03), and
  the composition \<open>clamp (input + detail * mask, 0, 1)\<close> of every sample.\<close>

definition ApplyUSM :: "Image \<Rightarrow> cfloat \<Rightarrow> cfloat \<Rightarrow> Image" where
  "ApplyUSM input pivot_threshold intensity =
     (let highlight_mask = ComputeHighlightMask input pivot_threshold;
          blurred = ApplyGaussianBlur input 2 (Fin 1);
          detail_layer = ComputeUnsharpMask input blurred intensity (Fin 0.03)
      in tabulate_image (width input) (height input) (channels input) (color_space input)
           (\<lambda>x y c. let mask_value = sample highlight_mask x y 0
                     in fclamp (fadd (sample input x y c)
                                     (fmul (sample detail_layer x y c) mask_value))
                               (Fin 0) (Fin 1)))"

text \<open>\<^verbatim>\<open>HighlightDetailProcessor::ProcessFrame\<close>: \<open>None\<close> when it returns false (the output
  is not written), and the output image otherwise.\<close>

definition HighlightDetailProcessor_ProcessFrame ::
  "HighlightDetailProcessor \<Rightarrow> Image \<Rightarrow> cfloat \<Rightarrow> Image option" where
  "HighlightDetailProcessor_ProcessFrame D input pivot_threshold =
     (if \<not> hd_initialized D then None
      else if \<not> Image_IsValid input then None
      else if fle (highlight_detail (hd_params D)) (Fin 0) then Some input
      else Some (ApplyUSM input pivot_threshold (highlight_detail (hd_params D))))"

text \<open>A frame of one pixel, darker than the default pivot.\<close>

definition dark_pixel_frame :: Image where
  "dark_pixel_frame =
     \<lparr> width = 1, height = 1, channels = 3, data = [Fin 0.1, Fin 0.1, Fin 0.1],
       color_space = BT2020_PQ \<rparr>"

section \<open>CphProcessor\<close>

record Statistics =
  min_pq :: real
  avg_pq :: real
  max_pq :: real
  variance :: real
  monotonic :: bool
  c1_continuous :: bool
  max_derivative_gap :: real
  frame_count :: int

definition Statistics_Reset :: Statistics where
  "Statistics_Reset =
     \<lparr> min_pq = 0, avg_pq = 0, max_pq = 1, variance = 0, monotonic = True,
       c1_continuous = True, max_derivative_gap = 0, frame_count = 0 \<rparr>"

text \<open>The processor's state (\<^verbatim>\<open>CphProcessor::Impl\<close>); \<open>error_history\<close> holds the
  reports of \<open>LogError\<close> in order (their message texts and the formatted last error are
  left out).\<close>

record CphProcessor =
  current_params :: CphParams
  current_stats :: Statistics
  error_history :: "ErrorReport list"
  initialized :: bool
  tone_mapper :: ToneMapper
  highlight_processor :: HighlightDetailProcessor

definition new_CphProcessor :: CphProcessor where
  "new_CphProcessor =
     \<lparr> current_params = default_params, current_stats = Statistics_Reset,
       error_history = [], initialized = False, tone_mapper = new_ToneMapper,
       highlight_processor = new_HighlightDetailProcessor \<rparr>"

definition LogError :: "CphProcessor \<Rightarrow> ErrorCode \<Rightarrow> string \<Rightarrow> cfloat \<Rightarrow> CphProcessor" where
  "LogError S c fld v =
     S \<lparr> error_history :=
           error_history S @ [(new_ErrorReport c) \<lparr> field_name := fld, invalid_value := v \<rparr>] \<rparr>"

text \<open>\<^verbatim>\<open>ParamValidator\<close>: each check appends a RANGE_PIVOT report to \<open>errors\<close> when the
  value is not inside its range.\<close>

definition ValidateRange ::
  "cfloat \<Rightarrow> real \<Rightarrow> real \<Rightarrow> string \<Rightarrow> bool \<times> ErrorReport list \<Rightarrow> bool \<times> ErrorReport list" where
  "ValidateRange v min_val max_val param_name s =
     (case s of (valid, errors) \<Rightarrow>
        if \<not> IsInRange v (Fin min_val) (Fin max_val)
        then (False,
              errors @ [(new_ErrorReport RANGE_PIVOT)
                           \<lparr> field_name := param_name, invalid_value := v \<rparr>])
        else (valid, errors))"

definition ValidateCommonParams :: "CphParams \<Rightarrow> bool \<times> ErrorReport list \<Rightarrow> bool \<times> ErrorReport list" where
  "ValidateCommonParams P s =
     (ValidateRange (toe P) 0.0 0.01 ''toe''
      (ValidateRange (alpha P) 0.2 1.0 ''alpha''
      (ValidateRange (yknee P) 0.95 0.99 ''yknee''
      (ValidateRange (sat_hi P) 0.0 2.0 ''sat_hi''
      (ValidateRange (sat_base P) 0.0 2.0 ''sat_base''
      (ValidateRange (highlight_detail P) 0.0 1.0 ''highlight_detail''
      (ValidateRange (black_lift P) 0.0 0.02 ''black_lift''
      (ValidateRange (pivot_pq P) 0.05 0.30 ''pivot_pq'' s))))))))"

definition ValidatePPRParams :: "CphParams \<Rightarrow> bool \<times> ErrorReport list \<Rightarrow> bool \<times> ErrorReport list" where
  "ValidatePPRParams P s =
     (ValidateRange (shoulder_h P) 0.5 3.0 ''shoulder_h''
      (ValidateRange (gamma_h P) 0.8 1.4 ''gamma_h''
      (ValidateRange (gamma_s P) 1.0 1.6 ''gamma_s'' s)))"

definition ValidateRLOGParams :: "CphParams \<Rightarrow> bool \<times> ErrorReport list \<Rightarrow> bool \<times> ErrorReport list" where
  "ValidateRLOGParams P s =
     (ValidateRange (rlog_t P) 0.4 0.7 ''rlog_t''
      (ValidateRange (rlog_c P) 0.5 3.0 ''rlog_c''
      (ValidateRange (rlog_b P) 0.8 1.2 ''rlog_b''
      (ValidateRange (rlog_a P) 1.0 16.0 ''rlog_a'' s))))"

definition ValidateCphParams :: "CphParams \<Rightarrow> bool \<times> ErrorReport list" where
  "ValidateCphParams P =
     (let s = ValidateCommonParams P (True, [])
      in if curve P = PPR then ValidatePPRParams P s else ValidateRLOGParams P s)"

text \<open>\<^verbatim>\<open>CphProcessor::Initialize\<close> returns its flag and the new state.\<close>

definition CphProcessor_Initialize :: "CphProcessor \<Rightarrow> CphParams \<Rightarrow> bool \<times> CphProcessor" where
  "CphProcessor_Initialize S params =
     (case ValidateCphParams params of (valid, validation_errors) \<Rightarrow>
        if \<not> valid then (False, S \<lparr> error_history := error_history S @ validation_errors \<rparr>)
        else let S1 = S \<lparr> current_params := ClampToValidRange params \<rparr>
             in case ToneMapper_Initialize (tone_mapper S1) (current_params S1) of
                  (tm_ok, T) \<Rightarrow>
                    let S2 = S1 \<lparr> tone_mapper := T \<rparr>
                    in if \<not> tm_ok then (False, LogError S2 SCHEMA_MISSING [] (Fin 0))
                       else case HighlightDetailProcessor_Initialize (highlight_processor S2)
                                   (current_params S2) of
                              (hd_ok, D) \<Rightarrow>
                                let S3 = S2 \<lparr> highlight_processor := D \<rparr>
                                in if \<not> hd_ok then (False, LogError S3 SCHEMA_MISSING [] (Fin 0))
                                   else (True, S3 \<lparr> current_stats := Statistics_Reset,
                                                     initialized := True \<rparr>))"

definition SetDCIComplianceMode :: "CphProcessor \<Rightarrow> bool \<Rightarrow> CphProcessor" where
  "SetDCIComplianceMode S enabled =
     S \<lparr> current_params := (current_params S) \<lparr> dci_compliance := enabled \<rparr> \<rparr>"

definition SetDeterministicMode :: "CphProcessor \<Rightarrow> bool \<Rightarrow> CphProcessor" where
  "SetDeterministicMode S enabled =
     S \<lparr> current_params := (current_params S) \<lparr> deterministic := enabled \<rparr> \<rparr>"

text \<open>The body of the loop of \<^verbatim>\<open>ApplyToneMappingToImage\<close> for one pixel.\<close>

definition tone_map_pixel :: "ToneMapper \<Rightarrow> rgb \<Rightarrow> rgb" where
  "tone_map_pixel T pixel =
     (if \<not> IsFiniteRGB pixel then (Fin 0, Fin 0, Fin 0)
      else let max_rgb = MaxRGB pixel
           in if fle max_rgb (Fin 0) then pixel
              else let mapped_luminance = ApplyToneMapping T max_rgb;
                       scale_factor = (if flt (Fin 0) max_rgb
                                       then fdiv mapped_luminance max_rgb else Fin 1)
                   in SaturateRGB (scale_rgb pixel scale_factor))"

definition ApplyToneMappingToImage :: "CphProcessor \<Rightarrow> Image \<Rightarrow> Image" where
  "ApplyToneMappingToImage S working_image =
     map_pixels (tone_map_pixel (tone_mapper S)) working_image"

text \<open>The body of the loop of \<^verbatim>\<open>ApplySaturationProcessing\<close> for one pixel: the
  saturation step with the bundle's \<^verbatim>\<open>sat_base\<close>, \<^verbatim>\<open>sat_hi\<close> and \<^verbatim>\<open>pivot_pq\<close>, then
  the gamut processor for the working domain, then a clamp to [0,1].\<close>

definition saturation_step :: "CphParams \<Rightarrow> rgb \<Rightarrow> rgb" where
  "saturation_step P pixel =
     (let x_luminance = fclamp (MaxRGB pixel) (Fin 0) (Fin 1)
      in ApplySaturation pixel (sat_base P) (sat_hi P) (pivot_pq P) x_luminance)"

definition saturation_pixel :: "CphParams \<Rightarrow> rgb \<Rightarrow> rgb" where
  "saturation_pixel P pixel =
     (if \<not> IsFiniteRGB pixel then (Fin 0, Fin 0, Fin 0)
      else let pixel1 = saturation_step P pixel;
               pixel2 = snd (ApplyGamutProcessing pixel1 BT2020_PQ (dci_compliance P))
           in SaturateRGB pixel2)"

definition ApplySaturationProcessing :: "CphProcessor \<Rightarrow> Image \<Rightarrow> Image" where
  "ApplySaturationProcessing S working_image =
     map_pixels (saturation_pixel (current_params S)) working_image"

text \<open>\<^verbatim>\<open>Impl::UpdateStatistics\<close>: the MaxRGB of the finite pixels, sorted; minimum,
  maximum, mean and variance of the values left after trimming one percent at each end;
  and one more frame counted. (The timestamp is left out.)\<close>

definition pixel_list :: "Image \<Rightarrow> rgb list" where
  "pixel_list img =
     concat (map (\<lambda>y. map (\<lambda>x. rgb_at img x y) [0 .. width img - 1]) [0 .. height img - 1])"

definition UpdateStatistics :: "CphProcessor \<Rightarrow> Image \<Rightarrow> CphProcessor" where
  "UpdateStatistics S processed_frame =
     (let max_rgb_values =
            sort (map (\<lambda>p. rv (MaxRGB p)) (filter IsFiniteRGB (pixel_list processed_frame)));
          n = length max_rgb_values;
          trim_count = n div 100;
          start_idx = trim_count;
          end_idx = n - trim_count;
          stats0 = current_stats S;
          stats1 =
            (if max_rgb_values \<noteq> [] \<and> start_idx < end_idx
             then let kept = take (end_idx - start_idx) (drop start_idx max_rgb_values);
                      avg = foldl (+) 0 kept / real (end_idx - start_idx);
                      variance_sum = foldl (\<lambda>s v. s + (v - avg) * (v - avg)) 0 kept
                  in stats0 \<lparr> min_pq := max_rgb_values ! start_idx,
                               max_pq := max_rgb_values ! (end_idx - 1),
                               avg_pq := avg,
                               variance := variance_sum / real (end_idx - start_idx) \<rparr>
             else stats0)
      in S \<lparr> current_stats := stats1 \<lparr> frame_count := frame_count stats1 + 1 \<rparr> \<rparr>)"

text \<open>\<^verbatim>\<open>ValidateCurveProperties\<close>, with the default arguments of the two validators.\<close>

definition ValidateCurveProperties :: "CphProcessor \<Rightarrow> CphProcessor" where
  "ValidateCurveProperties S =
     (let is_monotonic = ValidateMonotonicity (tone_mapper S) 4096 256;
          S1 = S \<lparr> current_stats := (current_stats S) \<lparr> monotonic := is_monotonic \<rparr> \<rparr>;
          S2 = (if \<not> is_monotonic then LogError S1 RANGE_KNEE [] (Fin 0) else S1);
          is_c1_continuous = ValidateC1Continuity (tone_mapper S2) 0.001 0.001;
          S3 = S2 \<lparr> current_stats := (current_stats S2) \<lparr> c1_continuous := is_c1_continuous \<rparr> \<rparr>
      in if \<not> is_c1_continuous then LogError S3 RANGE_KNEE [] (Fin 0) else S3)"

text \<open>\<^verbatim>\<open>ProcessFrameInternal\<close> and \<^verbatim>\<open>ProcessFrame\<close> return the output image (\<open>None\<close>
  when the source returns false and writes no output) and the new state.\<close>

definition ProcessFrameInternal :: "CphProcessor \<Rightarrow> Image \<Rightarrow> Image option \<times> CphProcessor" where
  "ProcessFrameInternal S input =
     (let working0 = ToWorkingDomain input;
          working1 = ApplyToneMappingToImage S working0;
          (working2, S1) =
            (if flt (Fin 0) (highlight_detail (current_params S))
             then (case HighlightDetailProcessor_ProcessFrame (highlight_processor S) working1
                          (pivot_pq (current_params S)) of
                     None \<Rightarrow> (working1, LogError S HL_FLICKER [] (Fin 0))
                   | Some detail_enhanced \<Rightarrow> (detail_enhanced, S))
             else (working1, S));
          working3 = ApplySaturationProcessing S1 working2;
          output = FromWorkingDomain working3 (color_space input);
          S2 = UpdateStatistics S1 output;
          S3 = (if frame_count (current_stats S2) = 1 then ValidateCurveProperties S2 else S2)
      in (Some output, S3))"

definition ProcessFrame :: "CphProcessor \<Rightarrow> Image \<Rightarrow> Image option \<times> CphProcessor" where
  "ProcessFrame S input =
     (if \<not> initialized S then (None, LogError S SCHEMA_MISSING [] (Fin 0))
      else if \<not> Image_IsValid input then (None, LogError S NAN_INF [] (Fin 0))
      else ProcessFrameInternal S input)"

text \<open>A frame of one pixel whose red sample is NaN.\<close>

definition nan_pixel_frame :: Image where
  "nan_pixel_frame =
     \<lparr> width = 1, height = 1, channels = 3, data = [NaN, Fin 0.5, Fin 0.5],
       color_space = BT2020_PQ \<rparr>"

text \<open>The processor initialised with the default bundle.\<close>

definition default_processor :: CphProcessor where
  "default_processor = snd (CphProcessor_Initialize new_CphProcessor default_params)"

section \<open>The RLOG blend as a smooth function\<close>

text \<open>
  Auxiliary functions for the proof that the RLOG curve is monotonic: the dark segment
  \<open>ln (1 + a x) / ln (1 + a)\<close>, the highlight segment scaled to meet it at \<open>t\<close>, the
  position \<open>u\<close> of \<open>x\<close> in the splice window of half-width 0.05, and the blend of the two
  segments with the cubic weight, written without the case distinctions of the source.
\<close>

definition rlog_dark :: "real \<Rightarrow> real \<Rightarrow> real" where
  "rlog_dark a x = ln (1 + a * x) / ln (1 + a)"

definition rlog_high :: "real \<Rightarrow> real \<Rightarrow> real \<Rightarrow> real \<Rightarrow> real" where
  "rlog_high a c t x = rlog_dark a t * ((1 + c * t) * x) / (t * (1 + c * x))"

definition blend_u :: "real \<Rightarrow> real \<Rightarrow> real" where
  "blend_u t x = (x - (t - 0.05)) / 0.1"

definition cubic :: "real \<Rightarrow> real" where
  "cubic u = u * u * (3 - 2 * u)"

definition rlog_blend :: "real \<Rightarrow> real \<Rightarrow> real \<Rightarrow> real \<Rightarrow> real" where
  "rlog_blend a c t x =
     rlog_dark a x + cubic (blend_u t x) * (rlog_high a c t x - rlog_dark a x)"

text \<open>Their derivatives.\<close>

definition rlog_dark' :: "real \<Rightarrow> real \<Rightarrow> real" where
  "rlog_dark' a x = a / ((1 + a * x) * ln (1 + a))"

definition rlog_high' :: "real \<Rightarrow> real \<Rightarrow> real \<Rightarrow> real \<Rightarrow> real" where
  "rlog_high' a c t x = rlog_dark a t * (1 + c * t) / (t * ((1 + c * x) * (1 + c * x)))"

definition cubic' :: "real \<Rightarrow> real" where
  "cubic' u = 6 * u * (1 - u)"

definition rlog_blend' :: "real \<Rightarrow> real \<Rightarrow> real \<Rightarrow> real \<Rightarrow> real" where
  "rlog_blend' a c t x =
     rlog_dark' a x +
     (cubic' (blend_u t x) * 10 * (rlog_high a c t x - rlog_dark a x) +
      (rlog_high' a c t x - rlog_dark' a x) * cubic (blend_u t x))"

section \<open>Binary32 arithmetic\<close>

text \<open>The source computes in \<^verbatim>\<open>float\<close>. \<open>round32\<close> rounds a real number to binary32:
  24 significant bits, round to nearest with ties to even, gradual underflow below
  \<open>2 powr - 126\<close>. Overflow to infinity is not modelled (the functions below are used on
  values far below the largest binary32 number). Every operation is rounded on its own:
  no fused multiply-add and no wider intermediate precision.\<close>

definition rne :: "real \<Rightarrow> int" where
  "rne z =
     (let n = \<lfloor>z\<rfloor>; r = z - of_int n
      in if r < 1 / 2 then n else if 1 / 2 < r then n + 1
         else if even n then n else n + 1)"

definition ulp_exponent :: "real \<Rightarrow> int" where
  "ulp_exponent x = max (\<lfloor>log 2 \<bar>x\<bar>\<rfloor> - 23) (- 149)"

definition round32 :: "real \<Rightarrow> real" where
  "round32 x =
     (if x = 0 then 0
      else of_int (rne (x / 2 powr ulp_exponent x)) * 2 powr ulp_exponent x)"

definition add32 :: "real \<Rightarrow> real \<Rightarrow> real" where
  "add32 x y = round32 (x + y)"

definition sub32 :: "real \<Rightarrow> real \<Rightarrow> real" where
  "sub32 x y = round32 (x - y)"

definition mul32 :: "real \<Rightarrow> real \<Rightarrow> real" where
  "mul32 x y = round32 (x * y)"

definition div32 :: "real \<Rightarrow> real \<Rightarrow> real" where
  "div32 x y = round32 (x / y)"

text \<open>\<^verbatim>\<open>std::log\<close> and \<^verbatim>\<open>std::pow\<close> on \<^verbatim>\<open>float\<close> belong to the C library, not to the
  repository: the binary32 tone mapper takes them as parameters.\<close>

record libm =
  std_log :: "real \<Rightarrow> real"
  std_pow :: "real \<Rightarrow> real \<Rightarrow> real"

text \<open>A library that rounds the exact logarithm and the exact power to binary32.\<close>

definition rounding_libm :: libm where
  "rounding_libm =
     \<lparr> std_log = (\<lambda>x. round32 (ln x)), std_pow = (\<lambda>x y. round32 (x powr y)) \<rparr>"

section \<open>The tone mapper in binary32\<close>

text \<open>The functions of \<^verbatim>\<open>ToneMapper\<close> again, each arithmetic operation rounded to
  binary32 and each \<^verbatim>\<open>float\<close> literal read as the nearest binary32 number. The fields
  of the bundle are read as they are: a bundle the source can hold has binary32 values.\<close>

definition SmoothStep_f32 :: "real \<Rightarrow> real \<Rightarrow> real \<Rightarrow> real" where
  "SmoothStep_f32 edge0 edge1 x =
     (if edge1 \<le> edge0 then 0
      else let t = clampr (div32 (sub32 x edge0) (sub32 edge1 edge0)) 0 1
           in mul32 (mul32 t t) (sub32 3 (mul32 2 t)))"

definition Mix_f32 :: "real \<Rightarrow> real \<Rightarrow> real \<Rightarrow> real" where
  "Mix_f32 a b t = add32 a (mul32 t (sub32 b a))"

definition PPRShadowSegment_f32 :: "libm \<Rightarrow> CphParams \<Rightarrow> real \<Rightarrow> real" where
  "PPRShadowSegment_f32 L P x =
     (let p = rv (pivot_pq P); gamma_s = rv (gamma_s P)
      in if x \<le> 0 then 0
         else if p \<le> 0 then x
         else if x \<ge> p then p
         else let normalized_x = div32 x p;
                  power_result = std_pow L normalized_x gamma_s
              in mul32 power_result p)"

definition PPRHighlightSegment_f32 :: "libm \<Rightarrow> CphParams \<Rightarrow> real \<Rightarrow> real" where
  "PPRHighlightSegment_f32 L P x =
     (let p = rv (pivot_pq P); gamma_h = rv (gamma_h P); h = rv (shoulder_h P)
      in if x \<le> p then p
         else let normalized_x0 = div32 (sub32 x p) (sub32 1 p)
              in if normalized_x0 \<le> 0 then p
                 else let normalized_x = (if normalized_x0 \<ge> 1 then 1 else normalized_x0);
                          denominator = add32 1 (mul32 h normalized_x)
                      in if denominator \<le> 0 then x
                         else let rational_part = div32 normalized_x denominator;
                                  highlight_result = std_pow L rational_part gamma_h
                              in add32 p (mul32 highlight_result (sub32 1 p)))"

definition ApplyPPR_f32 :: "libm \<Rightarrow> CphParams \<Rightarrow> real \<Rightarrow> real" where
  "ApplyPPR_f32 L P x =
     (let p = rv (pivot_pq P);
          shadow_value = PPRShadowSegment_f32 L P x;
          highlight_value = PPRHighlightSegment_f32 L P x;
          blend_range = mul32 p (round32 0.1)
      in if x \<le> sub32 p blend_range then shadow_value
         else if x \<ge> add32 p blend_range then highlight_value
         else let blend_weight = SmoothStep_f32 (sub32 p blend_range) (add32 p blend_range) x
              in Mix_f32 shadow_value highlight_value blend_weight)"

definition RLOGDarkSegment_f32 :: "libm \<Rightarrow> CphParams \<Rightarrow> real \<Rightarrow> real" where
  "RLOGDarkSegment_f32 L P x =
     (let a = rv (rlog_a P)
      in if x \<le> 0 then 0
         else if x \<ge> 1 then 1
         else let numerator = std_log L (add32 1 (mul32 a x));
                  denominator = std_log L (add32 1 a)
              in if denominator \<le> 0 then x else div32 numerator denominator)"

definition RLOGHighlightSegment_f32 :: "CphParams \<Rightarrow> real \<Rightarrow> real" where
  "RLOGHighlightSegment_f32 P x =
     (let b = rv (rlog_b P); c = rv (rlog_c P)
      in if x \<le> 0 then 0
         else if x \<ge> 1 then div32 b (add32 1 c)
         else let denominator = add32 1 (mul32 c x)
              in if denominator \<le> 0 then x else div32 (mul32 b x) denominator)"

definition ApplyRLOG_f32 :: "libm \<Rightarrow> CphParams \<Rightarrow> real \<Rightarrow> real" where
  "ApplyRLOG_f32 L P x =
     (let t = rv (rlog_t P);
          blend_range = round32 0.05;
          dark_at_t = RLOGDarkSegment_f32 L P t;
          highlight_raw_at_t = RLOGHighlightSegment_f32 P t;
          scale_factor =
            (if highlight_raw_at_t > 0 then div32 dark_at_t highlight_raw_at_t else 1);
          y1 = RLOGDarkSegment_f32 L P x;
          y2 = mul32 (RLOGHighlightSegment_f32 P x) scale_factor
      in if x < sub32 t blend_range then y1
         else if x > add32 t blend_range then y2
         else let blend_weight = SmoothStep_f32 (sub32 t blend_range) (add32 t blend_range) x
              in Mix_f32 y1 y2 blend_weight)"

definition ApplySoftKnee_f32 :: "CphParams \<Rightarrow> real \<Rightarrow> real" where
  "ApplySoftKnee_f32 P y =
     (let yknee = rv (yknee P); alpha = rv (alpha P)
      in if y \<le> yknee then y
         else let excess = sub32 y yknee;
                  max_excess = sub32 1 yknee
              in if max_excess \<le> 0 then yknee
                 else let normalized_excess = div32 excess max_excess;
                          compressed_excess =
                            div32 normalized_excess (add32 1 (mul32 alpha normalized_excess))
                      in add32 yknee (mul32 compressed_excess max_excess))"

text \<open>\<^verbatim>\<open>ApplyToeClamp\<close> and the clamps do no arithmetic: they are the functions above.\<close>

definition ApplyToneMapping_f32 :: "libm \<Rightarrow> ToneMapper \<Rightarrow> cfloat \<Rightarrow> cfloat" where
  "ApplyToneMapping_f32 L T luminance =
     (if \<not> tm_initialized T then luminance
      else if \<not> NumericalProtection_IsValid luminance then Fin 0
      else let P = tm_params T;
               x = clampr (rv luminance) 0 1;
               y0 = (if curve P = PPR then ApplyPPR_f32 L P x else ApplyRLOG_f32 L P x);
               y1 = ApplySoftKnee_f32 P y0;
               y2 = ApplyToeClamp P y1
           in Fin (clampr y2 0 1))"

text \<open>\<^verbatim>\<open>GenerateSamplePoints\<close> in binary32: the integers are converted to
  \<^verbatim>\<open>float\<close> before the division, and \<^verbatim>\<open>std::unique\<close> removes adjacent equal
  binary32 numbers only.\<close>

definition uniform_points_f32 :: "int \<Rightarrow> real list" where
  "uniform_points_f32 sample_count =
     map (\<lambda>i. div32 (round32 (real_of_int i)) (round32 (real_of_int (sample_count - 1))))
         [0 .. sample_count - 1]"

definition problem_point_f32 :: "real \<Rightarrow> real \<Rightarrow> int \<Rightarrow> int \<Rightarrow> real" where
  "problem_point_f32 centre window problem_points i =
     (let offset =
            mul32 (sub32 (div32 (round32 (real_of_int i)) (round32 (real_of_int problem_points)))
                         0.5) window
      in clampr (add32 centre offset) 0 1)"

definition GenerateSamplePoints_f32 :: "CphParams \<Rightarrow> int \<Rightarrow> int \<Rightarrow> real list" where
  "GenerateSamplePoints_f32 P sample_count problem_points =
     (let points =
            uniform_points_f32 sample_count @
            (if curve P = PPR
             then map (problem_point_f32 (rv (pivot_pq P)) (round32 0.1) problem_points)
                      [0 .. problem_points - 1]
             else map (problem_point_f32 (rv (rlog_t P)) (round32 0.2) problem_points)
                      [0 .. problem_points - 1])
      in remdups_adj (sort points))"

fun monotonic_scan_f32 :: "libm \<Rightarrow> ToneMapper \<Rightarrow> cfloat \<Rightarrow> real list \<Rightarrow> bool" where
  "monotonic_scan_f32 L T prev_value [] = True"
| "monotonic_scan_f32 L T prev_value (x # xs) =
     (let current_value = ApplyToneMapping_f32 L T (Fin x)
      in if flt current_value prev_value then False
         else monotonic_scan_f32 L T current_value xs)"

definition ValidateMonotonicity_f32 :: "libm \<Rightarrow> ToneMapper \<Rightarrow> int \<Rightarrow> int \<Rightarrow> bool" where
  "ValidateMonotonicity_f32 L T sample_count problem_points =
     (if \<not> tm_initialized T then False
      else monotonic_scan_f32 L T (Fin (- 1))
             (GenerateSamplePoints_f32 (tm_params T) sample_count problem_points))"

text \<open>A valid bundle with binary32 fields: the RLOG curve with \<^verbatim>\<open>rlog_t = 0.4113f\<close>, every
  other field at its default; and the mapper initialised with it.\<close>

definition rlog_bundle :: CphParams where
  "rlog_bundle =
     \<lparr> curve = RLOG, pivot_pq = Fin (round32 0.18), gamma_s = Fin (round32 1.25),
       gamma_h = Fin (round32 1.10), shoulder_h = Fin (round32 1.5),
       black_lift = Fin (round32 0.002), highlight_detail = Fin (round32 0.2),
       sat_base = Fin (round32 1.0), sat_hi = Fin (round32 0.95), dci_compliance = False,
       deterministic = False, rlog_a = Fin (round32 8.0), rlog_b = Fin (round32 1.0),
       rlog_c = Fin (round32 1.5), rlog_t = Fin (round32 0.4113), yknee = Fin (round32 0.97),
       alpha = Fin (round32 0.6), toe = Fin (round32 0.002) \<rparr>"

definition rlog_mapper :: ToneMapper where
  "rlog_mapper = snd (ToneMapper_Initialize new_ToneMapper rlog_bundle)"

chapter \<open>Properties\<close>

section \<open>The fallback selector\<close>

text \<open>
  Claim C9. The fallback selector gives every error code the tier of the taxonomy:
  RANGE_PIVOT and RANGE_KNEE select tier 1 (parameter correction), SCHEMA_MISSING,
  DET_MISMATCH, HL_FLICKER, DCI_BOUND and GAMUT_OOG select tier 2 (standard fallback),
  NAN_INF selects tier 3 (hard fallback); and \<open>HandleError\<close> returns and stores that tier.
\<close>

theorem fallback_tiers:
  "DetermineFallbackStrategy RANGE_PIVOT = PARAMETER_CORRECTION \<and>
   DetermineFallbackStrategy RANGE_KNEE = PARAMETER_CORRECTION \<and>
   DetermineFallbackStrategy SCHEMA_MISSING = STANDARD_FALLBACK \<and>
   DetermineFallbackStrategy DET_MISMATCH = STANDARD_FALLBACK \<and>
   DetermineFallbackStrategy HL_FLICKER = STANDARD_FALLBACK \<and>
   DetermineFallbackStrategy DCI_BOUND = STANDARD_FALLBACK \<and>
   DetermineFallbackStrategy GAMUT_OOG = STANDARD_FALLBACK \<and>
   DetermineFallbackStrategy NAN_INF = HARD_FALLBACK \<and>
   fst (HandleError H c fld v guid tc) = DetermineFallbackStrategy c \<and>
   current_strategy (snd (HandleError H c fld v guid tc)) = DetermineFallbackStrategy c"
  by (simp add: HandleError_def Let_def)

section \<open>Clamping a parameter bundle\<close>

lemma fix_then_clamp_ok:
  "lo \<le> mid \<Longrightarrow> mid \<le> hi \<Longrightarrow>
   NumericalProtection_IsValid (fix_then_clamp v mid lo hi) \<and>
   \<not> out_of_range (fix_then_clamp v mid lo hi) lo hi"
  by (cases v)
     (auto simp: fix_then_clamp_def FixInvalid_def NumericalProtection_IsValid_def
                 fclamp_def out_of_range_def)

lemma clamped_bundle_valid: "CphParams_IsValid (ClampToValidRange P)"
  by (simp add: CphParams_IsValid_def ClampToValidRange_def fix_then_clamp_ok)

text \<open>
  Claim C10. For every parameter bundle, also one with NaN, infinite or out-of-range
  fields, the bundle that \<open>ClampToValidRange\<close> produces satisfies \<open>CphParams_IsValid\<close>.
\<close>

theorem ClampToValidRange_IsValid: "CphParams_IsValid (ClampToValidRange P)"
  by (rule clamped_bundle_valid)

theorem ClampToValidRange_IsValid_witness:
  "CphParams_IsValid (ClampToValidRange
     (default_params\<lparr>pivot_pq := NaN, gamma_s := PInf, alpha := NInf, toe := Fin 5\<rparr>)) \<and>
   pivot_pq (ClampToValidRange
     (default_params\<lparr>pivot_pq := NaN, gamma_s := PInf, alpha := NInf, toe := Fin 5\<rparr>)) = Fin 0.175 \<and>
   toe (ClampToValidRange
     (default_params\<lparr>pivot_pq := NaN, gamma_s := PInf, alpha := NInf, toe := Fin 5\<rparr>)) = Fin 0.01"
  using ClampToValidRange_IsValid
    [of "default_params\<lparr>pivot_pq := NaN, gamma_s := PInf, alpha := NInf, toe := Fin 5\<rparr>"]
  by (simp add: ClampToValidRange_def fix_then_clamp_def FixInvalid_def
                NumericalProtection_IsValid_def fclamp_def)

section \<open>Validating and correcting a parameter bundle\<close>

lemma validate_field_params:
  "fst (snd (validate_field get upd lo hi fld s)) =
     upd (\<lambda>_. corrected_value (get (fst (snd s))) lo hi) (fst (snd s))"
  by (cases s)
     (auto simp: validate_field_def ValidateFloatRange_def corrected_value_def out_of_range_def)

lemma corrected_value_ok:
  "lo \<le> hi \<Longrightarrow> NumericalProtection_IsValid (corrected_value v lo hi) \<and>
     \<not> out_of_range (corrected_value v lo hi) lo hi"
  by (cases v)
     (auto simp: corrected_value_def CorrectParameter_def NumericalProtection_IsValid_def
                 fclamp_def out_of_range_def Let_def)

lemma ValidateAndCorrectParams_params:
  "fst (snd (ValidateAndCorrectParams H P)) =
     P \<lparr> pivot_pq := corrected_value (pivot_pq P) 0.05 0.30,
         gamma_s := corrected_value (gamma_s P) 1.0 1.6,
         gamma_h := corrected_value (gamma_h P) 0.8 1.4,
         shoulder_h := corrected_value (shoulder_h P) 0.5 3.0,
         black_lift := corrected_value (black_lift P) 0.0 0.02,
         highlight_detail := corrected_value (highlight_detail P) 0.0 1.0,
         sat_base := corrected_value (sat_base P) 0.0 2.0,
         sat_hi := corrected_value (sat_hi P) 0.0 2.0,
         rlog_a := corrected_value (rlog_a P) 1.0 16.0,
         rlog_b := corrected_value (rlog_b P) 0.8 1.2,
         rlog_c := corrected_value (rlog_c P) 0.5 3.0,
         rlog_t := corrected_value (rlog_t P) 0.4 0.7,
         yknee := corrected_value (yknee P) 0.95 0.99,
         alpha := corrected_value (alpha P) 0.2 1.0,
         toe := corrected_value (toe P) 0.0 0.01 \<rparr>"
  by (simp add: ValidateAndCorrectParams_def validate_field_params)

lemma ValidateAndCorrectParams_valid:
  "CphParams_IsValid (fst (snd (ValidateAndCorrectParams H P)))"
  by (simp add: ValidateAndCorrectParams_params CphParams_IsValid_def corrected_value_ok)

lemma validate_field_flag:
  "fst s \<Longrightarrow> fst (validate_field get upd lo hi fld s)"
  by (cases s) (auto simp: validate_field_def split: prod.splits)

lemma validate_field_emitted:
  "e \<in> set (emitted (snd (snd s))) \<Longrightarrow>
   e \<in> set (emitted (snd (snd (validate_field get upd lo hi fld s))))"
  by (cases s) (auto simp: validate_field_def ValidateFloatRange_def HandleError_def Let_def)

lemma first_step_pivot:
  "pivot_pq P = Fin (- 0.1) \<Longrightarrow>
   validate_field pivot_pq pivot_pq_update 0.05 0.30 ''pivot_pq'' (False, P, H) =
     (True, P\<lparr>pivot_pq := Fin 0.05\<rparr>,
      snd (HandleError H RANGE_PIVOT ''pivot_pq'' (Fin (- 0.1)) [] []))"
  by (simp add: validate_field_def ValidateFloatRange_def NumericalProtection_IsValid_def
                CorrectParameter_def fclamp_def)

text \<open>
  Claim C7, as the code has it. For a parameter bundle whose \<^verbatim>\<open>pivot_pq\<close> is the finite
  out-of-range value -0.1, \<open>ValidateAndCorrectParams\<close> reports a correction, sets
  \<^verbatim>\<open>pivot_pq\<close> to 0.05 (the nearer bound of [0.05, 0.30]; the midpoint 0.175 is used only
  for a value that is not finite), emits a report with code RANGE_PIVOT for the field, and
  the corrected bundle satisfies \<open>CphParams_IsValid\<close>.
\<close>

theorem validate_and_correct_pivot:
  assumes "pivot_pq P = Fin (- 0.1)"
  shows "fst (ValidateAndCorrectParams H P) \<and>
         pivot_pq (fst (snd (ValidateAndCorrectParams H P))) = Fin 0.05 \<and>
         range_pivot_report \<in> set (emitted (snd (snd (ValidateAndCorrectParams H P)))) \<and>
         CphParams_IsValid (fst (snd (ValidateAndCorrectParams H P)))"
proof -
  let ?s1 = "validate_field pivot_pq pivot_pq_update 0.05 0.30 ''pivot_pq'' (False, P, H)"
  have s1: "?s1 = (True, P\<lparr>pivot_pq := Fin 0.05\<rparr>,
                   snd (HandleError H RANGE_PIVOT ''pivot_pq'' (Fin (- 0.1)) [] []))"
    using assms by (rule first_step_pivot)
  have flag: "fst ?s1" using s1 by simp
  have em: "range_pivot_report \<in> set (emitted (snd (snd ?s1)))"
    using s1 by (simp add: HandleError_def range_pivot_report_def Let_def)
  have "fst (ValidateAndCorrectParams H P)"
    unfolding ValidateAndCorrectParams_def by (intro validate_field_flag flag)
  moreover have "range_pivot_report \<in> set (emitted (snd (snd (ValidateAndCorrectParams H P))))"
    unfolding ValidateAndCorrectParams_def by (intro validate_field_emitted em)
  moreover have "pivot_pq (fst (snd (ValidateAndCorrectParams H P))) = Fin 0.05"
    using assms
    by (simp add: ValidateAndCorrectParams_params corrected_value_def CorrectParameter_def
                  fclamp_def NumericalProtection_IsValid_def out_of_range_def)
  ultimately show ?thesis by (simp add: ValidateAndCorrectParams_valid)
qed

theorem validate_and_correct_pivot_witness:
  "pivot_pq (default_params\<lparr>pivot_pq := Fin (- 0.1)\<rparr>) = Fin (- 0.1) \<and>
   fst (ValidateAndCorrectParams new_ErrorHandler (default_params\<lparr>pivot_pq := Fin (- 0.1)\<rparr>)) \<and>
   pivot_pq (fst (snd (ValidateAndCorrectParams new_ErrorHandler
      (default_params\<lparr>pivot_pq := Fin (- 0.1)\<rparr>)))) = Fin 0.05 \<and>
   range_pivot_report \<in> set (emitted (snd (snd (ValidateAndCorrectParams new_ErrorHandler
      (default_params\<lparr>pivot_pq := Fin (- 0.1)\<rparr>))))) \<and>
   CphParams_IsValid (fst (snd (ValidateAndCorrectParams new_ErrorHandler
      (default_params\<lparr>pivot_pq := Fin (- 0.1)\<rparr>))))"
  using validate_and_correct_pivot [of "default_params\<lparr>pivot_pq := Fin (- 0.1)\<rparr>" new_ErrorHandler]
  by simp

text \<open>The claim as the specification states it fails: at the default bundle with
  \<^verbatim>\<open>pivot_pq = -0.1\<close> the corrected value is 0.05, not 0.175.\<close>

theorem validate_and_correct_pivot_counterexample:
  "pivot_pq (fst (snd (ValidateAndCorrectParams new_ErrorHandler
      (default_params\<lparr>pivot_pq := Fin (- 0.1)\<rparr>)))) = Fin 0.05 \<and>
   pivot_pq (fst (snd (ValidateAndCorrectParams new_ErrorHandler
      (default_params\<lparr>pivot_pq := Fin (- 0.1)\<rparr>)))) \<noteq> Fin 0.175"
  by (simp add: ValidateAndCorrectParams_params corrected_value_def CorrectParameter_def
                fclamp_def NumericalProtection_IsValid_def out_of_range_def)

section \<open>Valid bundles\<close>

lemma valid_field_bounds:
  "NumericalProtection_IsValid v \<Longrightarrow> \<not> out_of_range v lo hi \<Longrightarrow>
   v = Fin (rv v) \<and> lo \<le> rv v \<and> rv v \<le> hi"
  by (cases v) (auto simp: NumericalProtection_IsValid_def out_of_range_def)

lemma IsValid_bounds:
  assumes "CphParams_IsValid P"
  shows "0.05 \<le> rv (pivot_pq P) \<and> rv (pivot_pq P) \<le> 0.30"
    and "1.0 \<le> rv (gamma_s P) \<and> rv (gamma_s P) \<le> 1.6"
    and "0.8 \<le> rv (gamma_h P) \<and> rv (gamma_h P) \<le> 1.4"
    and "0.5 \<le> rv (shoulder_h P) \<and> rv (shoulder_h P) \<le> 3.0"
    and "1.0 \<le> rv (rlog_a P) \<and> rv (rlog_a P) \<le> 16.0"
    and "0.8 \<le> rv (rlog_b P) \<and> rv (rlog_b P) \<le> 1.2"
    and "0.5 \<le> rv (rlog_c P) \<and> rv (rlog_c P) \<le> 3.0"
    and "0.4 \<le> rv (rlog_t P) \<and> rv (rlog_t P) \<le> 0.7"
    and "0.95 \<le> rv (yknee P) \<and> rv (yknee P) \<le> 0.99"
    and "0.2 \<le> rv (alpha P) \<and> rv (alpha P) \<le> 1.0"
    and "0.0 \<le> rv (toe P) \<and> rv (toe P) \<le> 0.01"
  using assms unfolding CphParams_IsValid_def
  by (auto split: if_splits dest: valid_field_bounds)

section \<open>The soft knee\<close>

text \<open>The soft knee in closed form.\<close>

lemma ApplySoftKnee_eq:
  assumes "rv (yknee P) < 1"
  shows "ApplySoftKnee P y =
     (if y \<le> rv (yknee P) then y
      else rv (yknee P) + (y - rv (yknee P)) * (1 - rv (yknee P)) /
             ((1 - rv (yknee P)) + rv (alpha P) * (y - rv (yknee P))))"
proof -
  define k where "k = rv (yknee P)"
  define a where "a = rv (alpha P)"
  have k: "k < 1" using assms by (simp add: k_def)
  have "(y - k) / (1 - k) / (1 + a * ((y - k) / (1 - k))) * (1 - k) =
        (y - k) * (1 - k) / ((1 - k) + a * (y - k))"
  proof -
    have "1 + a * ((y - k) / (1 - k)) = ((1 - k) + a * (y - k)) / (1 - k)"
      using k by (simp add: field_simps)
    then show ?thesis using k by simp
  qed
  then show ?thesis
    using k by (simp add: ApplySoftKnee_def Let_def k_def[symmetric] a_def[symmetric])
qed






section \<open>Range of the tone curve\<close>

lemma clampr_range: "lo \<le> hi \<Longrightarrow> lo \<le> clampr v lo hi \<and> clampr v lo hi \<le> hi"
  by (simp add: clampr_def)

lemma ApplyPPR_zero:
  assumes "0 < rv (pivot_pq P)"
  shows "ApplyPPR P 0 = 0"
  using assms by (simp add: ApplyPPR_def PPRShadowSegment_def Let_def)

lemma ApplyRLOG_zero:
  assumes "0.05 < rv (rlog_t P)"
  shows "ApplyRLOG P 0 = 0"
  using assms by (simp add: ApplyRLOG_def RLOGDarkSegment_def Let_def)

text \<open>
  Claim C2. For an initialised mapper, whose bundle is valid, and every \<open>x\<close> in [0,1],
  \<open>ApplyToneMapping\<close> returns a finite value in [0,1], and it maps 0 to exactly 0, the
  soft knee and the toe clamp included.
\<close>

theorem tone_mapping_range:
  assumes "tm_initialized T" "CphParams_IsValid (tm_params T)" "0 \<le> x" "x \<le> 1"
  shows "(\<exists>y. ApplyToneMapping T (Fin x) = Fin y \<and> 0 \<le> y \<and> y \<le> 1) \<and>
         ApplyToneMapping T (Fin 0) = Fin 0"
proof -
  let ?P = "tm_params T"
  have p: "0 < rv (pivot_pq ?P)" and t: "0.05 < rv (rlog_t ?P)"
   and k: "0 < rv (yknee ?P)"
    using IsValid_bounds [OF assms(2)] by auto
  have c0: "(if curve ?P = PPR then ApplyPPR ?P 0 else ApplyRLOG ?P 0) = 0"
    using ApplyPPR_zero [OF p] ApplyRLOG_zero [OF t] by simp
  have "ApplyToneMapping T (Fin 0) = Fin 0"
    using assms(1) k c0
    by (simp add: ApplyToneMapping_def NumericalProtection_IsValid_def Let_def clampr_def
                  ApplySoftKnee_def ApplyToeClamp_def)
  moreover have "\<exists>y. ApplyToneMapping T (Fin x) = Fin y \<and> 0 \<le> y \<and> y \<le> 1"
    using assms(1) clampr_range [of 0 1]
    by (simp add: ApplyToneMapping_def NumericalProtection_IsValid_def Let_def)
  ultimately show ?thesis by simp
qed

lemma default_params_valid: "CphParams_IsValid default_params"
  by (simp add: CphParams_IsValid_def default_params_def NumericalProtection_IsValid_def
                out_of_range_def)

lemma default_mapper_simps:
  "tm_initialized default_mapper" "tm_params default_mapper = default_params"
  by (simp_all add: default_mapper_def ToneMapper_Initialize_def default_params_valid)

theorem tone_mapping_range_witness:
  "tm_initialized default_mapper \<and> CphParams_IsValid (tm_params default_mapper) \<and>
   (0::real) \<le> 1/2 \<and> (1/2::real) \<le> 1 \<and>
   (\<exists>y. ApplyToneMapping default_mapper (Fin (1/2)) = Fin y \<and> 0 \<le> y \<and> y \<le> 1) \<and>
   ApplyToneMapping default_mapper (Fin 0) = Fin 0"
  using tone_mapping_range [of default_mapper "1/2"]
  by (simp add: default_mapper_simps default_params_valid)

section \<open>The two-stage gamut processor\<close>

lemma fclamp_in_box:
  "isfinite v \<Longrightarrow> lo \<le> hi \<Longrightarrow> in_box (fclamp v (Fin lo) (Fin hi)) lo hi"
  by (cases v) (auto simp: fclamp_def in_box_def)

lemma ClampToGamut_IsInGamut:
  "IsFiniteRGB v \<Longrightarrow> IsInGamut (ClampToGamut v cs) cs"
  by (cases v; cases cs) (simp_all add: NumericalUtils_IsFinite_def fclamp_in_box)

lemma black_IsInGamut: "IsInGamut (Fin 0, Fin 0, Fin 0) cs"
  by (cases cs) (simp_all add: in_box_def)

lemma in_box_real: "in_box v lo hi \<longleftrightarrow> (\<exists>r. v = Fin r \<and> lo \<le> r \<and> r \<le> hi)"
  by (cases v) (auto simp: in_box_def)

lemma IsInGamut_box:
  "IsInGamut (r, g, b) cs \<longleftrightarrow>
     in_box r (box_lo cs) (box_hi cs) \<and> in_box g (box_lo cs) (box_hi cs) \<and>
     in_box b (box_lo cs) (box_hi cs)"
  by (cases cs) (simp_all add: box_lo_def box_hi_def)

text \<open>
  Claim C4. For every finite RGB pixel, every target colour space and either setting of
  the DCI mode, \<open>ApplyGamutProcessing\<close> returns a pixel inside the target gamut box:
  [0,1] per channel for BT2020_PQ, P3_D65 and REC709, [-0.5,2] per channel for ACEScg,
  whether or not the ten rounds of the perceptual clamp ended in gamut.
\<close>

theorem gamut_processing_in_gamut:
  assumes "IsFiniteRGB v"
  shows "IsInGamut (snd (ApplyGamutProcessing v cs dci)) cs \<and>
         (\<exists>r g b. snd (ApplyGamutProcessing v cs dci) = (Fin r, Fin g, Fin b) \<and>
            box_lo cs \<le> r \<and> r \<le> box_hi cs \<and>
            box_lo cs \<le> g \<and> g \<le> box_hi cs \<and>
            box_lo cs \<le> b \<and> b \<le> box_hi cs)"
proof -
  have 1: "IsInGamut (snd (ApplyGamutProcessing v cs dci)) cs"
    using assms
    by (simp add: ApplyGamutProcessing_def Let_def ClampToGamut_IsInGamut black_IsInGamut)
  obtain r g b where out: "snd (ApplyGamutProcessing v cs dci) = (r, g, b)"
    by (cases "snd (ApplyGamutProcessing v cs dci)") auto
  from 1 show ?thesis
    unfolding out IsInGamut_box in_box_real by auto
qed

theorem gamut_processing_in_gamut_witness:
  "IsFiniteRGB (Fin 1.5, Fin 0.9, Fin (- 0.1)) \<and>
   IsInGamut (snd (ApplyGamutProcessing (Fin 1.5, Fin 0.9, Fin (- 0.1)) P3_D65 True)) P3_D65"
  using gamut_processing_in_gamut [of "(Fin 1.5, Fin 0.9, Fin (- 0.1))" P3_D65 True]
  by (simp add: NumericalUtils_IsFinite_def)

section \<open>Samples of tabulated images\<close>

lemma isfinite_iff: "isfinite v \<longleftrightarrow> (\<exists>r. v = Fin r)"
  by (cases v) auto

lemma flat_index:
  fixes X Y W C c :: nat
  assumes "X < W" "c < C"
  shows "((Y * W + X) * C + c) div C = Y * W + X"
    and "((Y * W + X) * C + c) mod C = c"
    and "(Y * W + X) mod W = X"
    and "(Y * W + X) div W = Y"
  using assms by simp_all

lemma flat_index_less:
  fixes X Y W H C c :: nat
  assumes "X < W" "Y < H" "c < C"
  shows "(Y * W + X) * C + c < W * H * C"
proof -
  have "Y * W + X < W * H"
  proof -
    have "Y * W + X < Y * W + W" using assms by simp
    also have "\<dots> = (Suc Y) * W" by simp
    also have "\<dots> \<le> H * W" using assms by (intro mult_le_mono1) simp
    finally show ?thesis by (simp add: mult.commute)
  qed
  then have "Suc (Y * W + X) \<le> W * H" by simp
  then have "Suc (Y * W + X) * C \<le> W * H * C" by (rule mult_le_mono1)
  moreover have "(Y * W + X) * C + c < Suc (Y * W + X) * C" using assms by simp
  ultimately show ?thesis by linarith
qed

lemma offset_nat:
  assumes "0 \<le> x" "0 \<le> y" "0 \<le> w" "0 \<le> ch"
  shows "nat ((y * w + x) * ch) = (nat y * nat w + nat x) * nat ch"
  using assms by (simp add: nat_mult_distrib nat_add_distrib)

lemma sample_tabulate:
  assumes "0 \<le> x" "x < w" "0 \<le> y" "y < h" "c < nat ch"
  shows "sample (tabulate_image w h ch cs f) x y c = f x y c"
proof -
  have pos: "0 < w" "0 < h" "0 < ch" using assms by auto
  define X Y W H C where "X = nat x" and "Y = nat y" and "W = nat w" and "H = nat h"
    and "C = nat ch"
  have lt: "X < W" "Y < H" "c < C" using assms by (auto simp: X_def Y_def W_def H_def C_def)
  have off: "nat ((y * w + x) * ch) = (Y * W + X) * C"
    unfolding X_def Y_def W_def C_def using assms pos by (intro offset_nat) auto
  have len: "nat (w * h * ch) = W * H * C"
    unfolding W_def H_def C_def using pos by (simp add: nat_mult_distrib)
  have i: "(Y * W + X) * C + c < W * H * C" using lt by (rule flat_index_less)
  have xy: "int X = x" "int Y = y" using assms by (auto simp: X_def Y_def)
  show ?thesis
    using pos i flat_index [OF lt(1) lt(3), of Y] xy
    by (simp add: sample_def tabulate_image_def off len W_def[symmetric] C_def[symmetric])
qed

lemma sample_finite:
  assumes "Image_IsValid img" "0 \<le> x" "x < width img" "0 \<le> y" "y < height img"
      and "c < nat (channels img)"
  shows "isfinite (sample img x y c)"
proof -
  have pos: "0 < width img" "0 < height img" "0 < channels img"
   and len: "length (data img) = nat (width img * height img * channels img)"
   and fin: "list_all isfinite (data img)"
    using assms(1) by (auto simp: Image_IsValid_def split: if_splits)
  define X Y W H C where "X = nat x" and "Y = nat y" and "W = nat (width img)"
    and "H = nat (height img)" and "C = nat (channels img)"
  have lt: "X < W" "Y < H" "c < C" using assms by (auto simp: X_def Y_def W_def H_def C_def)
  have off: "nat ((y * width img + x) * channels img) = (Y * W + X) * C"
    unfolding X_def Y_def W_def C_def using assms pos by (intro offset_nat) auto
  have len': "length (data img) = W * H * C"
    unfolding len W_def H_def C_def using pos by (simp add: nat_mult_distrib)
  have "(Y * W + X) * C + c < length (data img)"
    unfolding len' using lt by (rule flat_index_less)
  then show ?thesis
    using fin by (simp add: sample_def off list_all_length)
qed

section \<open>The highlight-detail USM\<close>

lemma upto_0_4: "[0 .. 4 :: int] = [0, 1, 2, 3, 4]"
  by (simp add: upto_rec1 [of 0] upto_rec1 [of 1] upto_rec1 [of 2] upto_rec1 [of 3]
                upto_rec1 [of 4])

lemma kernel_finite:
  "length (ComputeGaussianKernel 2 (Fin 1)) = 5 \<and>
   list_all isfinite (ComputeGaussianKernel 2 (Fin 1))"
proof -
  have pos: "exp (- (4 / 2)) + exp (- (1 / 2)) + 1 + exp (- (1 / 2)) + exp (- (4 / 2)) \<noteq> (0::real)"
    (is "?s \<noteq> 0")
  proof -
    have "0 < ?s" by (intro add_pos_pos exp_gt_zero zero_less_one)
    then show ?thesis by simp
  qed
  show ?thesis
    using pos by (simp add: ComputeGaussianKernel_def Let_def upto_0_4)
qed

lemma fadd_finite: "isfinite a \<Longrightarrow> isfinite b \<Longrightarrow> isfinite (fadd a b)"
  by (cases a; cases b) simp_all

lemma fmul_finite: "isfinite a \<Longrightarrow> isfinite b \<Longrightarrow> isfinite (fmul a b)"
  by (cases a; cases b) simp_all

lemma foldl_fadd_finite:
  assumes "isfinite a" "\<forall>k \<in> set ks. isfinite (g k)"
  shows "isfinite (foldl (\<lambda>total k. fadd total (g k)) a ks)"
  using assms
proof (induction ks arbitrary: a)
  case Nil
  then show ?case by simp
next
  case (Cons k ks)
  have "isfinite (fadd a (g k))"
    using Cons.prems by (simp add: fadd_finite)
  then show ?case using Cons by simp
qed

lemma convolve_finite:
  assumes "list_all isfinite ws" "\<forall>k < length ws. isfinite (src (int k))"
  shows "isfinite (convolve ws src)"
  unfolding convolve_def
proof (rule foldl_fadd_finite)
  show "isfinite (Fin 0)" by simp
  show "\<forall>k\<in>set [0..<length ws]. isfinite (fmul (src (int k)) (ws ! k))"
    using assms by (auto simp: list_all_length intro: fmul_finite)
qed

lemma clampi_range: "0 < n \<Longrightarrow> 0 \<le> clampi v 0 (n - 1) \<and> clampi v 0 (n - 1) < n"
  by (simp add: clampi_def)

lemma tabulate_fields:
  "width (tabulate_image w h c cs f) = w" "height (tabulate_image w h c cs f) = h"
  "channels (tabulate_image w h c cs f) = c" "color_space (tabulate_image w h c cs f) = cs"
  by (simp_all add: tabulate_image_def)

lemma blur_sample_finite:
  assumes "Image_IsValid input" "0 \<le> x" "x < width input" "0 \<le> y" "y < height input"
      and "c < nat (channels input)"
  shows "isfinite (sample (ApplyGaussianBlur input 2 (Fin 1)) x y c)"
proof -
  let ?ws = "ComputeGaussianKernel 2 (Fin 1)"
  let ?temp = "tabulate_image (width input) (height input) (channels input) BT2020_PQ
                   (\<lambda>x y c. convolve ?ws
                      (\<lambda>k. sample input (clampi (x + k - 2) 0 (width input - 1)) y c))"
  have ws: "list_all isfinite ?ws" using kernel_finite by simp
  have pos: "0 < width input" "0 < height input"
    using assms(1) by (auto simp: Image_IsValid_def split: if_splits)
  have temp: "isfinite (sample ?temp x' y' c)"
    if "0 \<le> x'" "x' < width input" "0 \<le> y'" "y' < height input" for x' y'
  proof -
    have "isfinite (convolve ?ws
            (\<lambda>k. sample input (clampi (x' + k - 2) 0 (width input - 1)) y' c))"
      using ws
    proof (rule convolve_finite)
      show "\<forall>k<length ?ws. isfinite (sample input (clampi (x' + int k - 2) 0 (width input - 1)) y' c)"
        using sample_finite [OF assms(1) _ _ that(3,4) assms(6)] clampi_range [OF pos(1)]
        by blast
    qed
    then show ?thesis using that assms(6) by (simp add: sample_tabulate)
  qed
  have "isfinite (convolve ?ws
          (\<lambda>k. sample ?temp x (clampi (y + k - 2) 0 (height input - 1)) c))"
    using ws
  proof (rule convolve_finite)
    show "\<forall>k<length ?ws. isfinite (sample ?temp x (clampi (y + int k - 2) 0 (height input - 1)) c)"
      using temp [OF assms(2,3)] clampi_range [OF pos(2)] by blast
  qed
  then show ?thesis
    using assms by (simp add: ApplyGaussianBlur_def Let_def sample_tabulate)
qed

lemma detail_sample_finite:
  assumes "Image_IsValid input" "0 \<le> x" "x < width input" "0 \<le> y" "y < height input"
      and "c < nat (channels input)" "isfinite amount"
  shows "isfinite (sample (ComputeUnsharpMask input (ApplyGaussianBlur input 2 (Fin 1))
                              amount threshold) x y c)"
proof -
  obtain a where a: "sample input x y c = Fin a"
    using sample_finite [OF assms(1-6)] by (auto simp: isfinite_iff)
  obtain b where b: "sample (ApplyGaussianBlur input 2 (Fin 1)) x y c = Fin b"
    using blur_sample_finite [OF assms(1-6)] by (auto simp: isfinite_iff)
  obtain m where m: "amount = Fin m" using assms(7) by (auto simp: isfinite_iff)
  show ?thesis
    using assms(2-6) by (simp add: ComputeUnsharpMask_def sample_tabulate a b m fsub_def Let_def)
qed

lemma Initialize_highlight:
  "HighlightDetailProcessor_Initialize D0 params =
     (True, D0 \<lparr> hd_params := ClampToValidRange params, hd_initialized := True \<rparr>)"
  by (simp add: HighlightDetailProcessor_Initialize_def Let_def clamped_bundle_valid)

lemma fle_not_flt: "fle a b \<Longrightarrow> \<not> flt b a"
  by (cases a; cases b) auto

lemma mask_value_zero: "fle (MaxRGB px) pivot \<Longrightarrow> mask_value pivot px = Fin 0"
  by (simp add: mask_value_def Let_def fle_not_flt)

lemma sample_in_data:
  assumes "Image_IsValid img" "0 \<le> x" "x < width img" "0 \<le> y" "y < height img"
      and "c < nat (channels img)"
  shows "sample img x y c \<in> set (data img)"
proof -
  have pos: "0 < width img" "0 < height img" "0 < channels img"
   and len: "length (data img) = nat (width img * height img * channels img)"
    using assms(1) by (auto simp: Image_IsValid_def split: if_splits)
  define X Y W H C where "X = nat x" and "Y = nat y" and "W = nat (width img)"
    and "H = nat (height img)" and "C = nat (channels img)"
  have lt: "X < W" "Y < H" "c < C" using assms by (auto simp: X_def Y_def W_def H_def C_def)
  have off: "nat ((y * width img + x) * channels img) = (Y * W + X) * C"
    unfolding X_def Y_def W_def C_def using assms pos by (intro offset_nat) auto
  have len': "length (data img) = W * H * C"
    unfolding len W_def H_def C_def using pos by (simp add: nat_mult_distrib)
  have "(Y * W + X) * C + c < length (data img)"
    unfolding len' using lt by (rule flat_index_less)
  then show ?thesis by (simp add: sample_def off)
qed

lemma usm_sample_below_pivot:
  assumes valid: "Image_IsValid input"
      and unit: "\<forall>v \<in> set (data input). in_box v 0 1"
      and amount: "isfinite intensity"
      and xy: "0 \<le> x" "x < width input" "0 \<le> y" "y < height input" "c < nat (channels input)"
      and lum: "fle (MaxRGB (rgb_at input x y)) pivot"
  shows "sample (ApplyUSM input pivot intensity) x y c = sample input x y c"
proof -
  have "in_box (sample input x y c) 0 1"
    using unit sample_in_data [OF valid xy] by blast
  then obtain v where v: "sample input x y c = Fin v" "0 \<le> v" "v \<le> 1"
    by (cases "sample input x y c") (auto simp: in_box_def)
  obtain d where d: "sample (ComputeUnsharpMask input (ApplyGaussianBlur input 2 (Fin 1))
                              intensity (Fin 0.03)) x y c = Fin d"
    using detail_sample_finite [OF valid xy amount] by (auto simp: isfinite_iff)
  have m: "sample (ComputeHighlightMask input pivot) x y 0 = Fin 0"
    using xy lum by (simp add: ComputeHighlightMask_def sample_tabulate mask_value_zero)
  show ?thesis
    using xy v d m by (simp add: ApplyUSM_def Let_def sample_tabulate fclamp_def)
qed

text \<open>
  Claim C5. Let the highlight-detail processor be initialised and the frame valid, with
  at least three channels and every sample in [0,1]. Then \<open>ProcessFrame\<close> succeeds with a
  frame of the same dimensions in which every sample of every pixel whose MaxRGB
  luminance is at or below the pivot is exactly the input sample; and when
  \<^verbatim>\<open>highlight_detail\<close> is 0 the whole frame is returned unchanged.
\<close>

theorem highlight_detail_identity:
  assumes init: "D = snd (HighlightDetailProcessor_Initialize D0 params)"
      and valid: "Image_IsValid input"
      and three: "3 \<le> channels input"
      and unit: "\<forall>v \<in> set (data input). in_box v 0 1"
  shows "\<exists>out. HighlightDetailProcessor_ProcessFrame D input pivot = Some out \<and>
           width out = width input \<and> height out = height input \<and>
           channels out = channels input \<and>
           (\<forall>x y c. 0 \<le> x \<and> x < width input \<and> 0 \<le> y \<and> y < height input \<and>
                    c < nat (channels input) \<and> fle (MaxRGB (rgb_at input x y)) pivot
                    \<longrightarrow> sample out x y c = sample input x y c) \<and>
           (highlight_detail params = Fin 0 \<longrightarrow> out = input)"
proof -
  have D: "hd_initialized D" "hd_params D = ClampToValidRange params"
    by (simp_all add: init Initialize_highlight)
  let ?hd = "highlight_detail (hd_params D)"
  have fin: "isfinite ?hd"
    using clamped_bundle_valid [of params] D(2)
    by (auto simp: CphParams_IsValid_def NumericalProtection_IsValid_def split: if_splits)
  have zero: "?hd = Fin 0" if "highlight_detail params = Fin 0"
    using that D(2)
    by (simp add: ClampToValidRange_def fix_then_clamp_def FixInvalid_def
                  NumericalProtection_IsValid_def fclamp_def)
  show ?thesis
  proof (cases "fle ?hd (Fin 0)")
    case True
    then have "HighlightDetailProcessor_ProcessFrame D input pivot = Some input"
      using D valid by (simp add: HighlightDetailProcessor_ProcessFrame_def)
    then show ?thesis by simp
  next
    case False
    then have out: "HighlightDetailProcessor_ProcessFrame D input pivot =
                      Some (ApplyUSM input pivot ?hd)"
      using D valid by (simp add: HighlightDetailProcessor_ProcessFrame_def)
    have nz: "highlight_detail params \<noteq> Fin 0" using zero False by auto
    show ?thesis
      unfolding out using nz usm_sample_below_pivot [OF valid unit fin]
      by (simp add: ApplyUSM_def Let_def tabulate_fields)
  qed
qed

theorem highlight_detail_identity_witness:
  "Image_IsValid dark_pixel_frame \<and>
   HighlightDetailProcessor_ProcessFrame
     (snd (HighlightDetailProcessor_Initialize new_HighlightDetailProcessor default_params))
     dark_pixel_frame (Fin 0.18) \<noteq> None \<and>
   sample (the (HighlightDetailProcessor_ProcessFrame
     (snd (HighlightDetailProcessor_Initialize new_HighlightDetailProcessor default_params))
     dark_pixel_frame (Fin 0.18))) 0 0 0 = Fin 0.1"
proof -
  have v: "Image_IsValid dark_pixel_frame"
    by (simp add: Image_IsValid_def dark_pixel_frame_def)
  have t: "3 \<le> channels dark_pixel_frame" by (simp add: dark_pixel_frame_def)
  have u: "\<forall>v \<in> set (data dark_pixel_frame). in_box v 0 1"
    by (simp add: dark_pixel_frame_def in_box_def)
  have s: "sample dark_pixel_frame 0 0 0 = Fin 0.1"
    by (simp add: sample_def dark_pixel_frame_def)
  have l: "fle (MaxRGB (rgb_at dark_pixel_frame 0 0)) (Fin 0.18)"
    by (simp add: rgb_at_def sample_def dark_pixel_frame_def fmax_def)
  have r: "(0::int) \<le> 0 \<and> 0 < width dark_pixel_frame \<and> (0::int) \<le> 0 \<and>
           0 < height dark_pixel_frame \<and> 0 < nat (channels dark_pixel_frame)"
    by (simp add: dark_pixel_frame_def)
  from highlight_detail_identity [OF refl v t u, of new_HighlightDetailProcessor default_params "Fin 0.18"]
  show ?thesis using v s l r by auto
qed

section \<open>Saturation under the DCI compliance mode\<close>

text \<open>
  Claim C6 asks for a trim of \<^verbatim>\<open>sat_hi\<close> by the factor 0.925 in the saturation stage
  when the DCI compliance mode is on. The code has no such trim: the saturation step
  of \<open>ApplySaturationProcessing\<close> hands the bundle's \<^verbatim>\<open>sat_hi\<close> to \<open>ApplySaturation\<close>
  unchanged, and its result is the same with the mode on and off, for every pixel.
\<close>

theorem dci_mode_leaves_sat_hi:
  "saturation_step (P\<lparr>dci_compliance := True\<rparr>) pixel =
     saturation_step (P\<lparr>dci_compliance := False\<rparr>) pixel \<and>
   saturation_step (P\<lparr>dci_compliance := True\<rparr>) pixel =
     ApplySaturation pixel (sat_base P) (sat_hi P) (pivot_pq P)
       (fclamp (MaxRGB pixel) (Fin 0) (Fin 1))"
  by (simp add: saturation_step_def Let_def)

theorem dci_mode_leaves_sat_hi_witness:
  "saturation_step (default_params\<lparr>dci_compliance := True\<rparr>) (Fin 0.8, Fin 0.4, Fin 0.2) =
     ApplySaturation (Fin 0.8, Fin 0.4, Fin 0.2) (Fin 1.0) (Fin 0.95) (Fin 0.18) (Fin 0.8)"
proof -
  have "saturation_step (default_params\<lparr>dci_compliance := True\<rparr>) (Fin 0.8, Fin 0.4, Fin 0.2) =
     ApplySaturation (Fin 0.8, Fin 0.4, Fin 0.2) (sat_base default_params)
       (sat_hi default_params) (pivot_pq default_params)
       (fclamp (MaxRGB (Fin 0.8, Fin 0.4, Fin 0.2)) (Fin 0) (Fin 1))"
    using dci_mode_leaves_sat_hi [of default_params "(Fin 0.8, Fin 0.4, Fin 0.2)"]
    by (rule conjunct2)
  also have "sat_base default_params = Fin 1.0" by (simp add: default_params_def)
  also have "sat_hi default_params = Fin 0.95" by (simp add: default_params_def)
  also have "pivot_pq default_params = Fin 0.18" by (simp add: default_params_def)
  also have "fclamp (MaxRGB (Fin 0.8, Fin 0.4, Fin 0.2)) (Fin 0) (Fin 1) = Fin 0.8"
    by (simp add: fmax_def fclamp_def)
  finally show ?thesis .
qed

section \<open>A frame with a NaN sample\<close>

lemma LogError_history:
  "error_history (LogError S c fld v) =
     error_history S @ [(new_ErrorReport c)\<lparr>field_name := fld, invalid_value := v\<rparr>]"
  by (simp add: LogError_def)

lemma UpdateStatistics_history:
  "error_history (UpdateStatistics S img) = error_history S"
  by (simp add: UpdateStatistics_def Let_def)

lemma report_code: "code ((new_ErrorReport c)\<lparr>field_name := fld, invalid_value := v\<rparr>) = c"
  by (simp add: new_ErrorReport_def)

lemma ValidateCurveProperties_history:
  "\<exists>es. error_history (ValidateCurveProperties S) = error_history S @ es \<and>
        NAN_INF \<notin> code ` set es"
  by (simp add: ValidateCurveProperties_def Let_def LogError_history report_code)

lemma ProcessFrameInternal_history:
  "fst (ProcessFrameInternal S input) \<noteq> None \<and>
   (\<exists>es. error_history (snd (ProcessFrameInternal S input)) = error_history S @ es \<and>
         NAN_INF \<notin> code ` set es)"
proof -
  define hl where "hl =
     (if flt (Fin 0) (highlight_detail (current_params S))
      then (case HighlightDetailProcessor_ProcessFrame (highlight_processor S)
                   (ApplyToneMappingToImage S (ToWorkingDomain input))
                   (pivot_pq (current_params S)) of
              None \<Rightarrow> (ApplyToneMappingToImage S (ToWorkingDomain input),
                       LogError S HL_FLICKER [] (Fin 0))
            | Some detail_enhanced \<Rightarrow> (detail_enhanced, S))
      else (ApplyToneMappingToImage S (ToWorkingDomain input), S))"
  obtain w2 S1 where hl2: "hl = (w2, S1)" by (cases hl)
  have h1: "\<exists>es. error_history S1 = error_history S @ es \<and> NAN_INF \<notin> code ` set es"
    using hl2 unfolding hl_def
    by (auto simp: LogError_history report_code split: if_splits option.splits)
  define S2 where "S2 = UpdateStatistics S1
      (FromWorkingDomain (ApplySaturationProcessing S1 w2) (color_space input))"
  have h2: "error_history S2 = error_history S1" by (simp add: S2_def UpdateStatistics_history)
  define S3 where "S3 = (if frame_count (current_stats S2) = 1 then ValidateCurveProperties S2 else S2)"
  have h3: "\<exists>es. error_history S3 = error_history S2 @ es \<and> NAN_INF \<notin> code ` set es"
    using ValidateCurveProperties_history [of S2] by (auto simp: S3_def)
  have res: "ProcessFrameInternal S input =
       (Some (FromWorkingDomain (ApplySaturationProcessing S1 w2) (color_space input)), S3)"
    using hl2 unfolding ProcessFrameInternal_def S3_def S2_def hl_def [symmetric] Let_def
    by simp
  from h1 obtain es1 where e1: "error_history S1 = error_history S @ es1" "NAN_INF \<notin> code ` set es1"
    by blast
  from h3 obtain es3 where e3: "error_history S3 = error_history S2 @ es3" "NAN_INF \<notin> code ` set es3"
    by blast
  have "error_history S3 = error_history S @ (es1 @ es3)" using e1 e3 h2 by simp
  moreover have "NAN_INF \<notin> code ` set (es1 @ es3)" using e1 e3 by auto
  ultimately show ?thesis unfolding res by (metis fst_conv snd_conv option.distinct(1))
qed

lemma sample_index_less:
  assumes "0 \<le> x" "x < width img" "0 \<le> y" "y < height img" "c < nat (channels img)"
      and len: "length (data img) = nat (width img * height img * channels img)"
  shows "nat ((y * width img + x) * channels img) + c < length (data img)"
proof -
  have pos: "0 < width img" "0 < height img" "0 < channels img" using assms by auto
  define X Y W H C where "X = nat x" and "Y = nat y" and "W = nat (width img)"
    and "H = nat (height img)" and "C = nat (channels img)"
  have lt: "X < W" "Y < H" "c < C" using assms by (auto simp: X_def Y_def W_def H_def C_def)
  have off: "nat ((y * width img + x) * channels img) = (Y * W + X) * C"
    unfolding X_def Y_def W_def C_def using assms pos by (intro offset_nat) auto
  have len': "length (data img) = W * H * C"
    unfolding len W_def H_def C_def using pos by (simp add: nat_mult_distrib)
  show ?thesis unfolding len' off using lt by (rule flat_index_less)
qed

lemma nan_sample_invalid:
  assumes "0 \<le> x" "x < width img" "0 \<le> y" "y < height img" "c < nat (channels img)"
      and nan: "sample img x y c = NaN"
  shows "\<not> Image_IsValid img"
proof
  assume v: "Image_IsValid img"
  then have len: "length (data img) = nat (width img * height img * channels img)"
    and fin: "list_all isfinite (data img)"
    by (auto simp: Image_IsValid_def split: if_splits)
  have "nat ((y * width img + x) * channels img) + c < length (data img)"
    using assms(1-5) len by (rule sample_index_less)
  then have "isfinite (sample img x y c)"
    using fin by (simp add: sample_def list_all_length)
  then show False using nan by simp
qed

lemma ToWorkingDomain_nan_pixel:
  assumes "0 \<le> x" "x < width input" "0 \<le> y" "y < height input" "3 \<le> channels input"
      and nan: "sample input x y 0 = NaN"
  shows "rgb_at (ToWorkingDomain input) x y = (Fin 0, Fin 0, Fin 0)"
proof -
  have px: "ToWorkingDomain_pixel (color_space input) (rgb_at input x y) = (Fin 0, Fin 0, Fin 0)"
    using nan by (simp add: ToWorkingDomain_pixel_def rgb_at_def NumericalUtils_IsFinite_def)
  have s: "sample (ToWorkingDomain input) x y k = Fin 0" if "k < 3" for k
  proof -
    have "k < nat (channels input)" using that assms(5) by simp
    then show ?thesis
      using assms(1-4) that by (simp add: ToWorkingDomain_def sample_tabulate px)
  qed
  show ?thesis by (simp add: rgb_at_def [of "ToWorkingDomain input"] s)
qed

text \<open>
  Claim C8, as the code has it. For an input frame with a pixel whose red sample is NaN,
  the working-domain converter replaces that pixel by (0,0,0), and the stages behind the
  converter (\<open>ProcessFrameInternal\<close>) complete with an output frame and log no NAN_INF;
  the public entry \<open>ProcessFrame\<close> of an initialised processor, however, rejects such a
  frame before the converter is reached: it writes no output and logs NAN_INF.
\<close>

theorem nan_pixel_frame_handling:
  assumes "0 \<le> x" "x < width input" "0 \<le> y" "y < height input" "3 \<le> channels input"
      and nan: "sample input x y 0 = NaN"
  shows "rgb_at (ToWorkingDomain input) x y = (Fin 0, Fin 0, Fin 0) \<and>
         fst (ProcessFrameInternal S input) \<noteq> None \<and>
         (\<exists>es. error_history (snd (ProcessFrameInternal S input)) = error_history S @ es \<and>
               NAN_INF \<notin> code ` set es) \<and>
         (initialized S \<longrightarrow> ProcessFrame S input = (None, LogError S NAN_INF [] (Fin 0)))"
proof -
  have c0: "0 < nat (channels input)" using assms(5) by simp
  have inv: "\<not> Image_IsValid input"
    using assms(1-4) c0 nan by (rule nan_sample_invalid)
  show ?thesis
    using ToWorkingDomain_nan_pixel [OF assms] ProcessFrameInternal_history [of S input] inv
    by (simp add: ProcessFrame_def)
qed

lemma ValidateCphParams_default: "ValidateCphParams default_params = (True, [])"
  by (simp add: ValidateCphParams_def ValidateCommonParams_def ValidatePPRParams_def
                ValidateRange_def IsInRange_def default_params_def Let_def)

lemma default_processor_simps:
  "initialized default_processor" "error_history default_processor = []"
  by (simp_all add: default_processor_def CphProcessor_Initialize_def ValidateCphParams_default
        ToneMapper_Initialize_def HighlightDetailProcessor_Initialize_def Let_def
        clamped_bundle_valid new_CphProcessor_def)

theorem nan_pixel_frame_handling_witness:
  "sample nan_pixel_frame 0 0 0 = NaN \<and>
   rgb_at (ToWorkingDomain nan_pixel_frame) 0 0 = (Fin 0, Fin 0, Fin 0) \<and>
   fst (ProcessFrameInternal default_processor nan_pixel_frame) \<noteq> None \<and>
   ProcessFrame default_processor nan_pixel_frame =
     (None, LogError default_processor NAN_INF [] (Fin 0))"
proof -
  have n: "sample nan_pixel_frame 0 0 0 = NaN"
    by (simp add: sample_def nan_pixel_frame_def)
  have r: "(0::int) \<le> 0" "0 < width nan_pixel_frame" "0 < height nan_pixel_frame"
          "3 \<le> channels nan_pixel_frame"
    by (simp_all add: nan_pixel_frame_def)
  from nan_pixel_frame_handling [OF r(1) r(2) r(1) r(3) r(4) n, of default_processor]
  show ?thesis using n by (simp add: default_processor_simps)
qed

text \<open>The claim as the specification states it fails: the default processor does not
  complete the frame of one pixel with a NaN red sample; it returns no output and its
  error history is the single code NAN_INF.\<close>

theorem nan_frame_rejected_counterexample:
  "fst (ProcessFrame default_processor nan_pixel_frame) = None \<and>
   map code (error_history (snd (ProcessFrame default_processor nan_pixel_frame))) = [NAN_INF]"
  by (simp add: ProcessFrame_def default_processor_simps Image_IsValid_def nan_pixel_frame_def
                LogError_history report_code)

section \<open>Monotonicity of the tone curve on exact reals\<close>

subsection \<open>Clamp, smooth step, mix and the PPR segments\<close>

lemma clampr_mono: "a \<le> b \<Longrightarrow> lo \<le> hi \<Longrightarrow> clampr a lo hi \<le> clampr b lo hi"
  by (simp add: clampr_def)

text \<open>The cubic of the smooth step is non-decreasing on [0,1].\<close>

lemma cubic_mono:
  fixes s t :: real
  assumes "0 \<le> s" "s \<le> t" "t \<le> 1"
  shows "s * s * (3 - 2 * s) \<le> t * t * (3 - 2 * t)"
proof -
  have "t * t * (3 - 2 * t) - s * s * (3 - 2 * s) =
        (t - s) * (t * (3 - 2 * t - s) + s * (3 - 2 * s - t))"
    by (simp add: algebra_simps)
  moreover have "0 \<le> (t - s) * (t * (3 - 2 * t - s) + s * (3 - 2 * s - t))"
    using assms by (intro mult_nonneg_nonneg add_nonneg_nonneg) auto
  ultimately show ?thesis by linarith
qed

lemma cubic_range:
  fixes t :: real
  assumes "0 \<le> t" "t \<le> 1"
  shows "0 \<le> t * t * (3 - 2 * t) \<and> t * t * (3 - 2 * t) \<le> 1"
  using cubic_mono [of 0 t] cubic_mono [of t 1] assms by simp

lemma SmoothStep_range: "0 \<le> SmoothStep e0 e1 x \<and> SmoothStep e0 e1 x \<le> 1"
  using cubic_range [of "clampr ((x - e0) / (e1 - e0)) 0 1"] clampr_range [of 0 1]
  by (simp add: SmoothStep_def Let_def)

lemma SmoothStep_mono:
  assumes "x \<le> y"
  shows "SmoothStep e0 e1 x \<le> SmoothStep e0 e1 y"
proof (cases "e1 \<le> e0")
  case True
  then show ?thesis by (simp add: SmoothStep_def)
next
  case False
  then have "(x - e0) / (e1 - e0) \<le> (y - e0) / (e1 - e0)"
    using assms by (simp add: divide_right_mono)
  then have "clampr ((x - e0) / (e1 - e0)) 0 1 \<le> clampr ((y - e0) / (e1 - e0)) 0 1"
    by (rule clampr_mono) simp
  then show ?thesis
    using False clampr_range [of 0 1 "(x - e0) / (e1 - e0)"]
          clampr_range [of 0 1 "(y - e0) / (e1 - e0)"]
    by (simp add: SmoothStep_def Let_def cubic_mono)
qed

lemma SmoothStep_low:
  assumes "e0 < e1" "x \<le> e0"
  shows "SmoothStep e0 e1 x = 0"
proof -
  have "(x - e0) / (e1 - e0) \<le> 0"
    using assms by (simp add: divide_nonpos_pos)
  then have "clampr ((x - e0) / (e1 - e0)) 0 1 = 0" by (simp add: clampr_def)
  then show ?thesis using assms by (simp add: SmoothStep_def Let_def)
qed

lemma SmoothStep_high:
  assumes "e0 < e1" "e1 \<le> x"
  shows "SmoothStep e0 e1 x = 1"
proof -
  have "1 \<le> (x - e0) / (e1 - e0)"
    using assms by (simp add: pos_le_divide_eq)
  then have "clampr ((x - e0) / (e1 - e0)) 0 1 = 1" by (simp add: clampr_def)
  then show ?thesis using assms by (simp add: SmoothStep_def Let_def)
qed

lemma Mix_mono:
  assumes "a1 \<le> a2" "b1 \<le> b2" "a1 \<le> b1" "0 \<le> w1" "w1 \<le> w2" "w2 \<le> 1"
  shows "Mix a1 b1 w1 \<le> Mix a2 b2 w2"
proof -
  have "Mix a2 b2 w2 - Mix a1 b1 w1 =
        (1 - w2) * (a2 - a1) + w2 * (b2 - b1) + (w2 - w1) * (b1 - a1)"
    by (simp add: Mix_def algebra_simps)
  moreover have "0 \<le> (1 - w2) * (a2 - a1) + w2 * (b2 - b1) + (w2 - w1) * (b1 - a1)"
    using assms by (intro add_nonneg_nonneg mult_nonneg_nonneg) auto
  ultimately show ?thesis by linarith
qed

lemma PPRShadowSegment_range:
  assumes "0 < rv (pivot_pq P)" "0 \<le> rv (gamma_s P)"
  shows "0 \<le> PPRShadowSegment P x \<and> PPRShadowSegment P x \<le> rv (pivot_pq P)"
proof -
  define p where "p = rv (pivot_pq P)"
  define g where "g = rv (gamma_s P)"
  have p: "0 < p" and g: "0 \<le> g" using assms by (simp_all add: p_def g_def)
  have "(x / p) powr g * p \<le> p" if "0 < x" "x < p"
  proof -
    have "(x / p) powr g \<le> 1 powr g"
      using that p g by (intro powr_mono2) auto
    then have "(x / p) powr g * p \<le> 1 * p"
      using p by (intro mult_right_mono) auto
    then show ?thesis by simp
  qed
  then show ?thesis
    using p by (auto simp: PPRShadowSegment_def Let_def p_def[symmetric] g_def[symmetric])
qed

lemma PPRShadowSegment_mono:
  assumes "0 < rv (pivot_pq P)" "0 \<le> rv (gamma_s P)" "x \<le> y"
  shows "PPRShadowSegment P x \<le> PPRShadowSegment P y"
proof -
  define p where "p = rv (pivot_pq P)"
  define g where "g = rv (gamma_s P)"
  have p: "0 < p" and g: "0 \<le> g" using assms by (simp_all add: p_def g_def)
  note r = PPRShadowSegment_range [OF assms(1,2)]
  consider "x \<le> 0" | "p \<le> y" | "0 < x" "y < p" by linarith
  then show ?thesis
  proof cases
    case 1
    then have "PPRShadowSegment P x = 0" by (simp add: PPRShadowSegment_def)
    then show ?thesis using r [of y] by simp
  next
    case 2
    then have "PPRShadowSegment P y = p"
      using p by (simp add: PPRShadowSegment_def p_def)
    then show ?thesis using r [of x] by (simp add: p_def)
  next
    case 3
    have "(x / p) powr g \<le> (y / p) powr g"
      using 3 p g assms(3) by (intro powr_mono2) (auto simp: divide_right_mono)
    then have "(x / p) powr g * p \<le> (y / p) powr g * p"
      using p by (intro mult_right_mono) auto
    then show ?thesis
      using 3 p assms(3)
      by (simp add: PPRShadowSegment_def Let_def p_def[symmetric] g_def[symmetric])
  qed
qed

text \<open>The rational part \<open>u / (1 + h u)\<close> is non-decreasing for non-negative \<open>u\<close>.\<close>

lemma rational_mono:
  fixes h u v :: real
  assumes "0 \<le> h" "0 \<le> u" "u \<le> v"
  shows "u / (1 + h * u) \<le> v / (1 + h * v)"
proof -
  have du: "0 < 1 + h * u" and dv: "0 < 1 + h * v"
    using assms by (auto intro: add_pos_nonneg)
  have "u * (1 + h * v) \<le> v * (1 + h * u)"
    using assms by (simp add: algebra_simps)
  then have "u \<le> v * (1 + h * u) / (1 + h * v)"
    using dv by (simp add: pos_le_divide_eq)
  then show ?thesis using du by (simp add: pos_divide_le_eq)
qed

lemma PPRHighlightSegment_eq:
  assumes p: "0 < rv (pivot_pq P)" "rv (pivot_pq P) < 1" and h: "0 \<le> rv (shoulder_h P)"
  shows "PPRHighlightSegment P x =
     (if x \<le> rv (pivot_pq P) then rv (pivot_pq P)
      else rv (pivot_pq P) +
           (min ((x - rv (pivot_pq P)) / (1 - rv (pivot_pq P))) 1 /
              (1 + rv (shoulder_h P) * min ((x - rv (pivot_pq P)) / (1 - rv (pivot_pq P))) 1))
             powr rv (gamma_h P) * (1 - rv (pivot_pq P)))"
proof (cases "x \<le> rv (pivot_pq P)")
  case True
  then show ?thesis by (simp add: PPRHighlightSegment_def)
next
  case False
  define u0 where "u0 = (x - rv (pivot_pq P)) / (1 - rv (pivot_pq P))"
  have u0: "0 < u0" using False p by (simp add: u0_def)
  have m: "(if 1 \<le> u0 then 1 else u0) = min u0 1" by (simp add: min_def)
  have "0 < 1 + rv (shoulder_h P) * min u0 1"
    using u0 h by (intro add_pos_nonneg mult_nonneg_nonneg) auto
  then show ?thesis
    using False u0 by (simp add: PPRHighlightSegment_def Let_def u0_def[symmetric] m not_le)
qed

lemma PPRHighlightSegment_ge:
  assumes p: "0 < rv (pivot_pq P)" "rv (pivot_pq P) < 1" and h: "0 \<le> rv (shoulder_h P)"
  shows "rv (pivot_pq P) \<le> PPRHighlightSegment P x"
  using p by (simp add: PPRHighlightSegment_eq [OF assms])

lemma PPRHighlightSegment_mono:
  assumes p: "0 < rv (pivot_pq P)" "rv (pivot_pq P) < 1" and h: "0 \<le> rv (shoulder_h P)"
      and g: "0 \<le> rv (gamma_h P)" and xy: "x \<le> y"
  shows "PPRHighlightSegment P x \<le> PPRHighlightSegment P y"
proof (cases "x \<le> rv (pivot_pq P)")
  case True
  then have "PPRHighlightSegment P x = rv (pivot_pq P)"
    by (simp add: PPRHighlightSegment_def)
  then show ?thesis using PPRHighlightSegment_ge [OF p h, of y] by simp
next
  case False
  define q where "q = rv (pivot_pq P)"
  define ux where "ux = min ((x - q) / (1 - q)) 1"
  define uy where "uy = min ((y - q) / (1 - q)) 1"
  have q: "0 < q" "q < 1" "q < x" "q < y" using p False xy by (auto simp: q_def)
  have "(x - q) / (1 - q) \<le> (y - q) / (1 - q)"
    using q xy by (simp add: divide_right_mono)
  then have u: "0 \<le> ux" "ux \<le> uy" using q by (auto simp: ux_def uy_def)
  have "ux / (1 + rv (shoulder_h P) * ux) \<le> uy / (1 + rv (shoulder_h P) * uy)"
    using h u by (rule rational_mono)
  moreover have "0 \<le> ux / (1 + rv (shoulder_h P) * ux)"
    using u h by (intro divide_nonneg_nonneg add_nonneg_nonneg mult_nonneg_nonneg) auto
  ultimately have "(ux / (1 + rv (shoulder_h P) * ux)) powr rv (gamma_h P) \<le>
                   (uy / (1 + rv (shoulder_h P) * uy)) powr rv (gamma_h P)"
    using g by (intro powr_mono2) auto
  then have "(ux / (1 + rv (shoulder_h P) * ux)) powr rv (gamma_h P) * (1 - q) \<le>
             (uy / (1 + rv (shoulder_h P) * uy)) powr rv (gamma_h P) * (1 - q)"
    using q by (intro mult_right_mono) auto
  then show ?thesis
    using q by (simp add: PPRHighlightSegment_eq [OF p h] q_def[symmetric] ux_def uy_def)
qed

lemma ApplyPPR_eq:
  assumes p: "0 < rv (pivot_pq P)"
  shows "ApplyPPR P x =
     Mix (PPRShadowSegment P x) (PPRHighlightSegment P x)
       (SmoothStep (rv (pivot_pq P) - rv (pivot_pq P) * 0.1)
                   (rv (pivot_pq P) + rv (pivot_pq P) * 0.1) x)"
proof -
  define p' where "p' = rv (pivot_pq P)"
  have e: "p' - p' * 0.1 < p' + p' * 0.1" using p by (simp add: p'_def)
  show ?thesis
    using SmoothStep_low [OF e, of x] SmoothStep_high [OF e, of x]
    by (auto simp: ApplyPPR_def Let_def Mix_def p'_def)
qed

lemma ApplyPPR_mono:
  assumes "CphParams_IsValid P" "x \<le> y"
  shows "ApplyPPR P x \<le> ApplyPPR P y"
proof -
  have p: "0 < rv (pivot_pq P)" "rv (pivot_pq P) < 1"
   and gs: "0 \<le> rv (gamma_s P)" and gh: "0 \<le> rv (gamma_h P)"
   and h: "0 \<le> rv (shoulder_h P)"
    using IsValid_bounds [OF assms(1)] by auto
  show ?thesis
    unfolding ApplyPPR_eq [OF p(1)]
  proof (rule Mix_mono)
    show "PPRShadowSegment P x \<le> PPRShadowSegment P y"
      using p(1) gs assms(2) by (rule PPRShadowSegment_mono)
    show "PPRHighlightSegment P x \<le> PPRHighlightSegment P y"
      using p h gh assms(2) by (rule PPRHighlightSegment_mono)
    show "PPRShadowSegment P x \<le> PPRHighlightSegment P x"
      using PPRShadowSegment_range [OF p(1) gs, of x] PPRHighlightSegment_ge [OF p h, of x]
      by linarith
  qed (use SmoothStep_range SmoothStep_mono assms(2) in auto)
qed

lemma ApplyPPR_nonneg:
  assumes "CphParams_IsValid P"
  shows "0 \<le> ApplyPPR P x"
proof -
  have p: "0 < rv (pivot_pq P)" "rv (pivot_pq P) < 1"
   and gs: "0 \<le> rv (gamma_s P)" and h: "0 \<le> rv (shoulder_h P)"
    using IsValid_bounds [OF assms(1)] by auto
  have s: "0 \<le> PPRShadowSegment P x" "PPRShadowSegment P x \<le> PPRHighlightSegment P x"
    using PPRShadowSegment_range [OF p(1) gs, of x] PPRHighlightSegment_ge [OF p h, of x]
    by auto
  have "0 \<le> PPRShadowSegment P x + SmoothStep (rv (pivot_pq P) - rv (pivot_pq P) * 0.1)
                   (rv (pivot_pq P) + rv (pivot_pq P) * 0.1) x *
                  (PPRHighlightSegment P x - PPRShadowSegment P x)"
    using s SmoothStep_range by (intro add_nonneg_nonneg mult_nonneg_nonneg) auto
  then show ?thesis by (simp add: ApplyPPR_eq [OF p(1)] Mix_def)
qed

lemma ApplySoftKnee_mono:
  assumes k: "rv (yknee P) < 1" and a: "0 \<le> rv (alpha P)" and xy: "x \<le> y"
  shows "ApplySoftKnee P x \<le> ApplySoftKnee P y"
proof -
  define k' where "k' = rv (yknee P)"
  define a' where "a' = rv (alpha P)"
  have k': "k' < 1" and a': "0 \<le> a'" using k a by (simp_all add: k'_def a'_def)
  have eq: "ApplySoftKnee P z =
      (if z \<le> k' then z else k' + (z - k') * (1 - k') / ((1 - k') + a' * (z - k')))" for z
    using ApplySoftKnee_eq [OF k, of z] by (simp add: k'_def a'_def)
  have pos: "0 \<le> (z - k') * (1 - k') / ((1 - k') + a' * (z - k'))" if "k' < z" for z
    using that k' a' by (intro divide_nonneg_nonneg mult_nonneg_nonneg add_nonneg_nonneg) auto
  consider "y \<le> k'" | "x \<le> k'" "k' < y" | "k' < x" by linarith
  then show ?thesis
  proof cases
    case 1
    then show ?thesis using xy by (simp add: eq)
  next
    case 2
    then show ?thesis using pos [of y] by (simp add: eq)
  next
    case 3
    define u where "u = x - k'"
    define v where "v = y - k'"
    define m where "m = 1 - k'"
    have u: "0 < u" "u \<le> v" and m: "0 < m" using 3 xy k' by (auto simp: u_def v_def m_def)
    have du: "0 < m + a' * u" and dv: "0 < m + a' * v"
      using u m a' by (auto intro!: add_pos_nonneg mult_nonneg_nonneg)
    have "u * m * (m + a' * v) \<le> v * m * (m + a' * u)"
    proof -
      have "v * m * (m + a' * u) - u * m * (m + a' * v) = (v - u) * m * m"
        by (simp add: algebra_simps)
      moreover have "0 \<le> (v - u) * m * m" using u m by simp
      ultimately show ?thesis by linarith
    qed
    then have "u * m \<le> v * m * (m + a' * u) / (m + a' * v)"
      using dv by (simp add: pos_le_divide_eq)
    then have "u * m / (m + a' * u) \<le> v * m / (m + a' * v)"
      using du by (simp add: pos_divide_le_eq)
    then show ?thesis
      using 3 xy by (simp add: eq u_def v_def m_def)
  qed
qed

lemma ApplyToeClamp_mono:
  assumes "x \<le> y"
  shows "ApplyToeClamp P x \<le> ApplyToeClamp P y"
  using assms by (auto simp: ApplyToeClamp_def Let_def max_def)

subsection \<open>Derivatives of the RLOG pieces\<close>

text \<open>On [0,1] and for parameters in range, the RLOG curve is \<open>rlog_dark\<close> below the
  blend window, \<open>rlog_high\<close> above it and \<open>rlog_blend\<close> inside; the primed functions
  are their derivatives.\<close>

lemma DERIV_rlog_dark:
  assumes "0 < 1 + a * x"
  shows "DERIV (rlog_dark a) x :> rlog_dark' a x"
proof -
  have "DERIV (\<lambda>x. ln (1 + a * x)) x :> a / (1 + a * x)"
    using assms by (auto intro!: derivative_eq_intros)
  then have "DERIV (\<lambda>x. ln (1 + a * x) / ln (1 + a)) x :> (a / (1 + a * x)) / ln (1 + a)"
    by (rule DERIV_cdivide)
  then show ?thesis
    unfolding rlog_dark_def [abs_def] rlog_dark'_def by (simp add: divide_divide_eq_left)
qed

lemma DERIV_rational:
  fixes c x :: real
  assumes "0 < 1 + c * x"
  shows "DERIV (\<lambda>x. x / (1 + c * x)) x :> 1 / ((1 + c * x) * (1 + c * x))"
proof -
  have nz: "1 + c * x \<noteq> 0" using assms by simp
  have "DERIV (\<lambda>x. x / (1 + c * x)) x :>
          (1 * (1 + c * x) - x * (0 + c * 1)) / ((1 + c * x) * (1 + c * x))"
    using nz by (auto intro!: derivative_eq_intros)
  then show ?thesis by (simp add: algebra_simps)
qed

lemma DERIV_rlog_high:
  assumes "0 < 1 + c * x" "0 < t"
  shows "DERIV (rlog_high a c t) x :> rlog_high' a c t x"
proof -
  define M where "M = rlog_dark a t * (1 + c * t) / t"
  have "DERIV (\<lambda>x. M * (x / (1 + c * x))) x :> M * (1 / ((1 + c * x) * (1 + c * x)))"
    by (intro DERIV_cmult DERIV_rational assms)
  moreover have "(\<lambda>x. M * (x / (1 + c * x))) = rlog_high a c t"
    by (rule ext) (simp add: M_def rlog_high_def)
  moreover have "M * (1 / ((1 + c * x) * (1 + c * x))) = rlog_high' a c t x"
    by (simp add: M_def rlog_high'_def)
  ultimately show ?thesis by simp
qed

lemma DERIV_cubic_blend:
  "DERIV (\<lambda>x. cubic (blend_u t x)) x :> cubic' (blend_u t x) * 10"
  unfolding cubic_def [abs_def] blend_u_def [abs_def] cubic'_def
  by (auto intro!: derivative_eq_intros simp: field_simps)

lemma DERIV_rlog_blend:
  assumes "0 < 1 + a * x" "0 < 1 + c * x" "0 < t"
  shows "DERIV (rlog_blend a c t) x :> rlog_blend' a c t x"
proof -
  have d: "DERIV (\<lambda>x. rlog_high a c t x - rlog_dark a x) x :>
             rlog_high' a c t x - rlog_dark' a x"
    by (intro DERIV_diff DERIV_rlog_high DERIV_rlog_dark assms)
  have "DERIV (\<lambda>x. rlog_dark a x +
            cubic (blend_u t x) * (rlog_high a c t x - rlog_dark a x)) x :>
        rlog_dark' a x +
        (cubic' (blend_u t x) * 10 * (rlog_high a c t x - rlog_dark a x) +
         (rlog_high' a c t x - rlog_dark' a x) * cubic (blend_u t x))"
    by (intro DERIV_add DERIV_mult DERIV_cubic_blend d DERIV_rlog_dark assms)
  then show ?thesis unfolding rlog_blend_def [abs_def] rlog_blend'_def .
qed

subsection \<open>Bounds on the logarithm and on the smooth-step cubic\<close>

lemma ln_lower:
  fixes z :: real
  assumes "0 \<le> z"
  shows "z \<le> (1 + z) * ln (1 + z)"
proof -
  have "ln 1 - ln (1 + z) \<le> (1 - (1 + z)) / (1 + z)"
    using assms by (intro ln_diff_le) auto
  then have "z / (1 + z) \<le> ln (1 + z)" by (simp add: minus_divide_left [symmetric])
  then have "z / (1 + z) * (1 + z) \<le> ln (1 + z) * (1 + z)"
    using assms by (intro mult_right_mono) auto
  then show ?thesis using assms by (simp add: mult.commute)
qed

lemma ln_122: "ln (12.2 :: real) \<le> 10 / 3"
proof -
  have "(1 + (10 / 3) / real 5) ^ 5 \<le> exp (10 / 3 :: real)"
    by (rule exp_ge_one_plus_x_over_n_power_n) auto
  moreover have "(12.2 :: real) \<le> (1 + (10 / 3) / real 5) ^ 5"
    by (simp add: power_divide)
  ultimately have "(12.2 :: real) \<le> exp (10 / 3)" by linarith
  then have "ln (12.2 :: real) \<le> ln (exp (10 / 3))"
    by (subst ln_le_cancel_iff) auto
  then show ?thesis by simp
qed

lemma ln_upper:
  fixes z :: real
  assumes "0 \<le> z" "z \<le> 11.2"
  shows "3 * ((1 + z) * ln (1 + z)) \<le> 13 * z"
proof (cases "z \<le> 10 / 3")
  case True
  have "ln (1 + z) \<le> z" using assms(1) by (rule ln_add_one_self_le_self)
  then have "(1 + z) * ln (1 + z) \<le> (1 + z) * z"
    using assms by (intro mult_left_mono) auto
  also have "\<dots> \<le> (13 / 3) * z"
    using True assms by (intro mult_right_mono) auto
  finally show ?thesis by simp
next
  case False
  have "ln (1 + z) \<le> ln 12.2"
    using assms by (subst ln_le_cancel_iff) auto
  then have "ln (1 + z) \<le> 10 / 3" using ln_122 by linarith
  then have "(1 + z) * ln (1 + z) \<le> (1 + z) * (10 / 3)"
    using assms by (intro mult_left_mono) auto
  then show ?thesis using False by simp
qed

lemma cubic_moment_bound:
  fixes u :: real
  assumes "0 \<le> u" "u \<le> 1"
  shows "u * (1 - u) * (1 / 2 - u) \<le> 1 / 20"
proof -
  have "1 / 20 - u * (1 - u) * (1 / 2 - u) =
        (u - 21 / 100) * (u - 21 / 100) * (108 / 100 - u) + (2372 / 1000000 - 23 / 10000 * u)"
    by (simp add: field_simps)
  moreover have "0 \<le> (u - 21 / 100) * (u - 21 / 100) * (108 / 100 - u)"
    using assms by (intro mult_nonneg_nonneg zero_le_square) auto
  moreover have "0 \<le> 2372 / 1000000 - 23 / 10000 * u" using assms by simp
  ultimately show ?thesis by linarith
qed

lemma cubic'_moment:
  fixes u :: real
  assumes "0 \<le> u" "u \<le> 1"
  shows "cubic' u * (1 / 2 - u) \<le> 3 / 10" "cubic' u * (u - 1 / 2) \<le> 3 / 10"
proof -
  have e1: "cubic' u * (1 / 2 - u) = 6 * (u * (1 - u) * (1 / 2 - u))"
    by (simp add: cubic'_def)
  show "cubic' u * (1 / 2 - u) \<le> 3 / 10"
    unfolding e1 using cubic_moment_bound [OF assms] by linarith
  have e2: "cubic' u * (u - 1 / 2) = 6 * ((1 - u) * (1 - (1 - u)) * (1 / 2 - (1 - u)))"
    by (simp add: cubic'_def)
  have "(1 - u) * (1 - (1 - u)) * (1 / 2 - (1 - u)) \<le> 1 / 20"
    using assms by (intro cubic_moment_bound) auto
  then show "cubic' u * (u - 1 / 2) \<le> 3 / 10"
    unfolding e2 by linarith
qed

lemma cubic'_nonneg: "0 \<le> u \<Longrightarrow> u \<le> 1 \<Longrightarrow> 0 \<le> cubic' u"
  by (simp add: cubic'_def)

lemma cubic_unit: "0 \<le> u \<Longrightarrow> u \<le> 1 \<Longrightarrow> 0 \<le> cubic u \<and> cubic u \<le> 1"
  using cubic_range [of u] by (simp add: cubic_def)

subsection \<open>The blend inequality and the tangent bounds\<close>

lemma blend_core_left:
  fixes W Q lx lt gx :: real
  assumes W: "0 \<le> W" "W \<le> 1" and pos: "0 < lx" "0 < gx"
      and Q: "Q \<le> 0" "- Q \<le> 3 / 10" and l: "lt \<le> lx" and g: "3 * gx \<le> 13 * lt"
  shows "Q * (lt - gx) \<le> (1 - W) * lx + W * gx"
proof (cases "gx \<le> lt")
  case True
  have "Q * (lt - gx) \<le> 0" using Q True by (intro mult_nonpos_nonneg) auto
  moreover have "0 \<le> (1 - W) * lx + W * gx"
    using W pos by (intro add_nonneg_nonneg mult_nonneg_nonneg) auto
  ultimately show ?thesis by linarith
next
  case False
  have "(- Q) * (gx - lt) \<le> (3 / 10) * (gx - lt)"
    using Q False by (intro mult_right_mono) auto
  then have 1: "Q * (lt - gx) \<le> (3 / 10) * (gx - lt)" by (simp add: algebra_simps)
  have 2: "(3 / 10) * (gx - lt) \<le> lt" using g by simp
  have "0 \<le> (1 - W) * (lx - lt) + W * (gx - lt)"
    using W l False by (intro add_nonneg_nonneg mult_nonneg_nonneg) auto
  then have 3: "lt \<le> (1 - W) * lx + W * gx" by (simp add: algebra_simps)
  show ?thesis using 1 2 3 by linarith
qed

lemma blend_core_right:
  fixes W Q lx lt gx :: real
  assumes W: "0 \<le> W" "W \<le> 1" and pos: "0 < lx" "0 < gx"
      and Q: "0 \<le> Q" "Q \<le> 3 / 10" and l: "3 * lt \<le> 10 * lx" and g: "3 * lt \<le> 13 * gx"
  shows "Q * (lt - gx) \<le> (1 - W) * lx + W * gx"
proof (cases "lt \<le> gx")
  case True
  have "Q * (lt - gx) \<le> 0" using Q True by (intro mult_nonneg_nonpos) auto
  moreover have "0 \<le> (1 - W) * lx + W * gx"
    using W pos by (intro add_nonneg_nonneg mult_nonneg_nonneg) auto
  ultimately show ?thesis by linarith
next
  case False
  define m where "m = (3 / 10) * (lt - gx)"
  have "Q * (lt - gx) \<le> (3 / 10) * (lt - gx)"
    using Q False by (intro mult_right_mono) auto
  then have 1: "Q * (lt - gx) \<le> m" by (simp add: m_def)
  have 2: "m \<le> lx" "m \<le> gx" using l g pos by (auto simp: m_def)
  have "0 \<le> (1 - W) * (lx - m) + W * (gx - m)"
    using W 2 by (intro add_nonneg_nonneg mult_nonneg_nonneg) auto
  then have 3: "m \<le> (1 - W) * lx + W * gx" by (simp add: algebra_simps)
  show ?thesis using 1 3 by linarith
qed

text \<open>Facts about the two segments for parameters in their ranges.\<close>

lemma ln_one_plus_pos: "1 \<le> a \<Longrightarrow> 0 < ln (1 + a :: real)"
  by (simp add: ln_gt_zero)

lemma rlog_dark'_pos:
  assumes "1 \<le> a" "0 \<le> x"
  shows "0 < rlog_dark' a x"
proof -
  have "0 < 1 + a * x" using assms by (intro add_pos_nonneg mult_nonneg_nonneg) auto
  then show ?thesis
    using assms ln_one_plus_pos [of a] by (simp add: rlog_dark'_def)
qed

lemma rlog_dark_nonneg:
  assumes "1 \<le> a" "0 \<le> x"
  shows "0 \<le> rlog_dark a x"
proof -
  have "0 \<le> a * x" using assms by (intro mult_nonneg_nonneg) auto
  then have "0 \<le> ln (1 + a * x)" by simp
  then show ?thesis
    using ln_one_plus_pos [OF assms(1)] by (simp add: rlog_dark_def)
qed

lemma rlog_dark'_antimono:
  assumes "1 \<le> a" "0 \<le> x" "x \<le> y"
  shows "rlog_dark' a y \<le> rlog_dark' a x"
proof -
  have px: "0 < 1 + a * x" using assms by (intro add_pos_nonneg mult_nonneg_nonneg) auto
  have "a * x \<le> a * y" using assms by (intro mult_left_mono) auto
  then have "(1 + a * x) * ln (1 + a) \<le> (1 + a * y) * ln (1 + a)"
    using ln_one_plus_pos [OF assms(1)] by (intro mult_right_mono) auto
  moreover have "0 < (1 + a * x) * ln (1 + a)"
    using px ln_one_plus_pos [OF assms(1)] by simp
  ultimately show ?thesis
    unfolding rlog_dark'_def using assms(1) by (intro frac_le) auto
qed

lemma rlog_dark_tangent:
  assumes "1 \<le> a" "0 \<le> x" "0 \<le> t"
  shows "rlog_dark a x - rlog_dark a t \<le> rlog_dark' a t * (x - t)"
proof -
  have px: "0 < 1 + a * x" and pt: "0 < 1 + a * t"
    using assms by (auto intro!: add_pos_nonneg mult_nonneg_nonneg)
  have la: "0 < ln (1 + a)" using assms(1) by (rule ln_one_plus_pos)
  have "ln (1 + a * x) - ln (1 + a * t) \<le> ((1 + a * x) - (1 + a * t)) / (1 + a * t)"
    using px pt by (rule ln_diff_le)
  then have "(ln (1 + a * x) - ln (1 + a * t)) / ln (1 + a) \<le>
             ((1 + a * x) - (1 + a * t)) / (1 + a * t) / ln (1 + a)"
    using la by (intro divide_right_mono) auto
  moreover have "((1 + a * x) - (1 + a * t)) / (1 + a * t) / ln (1 + a) =
                 rlog_dark' a t * (x - t)"
    by (simp add: rlog_dark'_def algebra_simps)
  ultimately show ?thesis by (simp add: rlog_dark_def diff_divide_distrib)
qed

lemma gap_identity:
  fixes K c t x d :: real
  assumes d: "d = 1 + c * x" and pos: "0 < d" "0 < t"
  shows "K * (1 + c * t) / (t * (d * d)) * (t - x) - (K - K * ((1 + c * t) * x) / (t * d)) =
         K * c * ((t - x) * (t - x)) / (t * (d * d))"
proof -
  have nz: "t * (d * d) \<noteq> 0" "t * d \<noteq> 0" using pos by auto
  have "K * ((1 + c * t) * x) / (t * d) = K * ((1 + c * t) * x) * d / (t * (d * d))"
    using pos by simp
  moreover have "K = K * (t * (d * d)) / (t * (d * d))" using nz by simp
  ultimately have "K * (1 + c * t) / (t * (d * d)) * (t - x) - (K - K * ((1 + c * t) * x) / (t * d)) =
     (K * (1 + c * t) * (t - x) - (K * (t * (d * d)) - K * ((1 + c * t) * x) * d)) / (t * (d * d))"
    by (metis (no_types, opaque_lifting) diff_divide_distrib times_divide_eq_left)
  moreover have "K * (1 + c * t) * (t - x) - (K * (t * (d * d)) - K * ((1 + c * t) * x) * d) =
     K * c * ((t - x) * (t - x))"
    unfolding d by (simp add: algebra_simps)
  ultimately show ?thesis by simp
qed

lemma rlog_high_tangent:
  assumes "1 \<le> a" "0 \<le> c" "0 \<le> x" "0 < t"
  shows "rlog_dark a t - rlog_high a c t x \<le> rlog_high' a c t x * (t - x)"
proof -
  define K where "K = rlog_dark a t"
  define d where "d = 1 + c * x"
  have K: "0 \<le> K" using assms by (simp add: K_def rlog_dark_nonneg)
  have d: "0 < d" unfolding d_def using assms by (intro add_pos_nonneg mult_nonneg_nonneg) auto
  have "rlog_high' a c t x * (t - x) - (K - rlog_high a c t x) =
        K * c * ((t - x) * (t - x)) / (t * (d * d))"
    unfolding rlog_high'_def rlog_high_def K_def [symmetric] d_def [symmetric]
    using d_def d assms(4) by (rule gap_identity)
  moreover have "0 \<le> K * c * ((t - x) * (t - x)) / (t * (d * d))"
    using K assms d by (intro divide_nonneg_nonneg mult_nonneg_nonneg zero_le_square) auto
  ultimately show ?thesis unfolding K_def by linarith
qed

lemma tangent_gap:
  assumes "1 \<le> a" "0 \<le> c" "0 \<le> x" "0 < t"
  shows "rlog_dark a x - rlog_high a c t x \<le>
         (rlog_dark' a t - rlog_high' a c t x) * (x - t)"
proof -
  have "rlog_dark a x - rlog_dark a t \<le> rlog_dark' a t * (x - t)"
    using assms by (intro rlog_dark_tangent) auto
  moreover have "rlog_dark a t - rlog_high a c t x \<le> rlog_high' a c t x * (t - x)"
    using assms by (intro rlog_high_tangent) auto
  ultimately show ?thesis by (simp add: algebra_simps)
qed

subsection \<open>Slopes inside the blend window\<close>

lemma frac_cross:
  fixes a b c d :: real
  assumes "0 < b" "0 < d" "a * d \<le> c * b"
  shows "a / b \<le> c / d"
proof -
  have "a \<le> c * b / d" using assms by (simp add: pos_le_divide_eq)
  then show ?thesis using assms by (simp add: pos_divide_le_eq)
qed

text \<open>Both slopes are compared with \<open>rlog_dark a t / t\<close>.\<close>

lemma dark'_le_chord:
  assumes "1 \<le> a" "0 < t"
  shows "rlog_dark' a t \<le> rlog_dark a t / t"
proof -
  have la: "0 < ln (1 + a)" using assms(1) by (rule ln_one_plus_pos)
  have z: "0 \<le> a * t" using assms by simp
  have "a * t \<le> (1 + a * t) * ln (1 + a * t)" using z by (rule ln_lower)
  then have "a * (ln (1 + a) * t) \<le> ln (1 + a * t) * ((1 + a * t) * ln (1 + a))"
    using la by (simp add: mult.commute mult.left_commute)
  then have "a / ((1 + a * t) * ln (1 + a)) \<le> ln (1 + a * t) / (ln (1 + a) * t)"
    using la assms z by (intro frac_cross mult_pos_pos add_pos_nonneg) auto
  then show ?thesis by (simp add: rlog_dark'_def rlog_dark_def divide_divide_eq_left)
qed

lemma chord_le_dark':
  assumes "1 \<le> a" "a \<le> 16" "0 < t" "t \<le> 7 / 10"
  shows "3 * (rlog_dark a t / t) \<le> 13 * rlog_dark' a t"
proof -
  have la: "0 < ln (1 + a)" using assms(1) by (rule ln_one_plus_pos)
  have z: "0 \<le> a * t" using assms by simp
  have "a * t \<le> 16 * (7 / 10)" using assms by (intro mult_mono) auto
  then have z2: "a * t \<le> 11.2" by simp
  have "3 * ((1 + a * t) * ln (1 + a * t)) \<le> 13 * (a * t)" using z z2 by (rule ln_upper)
  then have "3 * ln (1 + a * t) * ((1 + a * t) * ln (1 + a)) \<le> 13 * a * (ln (1 + a) * t)"
    using la by (simp add: mult.commute mult.left_commute)
  then have "3 * ln (1 + a * t) / (ln (1 + a) * t) \<le> 13 * a / ((1 + a * t) * ln (1 + a))"
    using la assms z by (intro frac_cross mult_pos_pos add_pos_nonneg) auto
  then show ?thesis by (simp add: rlog_dark'_def rlog_dark_def divide_divide_eq_left)
qed

lemma rlog_high'_pos:
  assumes "1 \<le> a" "0 \<le> c" "0 \<le> x" "0 < t"
  shows "0 < rlog_high' a c t x"
proof -
  have "0 < a * t" using assms by simp
  then have "0 < ln (1 + a * t)" by (simp add: ln_gt_zero)
  then have K: "0 < rlog_dark a t"
    using ln_one_plus_pos [OF assms(1)] by (simp add: rlog_dark_def)
  have d: "0 < 1 + c * x" using assms by (intro add_pos_nonneg mult_nonneg_nonneg) auto
  have ct: "0 < 1 + c * t" using assms by (intro add_pos_nonneg mult_nonneg_nonneg) auto
  show ?thesis
    unfolding rlog_high'_def using K d ct assms(4) by (intro divide_pos_pos mult_pos_pos)
qed

lemma high'_le_chord:
  assumes "1 \<le> a" "0 \<le> c" "1 / 10 \<le> t" "t - 1 / 20 \<le> x"
  shows "rlog_high' a c t x \<le> rlog_dark a t / t"
proof -
  define d where "d = 1 + c * x"
  have t: "0 < t" and x: "0 \<le> x" using assms by auto
  have K: "0 \<le> rlog_dark a t" using assms t by (intro rlog_dark_nonneg) auto
  have d: "1 \<le> d" unfolding d_def using assms x by simp
  have "c * t \<le> c * (2 * x)"
    using assms by (intro mult_left_mono) auto
  then have "1 + c * t \<le> 1 + 2 * (c * x)" by simp
  also have "\<dots> \<le> 1 + 2 * (c * x) + (c * x) * (c * x)" by simp
  also have "\<dots> = d * d" by (simp add: d_def algebra_simps)
  finally have "1 + c * t \<le> d * d" .
  then have "rlog_dark a t * (1 + c * t) \<le> rlog_dark a t * (d * d)"
    using K by (intro mult_left_mono)
  then have "rlog_dark a t * (1 + c * t) / (t * (d * d)) \<le> rlog_dark a t * (d * d) / (t * (d * d))"
    using t d by (intro divide_right_mono) auto
  also have "\<dots> = rlog_dark a t / t" using d by simp
  finally show ?thesis by (simp add: rlog_high'_def d_def)
qed

lemma chord_le_high':
  assumes "1 \<le> a" "0 \<le> c" "c \<le> 3" "0 < t" "t \<le> 7 / 10" "0 \<le> x" "x \<le> t + 1 / 20"
  shows "3 * (rlog_dark a t / t) \<le> 13 * rlog_high' a c t x"
proof -
  define d where "d = 1 + c * x"
  define v where "v = 1 + c * t"
  have K: "0 \<le> rlog_dark a t" using assms by (intro rlog_dark_nonneg) auto
  have d: "1 \<le> d" unfolding d_def using assms by simp
  have "c * t \<le> 3 * (7 / 10)" using assms by (intro mult_mono) auto
  then have v: "1 \<le> v" "v \<le> 31 / 10" using assms by (auto simp: v_def)
  have "c * x \<le> c * (t + 1 / 20)" using assms by (intro mult_left_mono) auto
  also have "\<dots> \<le> c * t + 3 / 20" using assms by (simp add: algebra_simps)
  finally have dv: "d \<le> v + 3 / 20" by (simp add: d_def v_def)
  have "d * d \<le> (v + 3 / 20) * (v + 3 / 20)"
    using dv d by (intro mult_mono) auto
  moreover have "3 * ((v + 3 / 20) * (v + 3 / 20)) \<le> 13 * v"
  proof -
    have "v * v \<le> (31 / 10) * v" using v by (intro mult_right_mono) auto
    moreover have "3 * ((v + 3 / 20) * (v + 3 / 20)) = 3 * (v * v) + (9 / 10) * v + 27 / 400"
      by (simp add: algebra_simps)
    ultimately show ?thesis using v by linarith
  qed
  ultimately have dd: "3 * (d * d) \<le> 13 * v" by linarith
  have "3 * rlog_dark a t * (t * (d * d)) = (rlog_dark a t * t) * (3 * (d * d))" by simp
  also have "\<dots> \<le> (rlog_dark a t * t) * (13 * v)"
    using dd K assms by (intro mult_left_mono mult_nonneg_nonneg) auto
  also have "\<dots> = 13 * (rlog_dark a t * v) * t" by simp
  finally have "3 * rlog_dark a t * (t * (d * d)) \<le> 13 * (rlog_dark a t * v) * t" .
  then have "3 * rlog_dark a t / t \<le> 13 * (rlog_dark a t * v) / (t * (d * d))"
    using d assms by (intro frac_cross mult_pos_pos) auto
  then show ?thesis by (simp add: rlog_high'_def d_def v_def)
qed

lemma dark'_window:
  assumes "1 \<le> a" "a \<le> 16" "0 \<le> t" "0 \<le> x" "x \<le> t + 1 / 20"
  shows "3 * rlog_dark' a t \<le> 10 * rlog_dark' a x"
proof -
  have la: "0 < ln (1 + a)" using assms(1) by (rule ln_one_plus_pos)
  have "a * x \<le> a * (t + 1 / 20)" using assms by (intro mult_left_mono) auto
  also have "\<dots> \<le> a * t + 4 / 5" using assms by (simp add: algebra_simps)
  finally have ax: "a * x \<le> a * t + 4 / 5" .
  have at: "0 \<le> a * t" using assms by simp
  have "3 + 3 * (a * x) \<le> 10 + 10 * (a * t)" using ax at by linarith
  then have "3 * (1 + a * x) \<le> 10 * (1 + a * t)" by (simp add: distrib_left)
  then have "3 * a * ((1 + a * x) * ln (1 + a)) \<le> 10 * a * ((1 + a * t) * ln (1 + a))"
  proof -
    assume h: "3 * (1 + a * x) \<le> 10 * (1 + a * t)"
    have "(3 * (1 + a * x)) * (a * ln (1 + a)) \<le> (10 * (1 + a * t)) * (a * ln (1 + a))"
      using h la assms by (intro mult_right_mono mult_nonneg_nonneg) auto
    then show ?thesis by (simp add: mult.commute mult.left_commute)
  qed
  then have "3 * a / ((1 + a * t) * ln (1 + a)) \<le> 10 * a / ((1 + a * x) * ln (1 + a))"
    using la assms by (intro frac_cross mult_pos_pos add_pos_nonneg mult_nonneg_nonneg) auto
  then show ?thesis by (simp add: rlog_dark'_def)
qed

subsection \<open>The blended RLOG curve is non-decreasing\<close>

lemma blend_u_facts:
  assumes "t - 1 / 20 \<le> x" "x \<le> t + 1 / 20"
  shows "0 \<le> blend_u t x" "blend_u t x \<le> 1" "blend_u t x - 1 / 2 = 10 * (x - t)"
  using assms by (simp_all add: blend_u_def field_simps)

lemma rlog_blend'_nonneg:
  assumes a: "1 \<le> a" "a \<le> 16" and c: "0 \<le> c" "c \<le> 3"
      and t: "2 / 5 \<le> t" "t \<le> 7 / 10"
      and x: "t - 1 / 20 \<le> x" "x \<le> t + 1 / 20"
  shows "0 \<le> rlog_blend' a c t x"
proof -
  define u where "u = blend_u t x"
  define W where "W = cubic u"
  define Q where "Q = cubic' u * (u - 1 / 2)"
  define lx where "lx = rlog_dark' a x"
  define lt where "lt = rlog_dark' a t"
  define gx where "gx = rlog_high' a c t x"
  define gap where "gap = rlog_dark a x - rlog_high a c t x"
  have tp: "0 < t" and xp: "0 \<le> x" using t x by auto
  have u: "0 \<le> u" "u \<le> 1" and uh: "u - 1 / 2 = 10 * (x - t)"
    unfolding u_def using x by (rule blend_u_facts)+
  have W: "0 \<le> W" "W \<le> 1" using cubic_unit [OF u] by (simp_all add: W_def)
  have W': "0 \<le> cubic' u" using u by (rule cubic'_nonneg)
  have lxp: "0 < lx" unfolding lx_def using a(1) xp by (rule rlog_dark'_pos)
  have gxp: "0 < gx" unfolding gx_def using a(1) c(1) xp tp by (rule rlog_high'_pos)
  have "gap \<le> (lt - gx) * (x - t)"
    unfolding gap_def lt_def gx_def using a(1) c(1) xp tp by (rule tangent_gap)
  then have "(cubic' u * 10) * gap \<le> (cubic' u * 10) * ((lt - gx) * (x - t))"
    using W' by (intro mult_left_mono) auto
  also have "\<dots> = Q * (lt - gx)" by (simp add: Q_def uh)
  finally have g1: "cubic' u * 10 * gap \<le> Q * (lt - gx)" .
  have core: "Q * (lt - gx) \<le> (1 - W) * lx + W * gx"
  proof (cases "x \<le> t")
    case True
    have "u - 1 / 2 \<le> 0" using True uh by simp
    then have q1: "Q \<le> 0" unfolding Q_def using W' by (intro mult_nonneg_nonpos)
    have "cubic' u * (1 / 2 - u) \<le> 3 / 10" using u by (rule cubic'_moment(1))
    moreover have "- Q = cubic' u * (1 / 2 - u)" by (simp add: Q_def algebra_simps)
    ultimately have q2: "- Q \<le> 3 / 10" by simp
    have l: "lt \<le> lx" unfolding lt_def lx_def using a(1) xp True by (rule rlog_dark'_antimono)
    have "gx \<le> rlog_dark a t / t"
      unfolding gx_def using a(1) c(1) _ x(1) by (rule high'_le_chord) (use t in simp)
    moreover have "3 * (rlog_dark a t / t) \<le> 13 * lt"
      unfolding lt_def using a tp t(2) by (rule chord_le_dark')
    ultimately have g: "3 * gx \<le> 13 * lt" by linarith
    show ?thesis using W lxp gxp q1 q2 l g by (rule blend_core_left)
  next
    case False
    have "0 \<le> u - 1 / 2" using False uh by simp
    then have q1: "0 \<le> Q" unfolding Q_def using W' by (intro mult_nonneg_nonneg)
    have q2: "Q \<le> 3 / 10" unfolding Q_def using u by (rule cubic'_moment(2))
    have l: "3 * lt \<le> 10 * lx"
      unfolding lt_def lx_def using a _ xp x(2) by (rule dark'_window) (use tp in simp)
    have "lt \<le> rlog_dark a t / t" unfolding lt_def using a(1) tp by (rule dark'_le_chord)
    moreover have "3 * (rlog_dark a t / t) \<le> 13 * gx"
      unfolding gx_def using a(1) c tp t(2) xp x(2) by (rule chord_le_high')
    ultimately have g: "3 * lt \<le> 13 * gx" by linarith
    show ?thesis using W lxp gxp q1 q2 l g by (rule blend_core_right)
  qed
  have "rlog_blend' a c t x = (1 - W) * lx + W * gx - cubic' u * 10 * gap"
    by (simp add: rlog_blend'_def W_def lx_def gx_def gap_def u_def algebra_simps)
  then show ?thesis using g1 core by linarith
qed

lemma rlog_blend_mono:
  assumes a: "1 \<le> a" "a \<le> 16" and c: "0 \<le> c" "c \<le> 3"
      and t: "2 / 5 \<le> t" "t \<le> 7 / 10"
      and x: "t - 1 / 20 \<le> x" "x \<le> y" "y \<le> t + 1 / 20"
  shows "rlog_blend a c t x \<le> rlog_blend a c t y"
proof (rule DERIV_nonneg_imp_nondecreasing [OF x(2)])
  fix z assume z: "x \<le> z" "z \<le> y"
  have zp: "0 \<le> z" using z x t by linarith
  have "0 < 1 + a * z" using a zp by (intro add_pos_nonneg mult_nonneg_nonneg) auto
  moreover have "0 < 1 + c * z" using c zp by (intro add_pos_nonneg mult_nonneg_nonneg) auto
  moreover have "0 < t" using t by simp
  ultimately have "DERIV (rlog_blend a c t) z :> rlog_blend' a c t z"
    by (rule DERIV_rlog_blend)
  moreover have "0 \<le> rlog_blend' a c t z"
    using a c t by (rule rlog_blend'_nonneg) (use z x in linarith)+
  ultimately show "\<exists>d. DERIV (rlog_blend a c t) z :> d \<and> 0 \<le> d" by blast
qed

lemma rlog_blend_ends:
  "rlog_blend a c t (t - 1 / 20) = rlog_dark a (t - 1 / 20)"
  "rlog_blend a c t (t + 1 / 20) = rlog_high a c t (t + 1 / 20)"
  by (simp_all add: rlog_blend_def blend_u_def cubic_def)

lemma rlog_dark_mono:
  assumes "1 \<le> a" "0 \<le> x" "x \<le> y"
  shows "rlog_dark a x \<le> rlog_dark a y"
proof -
  have "a * x \<le> a * y" using assms by (intro mult_left_mono) auto
  moreover have "0 < 1 + a * x" using assms by (intro add_pos_nonneg mult_nonneg_nonneg) auto
  ultimately have "ln (1 + a * x) \<le> ln (1 + a * y)" by simp
  then show ?thesis
    unfolding rlog_dark_def using ln_one_plus_pos [OF assms(1)]
    by (intro divide_right_mono) auto
qed

lemma rlog_high_mono:
  assumes "1 \<le> a" "0 \<le> c" "0 < t" "0 \<le> x" "x \<le> y"
  shows "rlog_high a c t x \<le> rlog_high a c t y"
proof -
  define k where "k = rlog_dark a t * (1 + c * t) / t"
  have "0 \<le> rlog_dark a t" using assms by (intro rlog_dark_nonneg) auto
  then have k: "0 \<le> k" unfolding k_def using assms by (intro divide_nonneg_pos mult_nonneg_nonneg add_nonneg_nonneg) auto
  have e: "rlog_high a c t z = k * (z / (1 + c * z))" for z
    by (simp add: rlog_high_def k_def)
  have "x / (1 + c * x) \<le> y / (1 + c * y)" using assms(2,4,5) by (rule rational_mono)
  then show ?thesis unfolding e using k by (rule mult_left_mono)
qed

subsection \<open>The RLOG curve of the source in closed form\<close>

lemma RLOGDarkSegment_eq:
  assumes "1 \<le> rv (rlog_a P)" "0 \<le> x" "x \<le> 1"
  shows "RLOGDarkSegment P x = rlog_dark (rv (rlog_a P)) x"
proof -
  have la: "0 < ln (1 + rv (rlog_a P))" using assms(1) by (rule ln_one_plus_pos)
  show ?thesis
  proof (cases "x = 0 \<or> x = 1")
    case True
    then show ?thesis using la by (auto simp: RLOGDarkSegment_def rlog_dark_def)
  next
    case False
    then have "0 < x" "x < 1" using assms by auto
    then show ?thesis using la by (simp add: RLOGDarkSegment_def rlog_dark_def Let_def)
  qed
qed

lemma RLOGHighlightSegment_eq:
  assumes "0 \<le> rv (rlog_c P)" "0 \<le> x" "x \<le> 1"
  shows "RLOGHighlightSegment P x = rv (rlog_b P) * x / (1 + rv (rlog_c P) * x)"
proof (cases "x = 0 \<or> x = 1")
  case True
  then show ?thesis by (auto simp: RLOGHighlightSegment_def)
next
  case False
  then have x: "0 < x" "x < 1" using assms by auto
  have "0 < 1 + rv (rlog_c P) * x"
    using assms x by (intro add_pos_nonneg mult_nonneg_nonneg) auto
  then show ?thesis using x by (simp add: RLOGHighlightSegment_def Let_def)
qed

lemma rlog_scale_eq:
  fixes b c t x K :: real
  assumes "0 < b" "0 \<le> c" "0 < t" "0 \<le> x"
  shows "b * x / (1 + c * x) * (K / (b * t / (1 + c * t))) =
         K * ((1 + c * t) * x) / (t * (1 + c * x))"
proof -
  define d where "d = 1 + c * x"
  define e where "e = 1 + c * t"
  have "b * x / d * (K / (b * t / e)) = K * (e * x) / (t * d)"
    using assms(1) by (simp add: mult_ac)
  then show ?thesis by (simp add: d_def e_def)
qed

lemma SmoothStep_window:
  assumes "t - 1 / 20 \<le> x" "x \<le> t + 1 / 20"
  shows "SmoothStep (t - 1 / 20) (t + 1 / 20) x = cubic (blend_u t x)"
proof -
  have u: "0 \<le> blend_u t x" "blend_u t x \<le> 1" using assms by (rule blend_u_facts)+
  have "(x - (t - 1 / 20)) / (t + 1 / 20 - (t - 1 / 20)) = blend_u t x"
    by (simp add: blend_u_def)
  then have "clampr ((x - (t - 1 / 20)) / (t + 1 / 20 - (t - 1 / 20))) 0 1 = blend_u t x"
    using u by (simp add: clampr_def)
  then show ?thesis by (simp add: SmoothStep_def Let_def cubic_def)
qed

lemma ApplyRLOG_eq:
  assumes v: "CphParams_IsValid P" and x: "0 \<le> x" "x \<le> 1"
  shows "ApplyRLOG P x =
           (if x < rv (rlog_t P) - 1 / 20 then rlog_dark (rv (rlog_a P)) x
            else if rv (rlog_t P) + 1 / 20 < x
                 then rlog_high (rv (rlog_a P)) (rv (rlog_c P)) (rv (rlog_t P)) x
                 else rlog_blend (rv (rlog_a P)) (rv (rlog_c P)) (rv (rlog_t P)) x)"
proof -
  define a where "a = rv (rlog_a P)"
  define b where "b = rv (rlog_b P)"
  define c where "c = rv (rlog_c P)"
  define t where "t = rv (rlog_t P)"
  have a: "1 \<le> a" and b: "0 < b" and c: "0 \<le> c" and t: "0 < t" "t \<le> 1"
    using IsValid_bounds [OF v] by (auto simp: a_def b_def c_def t_def)
  have dk: "RLOGDarkSegment P z = rlog_dark a z" if "0 \<le> z" "z \<le> 1" for z
    unfolding a_def using a that unfolding a_def by (rule RLOGDarkSegment_eq)
  have hi: "RLOGHighlightSegment P z = b * z / (1 + c * z)" if "0 \<le> z" "z \<le> 1" for z
    unfolding b_def c_def using c that unfolding c_def by (rule RLOGHighlightSegment_eq)
  have ht: "RLOGHighlightSegment P t = b * t / (1 + c * t)" using t by (intro hi) auto
  have "0 < b * t / (1 + c * t)"
    using b c t by (intro divide_pos_pos mult_pos_pos add_pos_nonneg mult_nonneg_nonneg) auto
  then have pos: "0 < RLOGHighlightSegment P t" using ht by simp
  have "RLOGHighlightSegment P x * (RLOGDarkSegment P t / RLOGHighlightSegment P t) =
        b * x / (1 + c * x) * (rlog_dark a t / (b * t / (1 + c * t)))"
    using hi [OF x] ht dk [of t] t by simp
  also have "\<dots> = rlog_dark a t * ((1 + c * t) * x) / (t * (1 + c * x))"
    using b c t(1) x(1) by (rule rlog_scale_eq)
  finally have y2: "RLOGHighlightSegment P x * (RLOGDarkSegment P t / RLOGHighlightSegment P t) =
                    rlog_high a c t x"
    by (simp add: rlog_high_def)
  have mix: "Mix (rlog_dark a x) (rlog_high a c t x) (SmoothStep (t - 1 / 20) (t + 1 / 20) x) =
             rlog_blend a c t x"
    if "t - 1 / 20 \<le> x" "x \<le> t + 1 / 20"
    using SmoothStep_window [OF that] by (simp add: Mix_def rlog_blend_def)
  have "ApplyRLOG P x =
          (if x < t - 1 / 20 then rlog_dark a x
           else if t + 1 / 20 < x then rlog_high a c t x
           else Mix (rlog_dark a x) (rlog_high a c t x) (SmoothStep (t - 1 / 20) (t + 1 / 20) x))"
    using pos y2 dk [OF x] by (simp add: ApplyRLOG_def Let_def t_def [symmetric])
  then show ?thesis using mix by (auto simp: a_def c_def t_def)
qed

lemma glue_three:
  fixes f g h :: "real \<Rightarrow> real"
  assumes pq: "0 \<le> p" "p \<le> q"
      and f: "\<And>u v. 0 \<le> u \<Longrightarrow> u \<le> v \<Longrightarrow> v \<le> p \<Longrightarrow> f u \<le> f v"
      and g: "\<And>u v. p \<le> u \<Longrightarrow> u \<le> v \<Longrightarrow> v \<le> q \<Longrightarrow> g u \<le> g v"
      and h: "\<And>u v. q \<le> u \<Longrightarrow> u \<le> v \<Longrightarrow> h u \<le> h v"
      and j: "g p = f p" "g q = h q"
      and xy: "0 \<le> x" "x \<le> y"
  shows "(if x < p then f x else if q < x then h x else g x) \<le>
         (if y < p then f y else if q < y then h y else g y)"
proof -
  consider "y < p" | "x < p" "p \<le> y" "y \<le> q" | "x < p" "q < y"
         | "p \<le> x" "y \<le> q" | "p \<le> x" "x \<le> q" "q < y" | "q < x"
    by linarith
  then show ?thesis
  proof cases
    case 1
    then show ?thesis using f [of x y] xy by simp
  next
    case 2
    have "f x \<le> f p" using xy 2 by (intro f) auto
    also have "\<dots> \<le> g y" unfolding j(1) [symmetric] using 2 by (intro g) auto
    finally show ?thesis using 2 by simp
  next
    case 3
    have "f x \<le> f p" using xy 3 by (intro f) auto
    also have "\<dots> \<le> g q" unfolding j(1) [symmetric] using pq by (intro g) auto
    also have "\<dots> \<le> h y" unfolding j(2) using 3 by (intro h) auto
    finally show ?thesis using 3 pq by simp
  next
    case 4
    then show ?thesis using g [of x y] xy by simp
  next
    case 5
    have "g x \<le> g q" using 5 by (intro g) auto
    also have "\<dots> \<le> h y" unfolding j(2) using 5 by (intro h) auto
    finally show ?thesis using 5 by simp
  next
    case 6
    then show ?thesis using h [of x y] xy pq by simp
  qed
qed

lemma ApplyRLOG_mono:
  assumes v: "CphParams_IsValid P" and x: "0 \<le> x" "x \<le> y" "y \<le> 1"
  shows "ApplyRLOG P x \<le> ApplyRLOG P y"
proof -
  let ?a = "rv (rlog_a P)"
  let ?c = "rv (rlog_c P)"
  let ?t = "rv (rlog_t P)"
  have a: "1 \<le> ?a" "?a \<le> 16" and c: "0 \<le> ?c" "?c \<le> 3"
    and t: "2 / 5 \<le> ?t" "?t \<le> 7 / 10"
    using IsValid_bounds [OF v] by auto
  have tp: "0 < ?t" using t by simp
  have "(if x < ?t - 1 / 20 then rlog_dark ?a x
         else if ?t + 1 / 20 < x then rlog_high ?a ?c ?t x else rlog_blend ?a ?c ?t x) \<le>
        (if y < ?t - 1 / 20 then rlog_dark ?a y
         else if ?t + 1 / 20 < y then rlog_high ?a ?c ?t y else rlog_blend ?a ?c ?t y)"
  proof (rule glue_three)
    show "0 \<le> ?t - 1 / 20" "?t - 1 / 20 \<le> ?t + 1 / 20" using t by auto
    show "rlog_dark ?a u \<le> rlog_dark ?a w" if "0 \<le> u" "u \<le> w" for u w
      using a(1) that by (rule rlog_dark_mono)
    show "rlog_blend ?a ?c ?t u \<le> rlog_blend ?a ?c ?t w"
      if "?t - 1 / 20 \<le> u" "u \<le> w" "w \<le> ?t + 1 / 20" for u w
      using a c t that by (rule rlog_blend_mono)
    show "rlog_high ?a ?c ?t u \<le> rlog_high ?a ?c ?t w" if "?t + 1 / 20 \<le> u" "u \<le> w" for u w
      using a(1) c(1) tp _ that(2) by (rule rlog_high_mono) (use that t in linarith)
    show "rlog_blend ?a ?c ?t (?t - 1 / 20) = rlog_dark ?a (?t - 1 / 20)"
         "rlog_blend ?a ?c ?t (?t + 1 / 20) = rlog_high ?a ?c ?t (?t + 1 / 20)"
      by (rule rlog_blend_ends)+
    show "0 \<le> x" "x \<le> y" by fact+
  qed
  moreover have "0 \<le> y" "x \<le> 1" using x by auto
  ultimately show ?thesis
    using ApplyRLOG_eq [OF v x(1) \<open>x \<le> 1\<close>] ApplyRLOG_eq [OF v \<open>0 \<le> y\<close> x(3)]
    by simp
qed

subsection \<open>The complete curve and the validator\<close>

lemma ApplyToneMapping_Fin:
  assumes "tm_initialized T"
  shows "ApplyToneMapping T (Fin x) =
         Fin (clampr (ApplyToeClamp (tm_params T) (ApplySoftKnee (tm_params T)
                (if curve (tm_params T) = PPR then ApplyPPR (tm_params T) (clampr x 0 1)
                 else ApplyRLOG (tm_params T) (clampr x 0 1)))) 0 1)"
  using assms by (simp add: ApplyToneMapping_def NumericalProtection_IsValid_def Let_def)

lemma ApplyToneMapping_mono:
  assumes i: "tm_initialized T" and v: "CphParams_IsValid (tm_params T)" and xy: "x \<le> y"
  shows "rv (ApplyToneMapping T (Fin x)) \<le> rv (ApplyToneMapping T (Fin y))"
proof -
  let ?P = "tm_params T"
  let ?c = "\<lambda>z. if curve ?P = PPR then ApplyPPR ?P z else ApplyRLOG ?P z"
  have k: "rv (yknee ?P) < 1" "0 \<le> rv (alpha ?P)" using IsValid_bounds [OF v] by auto
  have c: "clampr x 0 1 \<le> clampr y 0 1" using xy by (intro clampr_mono) auto
  have r: "0 \<le> clampr x 0 1" "clampr y 0 1 \<le> 1"
    using clampr_range [of 0 1 x] clampr_range [of 0 1 y] by auto
  have "?c (clampr x 0 1) \<le> ?c (clampr y 0 1)"
    using ApplyPPR_mono [OF v c] ApplyRLOG_mono [OF v r(1) c r(2)] by simp
  then have "ApplySoftKnee ?P (?c (clampr x 0 1)) \<le> ApplySoftKnee ?P (?c (clampr y 0 1))"
    using k by (intro ApplySoftKnee_mono)
  then have "ApplyToeClamp ?P (ApplySoftKnee ?P (?c (clampr x 0 1))) \<le>
             ApplyToeClamp ?P (ApplySoftKnee ?P (?c (clampr y 0 1)))"
    by (rule ApplyToeClamp_mono)
  then have "clampr (ApplyToeClamp ?P (ApplySoftKnee ?P (?c (clampr x 0 1)))) 0 1 \<le>
             clampr (ApplyToeClamp ?P (ApplySoftKnee ?P (?c (clampr y 0 1)))) 0 1"
    by (intro clampr_mono) auto
  then show ?thesis by (simp add: ApplyToneMapping_Fin [OF i])
qed

lemma ApplyToneMapping_value:
  assumes "tm_initialized T"
  shows "ApplyToneMapping T (Fin x) = Fin (rv (ApplyToneMapping T (Fin x)))"
    and "0 \<le> rv (ApplyToneMapping T (Fin x))"
  using clampr_range [of 0 1] by (simp_all add: ApplyToneMapping_Fin [OF assms])

lemma monotonic_scan_sorted:
  assumes i: "tm_initialized T" and v: "CphParams_IsValid (tm_params T)"
  shows "sorted xs \<Longrightarrow> \<forall>x\<in>set xs. p \<le> rv (ApplyToneMapping T (Fin x)) \<Longrightarrow>
         monotonic_scan T (Fin p) xs"
proof (induction xs arbitrary: p)
  case Nil
  show ?case by simp
next
  case (Cons x xs)
  obtain w where e: "ApplyToneMapping T (Fin x) = Fin w"
    using ApplyToneMapping_value(1) [OF i] by blast
  have px: "p \<le> w" using Cons.prems(2) e by simp
  have "\<forall>z\<in>set xs. w \<le> rv (ApplyToneMapping T (Fin z))"
  proof
    fix z assume "z \<in> set xs"
    then have "x \<le> z" using Cons.prems(1) by simp
    then show "w \<le> rv (ApplyToneMapping T (Fin z))"
      using ApplyToneMapping_mono [OF i v, of x z] e by simp
  qed
  moreover have "sorted xs" using Cons.prems(1) by simp
  ultimately have "monotonic_scan T (Fin w) xs" by (intro Cons.IH)
  then show ?case using px e by (simp add: Let_def)
qed

lemma GenerateSamplePoints_sorted: "sorted (GenerateSamplePoints P n m)"
  by (simp add: GenerateSamplePoints_def Let_def sorted_remdups_adj)

lemma sorted_pairs_mono:
  assumes i: "tm_initialized T" and v: "CphParams_IsValid (tm_params T)" and s: "sorted xs"
  shows "sorted_wrt (\<lambda>x y. fle (ApplyToneMapping T (Fin x)) (ApplyToneMapping T (Fin y))) xs"
proof -
  have "fle (ApplyToneMapping T (Fin x)) (ApplyToneMapping T (Fin y))" if "x \<le> y" for x y
    using ApplyToneMapping_mono [OF i v that]
          ApplyToneMapping_value(1) [OF i, of x] ApplyToneMapping_value(1) [OF i, of y]
    by (metis fle.simps(1))
  then show ?thesis using s by (auto intro: sorted_wrt_mono_rel [of xs "(\<le>)"])
qed

text \<open>The curve on exact reals. When every arithmetic operation is exact, the validator
  accepts every initialised tone mapper whose parameter bundle is valid: the sample list
  is sorted, and the value of \<^verbatim>\<open>ApplyToneMapping\<close> at a sample is never below its
  value at an earlier sample. The formulas of the source are therefore non-decreasing as
  mathematics; what rounding to binary32 does to them is a separate question.\<close>

theorem exact_curve_monotone:
  assumes "tm_initialized T" and "CphParams_IsValid (tm_params T)"
  shows "ValidateMonotonicity T 4096 256 \<and>
         sorted (GenerateSamplePoints (tm_params T) 4096 256) \<and>
         sorted_wrt (\<lambda>x y. fle (ApplyToneMapping T (Fin x)) (ApplyToneMapping T (Fin y)))
           (GenerateSamplePoints (tm_params T) 4096 256)"
proof -
  have "\<forall>x\<in>set (GenerateSamplePoints (tm_params T) 4096 256).
          - 1 \<le> rv (ApplyToneMapping T (Fin x))"
    using ApplyToneMapping_value(2) [OF assms(1)] by (auto intro: order_trans [of _ 0])
  then have "monotonic_scan T (Fin (- 1)) (GenerateSamplePoints (tm_params T) 4096 256)"
    using assms GenerateSamplePoints_sorted by (intro monotonic_scan_sorted)
  then show ?thesis
    using assms GenerateSamplePoints_sorted sorted_pairs_mono
    by (simp add: ValidateMonotonicity_def)
qed

theorem exact_curve_monotone_default:
  "tm_initialized default_mapper \<and> CphParams_IsValid (tm_params default_mapper) \<and>
   ValidateMonotonicity default_mapper 4096 256"
  using exact_curve_monotone [of default_mapper]
  by (simp add: default_mapper_simps default_params_valid)

section \<open>Rounding to binary32\<close>

lemma rne_error: "\<bar>of_int (rne z) - z\<bar> \<le> 1 / 2"
proof -
  have "of_int \<lfloor>z\<rfloor> \<le> z" "z < of_int \<lfloor>z\<rfloor> + 1" by linarith+
  then show ?thesis by (auto simp: rne_def Let_def)
qed

lemma rne_nearest:
  assumes "\<bar>z - of_int n\<bar> < 1 / 2"
  shows "rne z = n"
proof -
  have lo: "of_int n - 1 / 2 < z" and hi: "z < of_int n + 1 / 2" using assms by linarith+
  have "\<lfloor>z\<rfloor> = n \<or> \<lfloor>z\<rfloor> = n - 1" using lo hi by linarith
  then show ?thesis
  proof
    assume e: "\<lfloor>z\<rfloor> = n"
    have "z - of_int n < 1 / 2" using hi by linarith
    then show ?thesis using e by (simp add: rne_def Let_def)
  next
    assume e: "\<lfloor>z\<rfloor> = n - 1"
    have "1 / 2 < z - of_int (n - 1)" using lo by simp
    then have "\<not> z - of_int (n - 1) < 1 / 2" by linarith
    then show ?thesis using e \<open>1 / 2 < z - of_int (n - 1)\<close> by (simp add: rne_def Let_def)
  qed
qed

lemma ulp_exponent_scaled:
  assumes "m \<le> 149" "2 ^ 23 \<le> \<bar>x\<bar> * 2 ^ m" "\<bar>x\<bar> * 2 ^ m < 2 ^ 24"
  shows "ulp_exponent x = - int m"
proof -
  have pos: "0 < \<bar>x\<bar>" using assms(2) by (cases "x = 0") auto
  have p: "(2::real) powr (of_int (23 - int m)) = 2 ^ 23 / 2 ^ m"
          "(2::real) powr (of_int (23 - int m + 1)) = 2 ^ 24 / 2 ^ m"
    by (simp_all add: powr_diff powr_realpow powr_add)
  have "2 ^ 23 / 2 ^ m \<le> \<bar>x\<bar>" using assms(2) by (simp add: pos_divide_le_eq)
  moreover have "\<bar>x\<bar> < 2 ^ 24 / 2 ^ m" using assms(3) by (simp add: pos_less_divide_eq)
  ultimately have "\<lfloor>log 2 \<bar>x\<bar>\<rfloor> = 23 - int m"
    using pos p by (subst floor_log_eq_powr_iff) auto
  then show ?thesis using assms(1) by (simp add: ulp_exponent_def)
qed

lemma round32_scaled:
  assumes "m \<le> 149" "2 ^ 23 \<le> \<bar>x\<bar> * 2 ^ m" "\<bar>x\<bar> * 2 ^ m < 2 ^ 24"
  shows "round32 x = of_int (rne (x * 2 ^ m)) / 2 ^ m"
proof -
  have nz: "x \<noteq> 0" using assms(2) by auto
  have e: "ulp_exponent x = - int m" using assms by (rule ulp_exponent_scaled)
  have "(2::real) powr (- real m) = 1 / 2 ^ m"
    by (simp add: powr_minus powr_realpow inverse_eq_divide)
  then show ?thesis using nz by (simp add: round32_def e)
qed

lemma round32_value:
  assumes "m \<le> 149" "2 ^ 23 \<le> \<bar>x\<bar> * 2 ^ m" "\<bar>x\<bar> * 2 ^ m < 2 ^ 24"
      and "\<bar>x * 2 ^ m - of_int n\<bar> < 1 / 2"
  shows "round32 x = of_int n / 2 ^ m"
  using round32_scaled [OF assms(1-3)] rne_nearest [OF assms(4)] by simp

lemma round32_error:
  assumes "m \<le> 149" "2 ^ 23 \<le> \<bar>x\<bar> * 2 ^ m" "\<bar>x\<bar> * 2 ^ m < 2 ^ 24"
  shows "\<bar>round32 x - x\<bar> \<le> 1 / 2 ^ (m + 1)"
proof -
  define r where "r = real_of_int (rne (x * 2 ^ m))"
  have "\<bar>r - x * 2 ^ m\<bar> \<le> 1 / 2" unfolding r_def by (rule rne_error)
  then have "\<bar>r - x * 2 ^ m\<bar> / 2 ^ m \<le> (1 / 2) / 2 ^ m"
    by (intro divide_right_mono) auto
  moreover have "r / 2 ^ m - x = (r - x * 2 ^ m) / 2 ^ m" by (simp add: field_simps)
  then have "\<bar>r / 2 ^ m - x\<bar> = \<bar>r - x * 2 ^ m\<bar> / 2 ^ m" by (simp add: abs_divide)
  ultimately show ?thesis using round32_scaled [OF assms] by (simp add: r_def)
qed

subsection \<open>The roundings of the failing run\<close>

text \<open>Each value below is one rounding of the run of the validator on \<open>rlog_bundle\<close>:
  the literals, the two samples and the operations of the highlight segment.\<close>

lemma rne_tie:
  assumes "even n" "\<bar>z - of_int n\<bar> = 1 / 2"
  shows "rne z = n"
proof -
  consider "z = of_int n + 1 / 2" | "z = of_int n - 1 / 2" using assms(2) by linarith
  then show ?thesis
  proof cases
    case 1
    then have "\<lfloor>z\<rfloor> = n" by linarith
    then show ?thesis using 1 assms(1) by (simp add: rne_def Let_def)
  next
    case 2
    then have "\<lfloor>z\<rfloor> = n - 1" by linarith
    then show ?thesis using 2 assms(1) by (simp add: rne_def Let_def)
  qed
qed

lemma round32_tie:
  assumes "m \<le> 149" "2 ^ 23 \<le> \<bar>x\<bar> * 2 ^ m" "\<bar>x\<bar> * 2 ^ m < 2 ^ 24"
      and "even n" "\<bar>x * 2 ^ m - of_int n\<bar> = 1 / 2"
  shows "round32 x = of_int n / 2 ^ m"
  using round32_scaled [OF assms(1-3)] rne_tie [OF assms(4,5)] by simp

lemma r32_pivot: "round32 (9 / 50) = 3019899 / 16777216"
  using round32_value [of 26 "9 / 50" 12079596] by simp

lemma r32_gamma_s: "round32 (5 / 4) = 5 / 4"
  using round32_value [of 23 "5 / 4" 10485760] by simp

lemma r32_gamma_h: "round32 (11 / 10) = 9227469 / 8388608"
  using round32_value [of 23 "11 / 10" 9227469] by simp

lemma r32_shoulder: "round32 (3 / 2) = 3 / 2"
  using round32_value [of 23 "3 / 2" 12582912] by simp

lemma r32_lift: "round32 (1 / 500) = 8589935 / 4294967296"
  using round32_value [of 32 "1 / 500" 8589935] by simp

lemma r32_fifth: "round32 (1 / 5) = 13421773 / 67108864"
  using round32_value [of 26 "1 / 5" 13421773] by simp

lemma r32_one: "round32 (1) = 1"
  using round32_value [of 23 "1" 8388608] by simp

lemma r32_sat_hi: "round32 (19 / 20) = 15938355 / 16777216"
  using round32_value [of 24 "19 / 20" 15938355] by simp

lemma r32_eight: "round32 (8) = 8"
  using round32_value [of 20 "8" 8388608] by simp

lemma r32_t: "round32 (4113 / 10000) = 6900469 / 16777216"
  using round32_value [of 25 "4113 / 10000" 13800938] by simp

lemma r32_yknee: "round32 (97 / 100) = 4068475 / 4194304"
  using round32_value [of 24 "97 / 100" 16273900] by simp

lemma r32_alpha: "round32 (3 / 5) = 5033165 / 8388608"
  using round32_value [of 24 "3 / 5" 10066330] by simp

lemma r32_tenth: "round32 (1 / 10) = 13421773 / 134217728"
  using round32_value [of 27 "1 / 10" 13421773] by simp

lemma r32_twentieth: "round32 (1 / 20) = 13421773 / 268435456"
  using round32_value [of 28 "1 / 20" 13421773] by simp

lemma r32_t_minus_blend: "round32 (96985731 / 268435456) = 757701 / 2097152"
  using round32_value [of 25 "96985731 / 268435456" 12123216] by simp

lemma r32_t_plus_blend: "round32 (123829277 / 268435456) = 3869665 / 8388608"
  using round32_value [of 25 "123829277 / 268435456" 15478660] by simp

lemma r32_int_1985: "round32 (1985) = 1985"
  using round32_value [of 13 "1985" 16261120] by simp

lemma r32_int_4095: "round32 (4095) = 4095"
  using round32_value [of 12 "4095" 16773120] by simp

lemma r32_x1: "round32 (397 / 819) = 16265091 / 33554432"
  using round32_value [of 25 "397 / 819" 16265091] by simp

lemma r32_int_222: "round32 (222) = 222"
  using round32_value [of 16 "222" 14548992] by simp

lemma r32_int_256: "round32 (256) = 256"
  using round32_value [of 15 "256" 8388608] by simp

lemma r32_ratio_222: "round32 (111 / 128) = 111 / 128"
  using round32_value [of 24 "111 / 128" 14548992] by simp

lemma r32_centred_222: "round32 (47 / 128) = 47 / 128"
  using round32_value [of 25 "47 / 128" 12320768] by simp

lemma r32_offset_222: "round32 (630823331 / 8589934592) = 9856615 / 134217728"
  using round32_value [of 27 "630823331 / 8589934592" 9856615] by simp

lemma r32_x2: "round32 (65060367 / 134217728) = 4066273 / 8388608"
  using round32_value [of 25 "65060367 / 134217728" 16265092] by simp

lemma r32_c_t: "round32 (20701407 / 33554432) = 646919 / 1048576"
  using round32_tie [of 24 "20701407 / 33554432" 10350704] by simp

lemma r32_den_t: "round32 (1695495 / 1048576) = 1695495 / 1048576"
  using round32_value [of 23 "1695495 / 1048576" 13563960] by simp

lemma r32_b_t: "round32 (6900469 / 16777216) = 6900469 / 16777216"
  using round32_value [of 25 "6900469 / 16777216" 13800938] by simp

lemma r32_quot_t: "round32 (6900469 / 27127920) = 8535167 / 33554432"
  using round32_value [of 25 "6900469 / 27127920" 8535167] by simp

lemma r32_c_x1: "round32 (48795273 / 67108864) = 6099409 / 8388608"
  using round32_value [of 24 "48795273 / 67108864" 12198818] by simp

lemma r32_den_x1: "round32 (14488017 / 8388608) = 14488017 / 8388608"
  using round32_value [of 23 "14488017 / 8388608" 14488017] by simp

lemma r32_b_x1: "round32 (16265091 / 33554432) = 16265091 / 33554432"
  using round32_value [of 25 "16265091 / 33554432" 16265091] by simp

lemma r32_quot_x1: "round32 (5421697 / 19317356) = 2354385 / 8388608"
  using round32_value [of 25 "5421697 / 19317356" 9417540] by simp

lemma r32_c_x2: "round32 (12198819 / 16777216) = 12198819 / 16777216"
  using round32_value [of 24 "12198819 / 16777216" 12198819] by simp

lemma r32_den_x2: "round32 (28976035 / 16777216) = 7244009 / 4194304"
  using round32_tie [of 23 "28976035 / 16777216" 14488018] by simp

lemma r32_b_x2: "round32 (4066273 / 8388608) = 4066273 / 8388608"
  using round32_value [of 25 "4066273 / 8388608" 16265092] by simp

lemma r32_quot_x2: "round32 (4066273 / 14488018) = 9417539 / 33554432"
  using round32_value [of 25 "4066273 / 14488018" 9417539] by simp

lemma r32_a_t: "round32 (6900469 / 2097152) = 6900469 / 2097152"
  using round32_value [of 22 "6900469 / 2097152" 13800938] by simp

lemma r32_one_plus_a_t: "round32 (8997621 / 2097152) = 8997621 / 2097152"
  using round32_value [of 21 "8997621 / 2097152" 8997621] by simp

lemma r32_nine: "round32 (9) = 9"
  using round32_value [of 20 "9" 9437184] by simp

lemmas rounded = r32_pivot r32_gamma_s r32_gamma_h r32_shoulder r32_lift r32_fifth r32_one r32_sat_hi r32_eight r32_t r32_yknee r32_alpha r32_tenth r32_twentieth r32_t_minus_blend r32_t_plus_blend r32_int_1985 r32_int_4095 r32_x1 r32_int_222 r32_int_256 r32_ratio_222 r32_centred_222 r32_offset_222 r32_x2 r32_c_t r32_den_t r32_b_t r32_quot_t r32_c_x1 r32_den_x1 r32_b_x1 r32_quot_x1 r32_c_x2 r32_den_x2 r32_b_x2 r32_quot_x2 r32_a_t r32_one_plus_a_t r32_nine

lemma rlog_bundle_fields:
  "curve rlog_bundle = RLOG" "rv (rlog_a rlog_bundle) = 8" "rv (rlog_b rlog_bundle) = 1"
  "rv (rlog_c rlog_bundle) = 3 / 2" "rv (rlog_t rlog_bundle) = 6900469 / 16777216"
  "rv (yknee rlog_bundle) = 4068475 / 4194304" "rv (alpha rlog_bundle) = 5033165 / 8388608"
  "rv (toe rlog_bundle) = 8589935 / 4294967296"
  by (simp_all add: rlog_bundle_def rounded)

lemma rlog_bundle_valid: "CphParams_IsValid rlog_bundle"
  by (simp add: CphParams_IsValid_def rlog_bundle_def NumericalProtection_IsValid_def
                out_of_range_def rounded)

lemma high_x1: "RLOGHighlightSegment_f32 rlog_bundle (16265091 / 33554432) = 2354385 / 8388608"
  by (simp add: RLOGHighlightSegment_f32_def rlog_bundle_fields Let_def
                add32_def mul32_def div32_def rounded)

lemma high_x2: "RLOGHighlightSegment_f32 rlog_bundle (4066273 / 8388608) = 9417539 / 33554432"
  by (simp add: RLOGHighlightSegment_f32_def rlog_bundle_fields Let_def
                add32_def mul32_def div32_def rounded)

lemma high_t: "RLOGHighlightSegment_f32 rlog_bundle (6900469 / 16777216) = 8535167 / 33554432"
  by (simp add: RLOGHighlightSegment_f32_def rlog_bundle_fields Let_def
                add32_def mul32_def div32_def rounded)

subsection \<open>Crude bounds on two logarithms\<close>

lemma ln_le_by_power:
  assumes "0 < y" "0 < n" "- real n \<le> x" "y \<le> (1 + x / real n) ^ n"
  shows "ln y \<le> x"
proof -
  have "(1 + x / real n) ^ n \<le> exp x"
    using assms(3,2) by (rule exp_ge_one_plus_x_over_n_power_n)
  then have "y \<le> exp x" using assms(4) by linarith
  then have "ln y \<le> ln (exp x)" using assms(1) by (subst ln_le_cancel_iff) auto
  then show ?thesis by simp
qed

lemma ln_ge_by_power:
  assumes "0 < y" "0 < n" "x \<le> real n" "1 / y \<le> (1 - x / real n) ^ n"
  shows "x \<le> ln y"
proof -
  have "(1 + (- x) / real n) ^ n \<le> exp (- x)"
    by (rule exp_ge_one_plus_x_over_n_power_n) (use assms in auto)
  then have "1 / y \<le> exp (- x)" using assms(4) by simp
  then have "1 / y \<le> 1 / exp x" by (simp add: exp_minus inverse_eq_divide)
  then have "exp x \<le> y" using assms(1) by (simp add: field_simps)
  then have "ln (exp x) \<le> ln y" using assms(1) by (subst ln_le_cancel_iff) auto
  then show ?thesis by simp
qed

lemma ln_nine_bounds: "2 \<le> ln (9::real)" "ln (9::real) \<le> 9 / 4"
proof -
  show "2 \<le> ln (9::real)"
    using ln_ge_by_power [of 9 16 2] by (simp add: power_divide)
  show "ln (9::real) \<le> 9 / 4"
    using ln_le_by_power [of 9 64 "9 / 4"] by (simp add: power_divide)
qed

lemma ln_dark_argument_bounds:
  "5 / 4 \<le> ln (8997621 / 2097152 :: real)" "ln (8997621 / 2097152 :: real) \<le> 3 / 2"
proof -
  show "5 / 4 \<le> ln (8997621 / 2097152 :: real)"
    using ln_ge_by_power [of "8997621 / 2097152" 16 "5 / 4"] by (simp add: power_divide)
  show "ln (8997621 / 2097152 :: real) \<le> 3 / 2"
    using ln_le_by_power [of "8997621 / 2097152" 32 "3 / 2"] by (simp add: power_divide)
qed

section \<open>The validator in binary32\<close>

lemma round32_between:
  assumes "m \<le> 149" "2 ^ 23 \<le> lo * 2 ^ m" "hi * 2 ^ m < 2 ^ 24" "lo \<le> x" "x \<le> hi"
  shows "lo - 1 / 2 ^ (m + 1) \<le> round32 x" "round32 x \<le> hi + 1 / 2 ^ (m + 1)"
proof -
  have "0 < lo * 2 ^ m" using assms(2) by (rule less_le_trans [rotated]) simp
  then have lo: "0 < lo" by (simp add: zero_less_mult_iff)
  then have x: "\<bar>x\<bar> = x" using assms(4) by simp
  have "lo * 2 ^ m \<le> x * 2 ^ m" using assms(4) by (intro mult_right_mono) auto
  then have "2 ^ 23 \<le> x * 2 ^ m" using assms(2) by linarith
  then have a: "2 ^ 23 \<le> \<bar>x\<bar> * 2 ^ m" unfolding x .
  have "x * 2 ^ m \<le> hi * 2 ^ m" using assms(5) by (intro mult_right_mono) auto
  then have "x * 2 ^ m < 2 ^ 24" using assms(3) by linarith
  then have b: "\<bar>x\<bar> * 2 ^ m < 2 ^ 24" unfolding x .
  have e: "\<bar>round32 x - x\<bar> \<le> 1 / 2 ^ (m + 1)" using assms(1) a b by (rule round32_error)
  show "lo - 1 / 2 ^ (m + 1) \<le> round32 x" using e assms(4) by linarith
  show "round32 x \<le> hi + 1 / 2 ^ (m + 1)" using e assms(5) by linarith
qed

lemma round32_strict:
  assumes "m \<le> 149"
      and "2 ^ 23 \<le> \<bar>a\<bar> * 2 ^ m" "\<bar>a\<bar> * 2 ^ m < 2 ^ 24"
      and "2 ^ 23 \<le> \<bar>b\<bar> * 2 ^ m" "\<bar>b\<bar> * 2 ^ m < 2 ^ 24"
      and "1 < (a - b) * 2 ^ m"
  shows "round32 b < round32 a"
proof -
  have "\<bar>of_int (rne (a * 2 ^ m)) - a * 2 ^ m\<bar> \<le> 1 / 2"
       "\<bar>of_int (rne (b * 2 ^ m)) - b * 2 ^ m\<bar> \<le> 1 / 2"
    by (rule rne_error)+
  moreover have "1 < a * 2 ^ m - b * 2 ^ m" using assms(6) by (simp add: algebra_simps)
  ultimately have "real_of_int (rne (b * 2 ^ m)) < real_of_int (rne (a * 2 ^ m))" by linarith
  then have "real_of_int (rne (b * 2 ^ m)) / 2 ^ m < real_of_int (rne (a * 2 ^ m)) / 2 ^ m"
    by (intro divide_strict_right_mono) auto
  then show ?thesis
    using round32_scaled [OF assms(1,2,3)] round32_scaled [OF assms(1,4,5)] by simp
qed

lemma rlog_mapper_fields: "tm_initialized rlog_mapper" "tm_params rlog_mapper = rlog_bundle"
  by (simp_all add: rlog_mapper_def ToneMapper_Initialize_def rlog_bundle_valid)

text \<open>The dark segment at the splice threshold, for a library logarithm within 1/100 of
  the exact one at the two arguments the segment passes to it.\<close>

lemma dark_at_threshold:
  assumes "\<bar>std_log L 9 - ln 9\<bar> \<le> 1 / 100"
      and "\<bar>std_log L (8997621 / 2097152) - ln (8997621 / 2097152)\<bar> \<le> 1 / 100"
  shows "27 / 50 \<le> RLOGDarkSegment_f32 L rlog_bundle (6900469 / 16777216)"
    and "RLOGDarkSegment_f32 L rlog_bundle (6900469 / 16777216) \<le> 19 / 25"
proof -
  define n where "n = std_log L (8997621 / 2097152)"
  define d where "d = std_log L 9"
  have n: "124 / 100 \<le> n" "n \<le> 151 / 100"
    using assms(2) ln_dark_argument_bounds unfolding n_def by linarith+
  have d: "199 / 100 \<le> d" "d \<le> 226 / 100"
    using assms(1) ln_nine_bounds unfolding d_def by linarith+
  have e: "RLOGDarkSegment_f32 L rlog_bundle (6900469 / 16777216) = round32 (n / d)"
    using d(1) by (simp add: RLOGDarkSegment_f32_def rlog_bundle_fields Let_def add32_def
                             mul32_def div32_def rounded n_def d_def)
  have "(124 / 100) / (226 / 100) \<le> n / d" using n d by (intro frac_le) auto
  then have lo: "54 / 100 + 1 / 2 ^ 25 \<le> n / d" by simp
  have "n / d \<le> (151 / 100) / (199 / 100)" using n d by (intro frac_le) auto
  then have hi: "n / d \<le> 76 / 100 - 1 / 2 ^ 25" by simp
  have "54 / 100 + 1 / 2 ^ 25 - 1 / 2 ^ (24 + 1) \<le> round32 (n / d)"
       "round32 (n / d) \<le> 76 / 100 - 1 / 2 ^ 25 + 1 / 2 ^ (24 + 1)"
    using round32_between [of 24 "54 / 100 + 1 / 2 ^ 25" "76 / 100 - 1 / 2 ^ 25" "n / d"] lo hi
    by simp_all
  then show "27 / 50 \<le> RLOGDarkSegment_f32 L rlog_bundle (6900469 / 16777216)"
    and "RLOGDarkSegment_f32 L rlog_bundle (6900469 / 16777216) \<le> 19 / 25"
    unfolding e by simp_all
qed

lemma scale_factor_bounds:
  assumes "27 / 50 \<le> k" "k \<le> 19 / 25"
  shows "21 / 10 \<le> div32 k (8535167 / 33554432)" "div32 k (8535167 / 33554432) \<le> 3"
proof -
  have lo: "212 / 100 \<le> k / (8535167 / 33554432)" using assms(1) by simp
  have hi: "k / (8535167 / 33554432) \<le> 299 / 100" using assms(2) by simp
  have "212 / 100 - 1 / 2 ^ (22 + 1) \<le> round32 (k / (8535167 / 33554432))"
       "round32 (k / (8535167 / 33554432)) \<le> 299 / 100 + 1 / 2 ^ (22 + 1)"
    using round32_between [of 22 "212 / 100" "299 / 100" "k / (8535167 / 33554432)"] lo hi
    by simp_all
  then show "21 / 10 \<le> div32 k (8535167 / 33554432)" "div32 k (8535167 / 33554432) \<le> 3"
    unfolding div32_def by simp_all
qed

text \<open>The two rounded quotients differ by one unit in the last place, in the wrong
  order; after the multiplication by a scale factor above 2 the products still do.\<close>

lemma scaled_quotients:
  assumes "21 / 10 \<le> s" "s \<le> 3"
  shows "mul32 (9417539 / 33554432) s < mul32 (2354385 / 8388608) s"
    and "1 / 2 \<le> mul32 (9417539 / 33554432) s"
    and "mul32 (2354385 / 8388608) s \<le> 9 / 10"
proof -
  let ?a = "2354385 / 8388608 * s" and ?b = "9417539 / 33554432 * s"
  have a: "58 / 100 \<le> ?a" "?a \<le> 85 / 100" using assms by simp_all
  have b: "58 / 100 \<le> ?b" "?b \<le> 85 / 100" using assms by simp_all
  have d: "(?a - ?b) * 2 ^ 24 = s / 2" by simp
  have "round32 ?b < round32 ?a"
    using round32_strict [of 24 ?a ?b] a b d assms(1) by simp
  then show "mul32 (9417539 / 33554432) s < mul32 (2354385 / 8388608) s"
    by (simp add: mul32_def)
  have "58 / 100 - 1 / 2 ^ (24 + 1) \<le> round32 ?b"
    using round32_between(1) [of 24 "58 / 100" "85 / 100" ?b] b by simp
  then show "1 / 2 \<le> mul32 (9417539 / 33554432) s" by (simp add: mul32_def)
  have "round32 ?a \<le> 85 / 100 + 1 / 2 ^ (24 + 1)"
    using round32_between(2) [of 24 "58 / 100" "85 / 100" ?a] a by simp
  then show "mul32 (2354385 / 8388608) s \<le> 9 / 10" by (simp add: mul32_def)
qed

lemma ApplyRLOG_f32_above_window:
  "ApplyRLOG_f32 L rlog_bundle (16265091 / 33554432) =
     mul32 (2354385 / 8388608)
       (div32 (RLOGDarkSegment_f32 L rlog_bundle (6900469 / 16777216)) (8535167 / 33554432))"
  "ApplyRLOG_f32 L rlog_bundle (4066273 / 8388608) =
     mul32 (9417539 / 33554432)
       (div32 (RLOGDarkSegment_f32 L rlog_bundle (6900469 / 16777216)) (8535167 / 33554432))"
  by (simp_all add: ApplyRLOG_f32_def rlog_bundle_fields Let_def high_x1 high_x2 high_t
                    add32_def sub32_def rounded)

lemma knee_toe_clamp_identity:
  assumes "1 / 2 \<le> y" "y \<le> 9 / 10"
  shows "clampr (ApplyToeClamp rlog_bundle (ApplySoftKnee_f32 rlog_bundle y)) 0 1 = y"
  using assms
  by (simp add: ApplySoftKnee_f32_def ApplyToeClamp_def clampr_def rlog_bundle_fields Let_def)

lemma ApplyToneMapping_f32_rlog_mapper:
  assumes "0 \<le> x" "x \<le> 1"
  shows "ApplyToneMapping_f32 L rlog_mapper (Fin x) =
         Fin (clampr (ApplyToeClamp rlog_bundle (ApplySoftKnee_f32 rlog_bundle
                (ApplyRLOG_f32 L rlog_bundle x))) 0 1)"
proof -
  have "clampr x 0 1 = x" using assms by (simp add: clampr_def)
  then show ?thesis
    by (simp add: ApplyToneMapping_f32_def rlog_mapper_fields NumericalProtection_IsValid_def
                  rlog_bundle_fields Let_def)
qed

lemma ApplyToneMapping_f32_rlog:
  assumes "\<bar>std_log L 9 - ln 9\<bar> \<le> 1 / 100"
      and "\<bar>std_log L (8997621 / 2097152) - ln (8997621 / 2097152)\<bar> \<le> 1 / 100"
  shows "\<exists>v w. ApplyToneMapping_f32 L rlog_mapper (Fin (16265091 / 33554432)) = Fin v \<and>
               ApplyToneMapping_f32 L rlog_mapper (Fin (4066273 / 8388608)) = Fin w \<and> w < v"
proof -
  define s where
    "s = div32 (RLOGDarkSegment_f32 L rlog_bundle (6900469 / 16777216)) (8535167 / 33554432)"
  have k: "27 / 50 \<le> RLOGDarkSegment_f32 L rlog_bundle (6900469 / 16777216)"
          "RLOGDarkSegment_f32 L rlog_bundle (6900469 / 16777216) \<le> 19 / 25"
    using assms by (rule dark_at_threshold)+
  have s: "21 / 10 \<le> s" "s \<le> 3" unfolding s_def using k by (rule scale_factor_bounds)+
  let ?v = "mul32 (2354385 / 8388608) s" and ?w = "mul32 (9417539 / 33554432) s"
  have o: "?w < ?v" and lo: "1 / 2 \<le> ?w" and hi: "?v \<le> 9 / 10"
    using s by (rule scaled_quotients)+
  have r: "ApplyRLOG_f32 L rlog_bundle (16265091 / 33554432) = ?v"
          "ApplyRLOG_f32 L rlog_bundle (4066273 / 8388608) = ?w"
    unfolding s_def by (rule ApplyRLOG_f32_above_window)+
  have "clampr (ApplyToeClamp rlog_bundle (ApplySoftKnee_f32 rlog_bundle ?v)) 0 1 = ?v"
    using o lo hi by (intro knee_toe_clamp_identity) auto
  then have v: "ApplyToneMapping_f32 L rlog_mapper (Fin (16265091 / 33554432)) = Fin ?v"
    using ApplyToneMapping_f32_rlog_mapper [of "16265091 / 33554432" L] r(1) by simp
  have "clampr (ApplyToeClamp rlog_bundle (ApplySoftKnee_f32 rlog_bundle ?w)) 0 1 = ?w"
    using o lo hi by (intro knee_toe_clamp_identity) auto
  then have w: "ApplyToneMapping_f32 L rlog_mapper (Fin (4066273 / 8388608)) = Fin ?w"
    using ApplyToneMapping_f32_rlog_mapper [of "4066273 / 8388608" L] r(2) by simp
  show ?thesis using v w o by blast
qed

text \<open>A scan that returns true has seen values that never fall along the list.\<close>

lemma monotonic_scan_f32_sound:
  assumes i: "tm_initialized T"
  shows "monotonic_scan_f32 L T (Fin r) xs \<Longrightarrow> sorted xs \<Longrightarrow>
         (\<forall>z\<in>set xs. r \<le> rv (ApplyToneMapping_f32 L T (Fin z))) \<and>
         (\<forall>x\<in>set xs. \<forall>y\<in>set xs. x < y \<longrightarrow>
            rv (ApplyToneMapping_f32 L T (Fin x)) \<le> rv (ApplyToneMapping_f32 L T (Fin y)))"
proof (induction xs arbitrary: r)
  case Nil
  show ?case by simp
next
  case (Cons a xs)
  let ?g = "\<lambda>z. rv (ApplyToneMapping_f32 L T (Fin z))"
  have e: "ApplyToneMapping_f32 L T (Fin a) = Fin (?g a)"
    using i by (simp add: ApplyToneMapping_f32_def NumericalProtection_IsValid_def Let_def)
  have ra: "r \<le> ?g a" and sc: "monotonic_scan_f32 L T (Fin (?g a)) xs"
  proof -
    have "\<not> flt (Fin (?g a)) (Fin r) \<and> monotonic_scan_f32 L T (Fin (?g a)) xs"
      using Cons.prems(1) e by (simp add: Let_def split: if_splits)
    then show "r \<le> ?g a" and "monotonic_scan_f32 L T (Fin (?g a)) xs" by simp_all
  qed
  have st: "sorted xs" and al: "\<forall>z\<in>set xs. a \<le> z" using Cons.prems(2) by simp_all
  have ih: "\<forall>z\<in>set xs. ?g a \<le> ?g z"
           "\<forall>x\<in>set xs. \<forall>y\<in>set xs. x < y \<longrightarrow> ?g x \<le> ?g y"
    using Cons.IH [OF sc st] by simp_all
  have "\<forall>z\<in>set (a # xs). r \<le> ?g z" using ra ih(1) by auto
  moreover have "\<forall>x\<in>set (a # xs). \<forall>y\<in>set (a # xs). x < y \<longrightarrow> ?g x \<le> ?g y"
    using ih al by auto
  ultimately show ?case by blast
qed

lemma GenerateSamplePoints_f32_sorted: "sorted (GenerateSamplePoints_f32 P n m)"
  by (simp add: GenerateSamplePoints_f32_def Let_def sorted_remdups_adj)

lemma sample_1985: "16265091 / 33554432 \<in> set (GenerateSamplePoints_f32 rlog_bundle 4096 256)"
proof -
  have "div32 (round32 (real_of_int 1985)) (round32 (real_of_int (4096 - 1))) =
        16265091 / 33554432"
    by (simp add: div32_def rounded)
  moreover have "(1985::int) \<in> set [0 .. 4096 - 1]" by simp
  ultimately have "16265091 / 33554432 \<in> set (uniform_points_f32 4096)"
    unfolding uniform_points_f32_def set_map by (metis imageI)
  then show ?thesis by (simp add: GenerateSamplePoints_f32_def Let_def)
qed

lemma problem_222: "4066273 / 8388608 \<in> set (GenerateSamplePoints_f32 rlog_bundle 4096 256)"
proof -
  have "problem_point_f32 (rv (rlog_t rlog_bundle)) (round32 0.2) 256 222 = 4066273 / 8388608"
    by (simp add: problem_point_f32_def rlog_bundle_fields Let_def add32_def sub32_def
                  mul32_def div32_def rounded clampr_def)
  moreover have "(222::int) \<in> set [0 .. 256 - 1]" by simp
  ultimately have "4066273 / 8388608 \<in>
      set (map (problem_point_f32 (rv (rlog_t rlog_bundle)) (round32 0.2) 256) [0 .. 256 - 1])"
    unfolding set_map by (metis imageI)
  then show ?thesis by (simp add: GenerateSamplePoints_f32_def Let_def rlog_bundle_fields)
qed

text \<open>Claim C1. The claim says that \<^verbatim>\<open>ValidateMonotonicity\<close> returns true for every
  valid bundle. Computed in binary32 it does not. Take the valid bundle \<open>rlog_bundle\<close>
  (the RLOG curve with \<^verbatim>\<open>rlog_t = 0.4113f\<close>) and any C library whose logarithm is
  within 1/100 of the exact one at the two arguments the dark segment passes to it,
  \<open>1 + a = 9\<close> and \<open>1 + a t\<close>. Then the uniform sample 1985 and the problem point 222,
  one unit in the last place above it, are both in the sample list of
  \<^verbatim>\<open>ValidateMonotonicity(4096, 256)\<close>, the curve value at the larger sample is below the
  value at the smaller one, and the validator returns false.\<close>

theorem binary32_validator_rejects_valid_bundle:
  assumes "\<bar>std_log L 9 - ln 9\<bar> \<le> 1 / 100"
      and "\<bar>std_log L (8997621 / 2097152) - ln (8997621 / 2097152)\<bar> \<le> 1 / 100"
  shows "CphParams_IsValid rlog_bundle \<and> tm_initialized rlog_mapper \<and>
         tm_params rlog_mapper = rlog_bundle \<and>
         16265091 / 33554432 \<in> set (GenerateSamplePoints_f32 rlog_bundle 4096 256) \<and>
         4066273 / 8388608 \<in> set (GenerateSamplePoints_f32 rlog_bundle 4096 256) \<and>
         flt (ApplyToneMapping_f32 L rlog_mapper (Fin (4066273 / 8388608)))
             (ApplyToneMapping_f32 L rlog_mapper (Fin (16265091 / 33554432))) \<and>
         \<not> ValidateMonotonicity_f32 L rlog_mapper 4096 256"
proof -
  obtain v w where v: "ApplyToneMapping_f32 L rlog_mapper (Fin (16265091 / 33554432)) = Fin v"
    and w: "ApplyToneMapping_f32 L rlog_mapper (Fin (4066273 / 8388608)) = Fin w"
    and o: "w < v"
    using ApplyToneMapping_f32_rlog [OF assms] by blast
  have "\<not> monotonic_scan_f32 L rlog_mapper (Fin (- 1))
            (GenerateSamplePoints_f32 rlog_bundle 4096 256)"
  proof
    assume "monotonic_scan_f32 L rlog_mapper (Fin (- 1))
              (GenerateSamplePoints_f32 rlog_bundle 4096 256)"
    then have "\<forall>x\<in>set (GenerateSamplePoints_f32 rlog_bundle 4096 256).
               \<forall>y\<in>set (GenerateSamplePoints_f32 rlog_bundle 4096 256). x < y \<longrightarrow>
                 rv (ApplyToneMapping_f32 L rlog_mapper (Fin x)) \<le>
                 rv (ApplyToneMapping_f32 L rlog_mapper (Fin y))"
      using monotonic_scan_f32_sound [OF rlog_mapper_fields(1)] GenerateSamplePoints_f32_sorted
      by blast
    moreover have "(16265091 / 33554432 :: real) < 4066273 / 8388608" by simp
    ultimately have "rv (ApplyToneMapping_f32 L rlog_mapper (Fin (16265091 / 33554432))) \<le>
                     rv (ApplyToneMapping_f32 L rlog_mapper (Fin (4066273 / 8388608)))"
      using sample_1985 problem_222 by blast
    then show False using v w o by simp
  qed
  then have "\<not> ValidateMonotonicity_f32 L rlog_mapper 4096 256"
    by (simp add: ValidateMonotonicity_f32_def rlog_mapper_fields)
  then show ?thesis
    using rlog_bundle_valid rlog_mapper_fields sample_1985 problem_222 v w o by simp
qed

lemma rounding_libm_log:
  assumes "m \<le> 149" "2 ^ 23 \<le> lo * 2 ^ m" "hi * 2 ^ m < 2 ^ 24" "lo \<le> ln x" "ln x \<le> hi"
  shows "\<bar>std_log rounding_libm x - ln x\<bar> \<le> 1 / 2 ^ (m + 1)"
proof -
  have "0 < lo * 2 ^ m" using assms(2) by (rule less_le_trans [rotated]) simp
  then have "0 < lo" by (simp add: zero_less_mult_iff)
  then have x: "\<bar>ln x\<bar> = ln x" using assms(4) by simp
  have "lo * 2 ^ m \<le> ln x * 2 ^ m" using assms(4) by (intro mult_right_mono) auto
  then have "2 ^ 23 \<le> ln x * 2 ^ m" using assms(2) by linarith
  then have a: "2 ^ 23 \<le> \<bar>ln x\<bar> * 2 ^ m" unfolding x .
  have "ln x * 2 ^ m \<le> hi * 2 ^ m" using assms(5) by (intro mult_right_mono) auto
  then have "ln x * 2 ^ m < 2 ^ 24" using assms(3) by linarith
  then have b: "\<bar>ln x\<bar> * 2 ^ m < 2 ^ 24" unfolding x .
  show ?thesis using round32_error [OF assms(1) a b] by (simp add: rounding_libm_def)
qed

theorem binary32_validator_rejects_valid_bundle_witness:
  "\<bar>std_log rounding_libm 9 - ln 9\<bar> \<le> 1 / 100 \<and>
   \<bar>std_log rounding_libm (8997621 / 2097152) - ln (8997621 / 2097152)\<bar> \<le> 1 / 100 \<and>
   CphParams_IsValid rlog_bundle \<and> tm_initialized rlog_mapper \<and>
   \<not> ValidateMonotonicity_f32 rounding_libm rlog_mapper 4096 256"
proof -
  have a: "\<bar>std_log rounding_libm 9 - ln 9\<bar> \<le> 1 / 100"
    using rounding_libm_log [of 22 2 "9 / 4" 9] ln_nine_bounds by simp
  have b: "\<bar>std_log rounding_libm (8997621 / 2097152) - ln (8997621 / 2097152)\<bar> \<le> 1 / 100"
    using rounding_libm_log [of 23 "5 / 4" "3 / 2" "8997621 / 2097152"] ln_dark_argument_bounds
    by simp
  from binary32_validator_rejects_valid_bundle [OF a b] a b show ?thesis by simp
qed

end
